(* ===== verification/Prelude.thy ===== *)
theory Prelude
  imports Main "HOL-Library.AList" "HOL-Library.Word" "HOL-Library.Char_ord"
    "HOL-Library.List_Lexorder" "HOL-Library.Sublist" "HOL-Library.Multiset"
begin

text \<open>
  Shared vocabulary of the development: Go errors, the outcome of a Go call (a value, a
  returned error or a panic), actions over an explicit state with their composition, a
  preservation calculus for them, and Go maps as lists of entries.
\<close>

section \<open>Errors and outcomes\<close>

text \<open>
  A Go \<open>error\<close> is observed in three ways in this program: through its text, through the
  type assertion on \<open>conduit.AppExecution\<close> that picks the exit code, and as a member of
  the \<open>multierror\<close> that \<open>Teardown\<close> collects.
\<close>

datatype gerror = ErrorString string | AppExecution int | MultiError "gerror list"

datatype 'a outcome = Ok 'a | Err gerror | Panic string

type_synonym int64 = "64 word"
type_synonym uint16 = "16 word"

text \<open>The text of the two panics the program can run into.\<close>

abbreviation nil_deref :: string where
  "nil_deref \<equiv> ''invalid memory address or nil pointer dereference''"

abbreviation nil_map_write :: string where
  "nil_map_write \<equiv> ''assignment to entry in nil map''"

abbreviation slice_bounds :: string where
  "slice_bounds \<equiv> ''slice bounds out of range''"

definition is_ok :: "'a outcome \<Rightarrow> bool" where
  "is_ok r = (case r of Ok _ \<Rightarrow> True | _ \<Rightarrow> False)"

lemma is_ok_simps [simp]: "is_ok (Ok a)" "\<not> is_ok (Err e)" "\<not> is_ok (Panic p)"
  by (simp_all add: is_ok_def)

lemma is_okE: "is_ok r \<Longrightarrow> (\<And>a. r = Ok a \<Longrightarrow> P) \<Longrightarrow> P"
  by (cases r) simp_all

section \<open>Actions over a state\<close>

type_synonym ('s, 'a) act = "'s \<Rightarrow> 'a outcome \<times> 's"

named_theorems act_defs \<open>unfolding of the action combinators\<close>
named_theorems keeps \<open>state predicates kept by actions\<close>

definition ret :: "'a \<Rightarrow> ('s, 'a) act" where
  [act_defs]: "ret a = (\<lambda>s. (Ok a, s))"

definition raise :: "gerror \<Rightarrow> ('s, 'a) act" where
  [act_defs]: "raise e = (\<lambda>s. (Err e, s))"

definition panic :: "string \<Rightarrow> ('s, 'a) act" where
  [act_defs]: "panic p = (\<lambda>s. (Panic p, s))"

definition seq :: "('s, 'a) act \<Rightarrow> ('a \<Rightarrow> ('s, 'b) act) \<Rightarrow> ('s, 'b) act" where
  [act_defs]: "seq m f = (\<lambda>s. case m s of
     (Ok a, s') \<Rightarrow> f a s' | (Err e, s') \<Rightarrow> (Err e, s') | (Panic p, s') \<Rightarrow> (Panic p, s'))"

definition upd :: "('s \<Rightarrow> 's) \<Rightarrow> ('s, unit) act" where
  [act_defs]: "upd f = (\<lambda>s. (Ok (), f s))"

definition get_st :: "('s \<Rightarrow> 'a) \<Rightarrow> ('s, 'a) act" where
  [act_defs]: "get_st f = (\<lambda>s. (Ok (f s), s))"

abbreviation andthen :: "('s, 'a) act \<Rightarrow> ('s, 'b) act \<Rightarrow> ('s, 'b) act" where
  "andthen m n \<equiv> seq m (\<lambda>_. n)"

text \<open>A \<open>for \<dots> range\<close> loop whose body can return from the enclosing function.\<close>

fun for_each :: "('a \<Rightarrow> ('s, unit) act) \<Rightarrow> 'a list \<Rightarrow> ('s, unit) act" where
  "for_each f [] = ret ()"
| "for_each f (x # xs) = andthen (f x) (for_each f xs)"

text \<open>
  \<open>preserves I m\<close>: whatever the outcome of \<open>m\<close>, the state predicate \<open>I\<close> still holds.
  Deferred calls run after errors and panics alike, so invariants are stated for all outcomes.
\<close>

definition preserves :: "('s \<Rightarrow> bool) \<Rightarrow> ('s, 'a) act \<Rightarrow> bool" where
  "preserves I m = (\<forall>s. I s \<longrightarrow> I (snd (m s)))"

lemma preservesI: "(\<And>s. I s \<Longrightarrow> I (snd (m s))) \<Longrightarrow> preserves I m"
  by (simp add: preserves_def)

lemma preservesD: "preserves I m \<Longrightarrow> I s \<Longrightarrow> I (snd (m s))"
  by (simp add: preserves_def)

lemma preserves_ret [keeps]: "preserves I (ret a)"
  and preserves_raise [keeps]: "preserves I (raise e)"
  and preserves_panic [keeps]: "preserves I (panic p)"
  and preserves_get_st [keeps]: "preserves I (get_st g)"
  by (simp_all add: preserves_def act_defs)

lemma preserves_seq [keeps]:
  "preserves I m \<Longrightarrow> (\<And>a. preserves I (f a)) \<Longrightarrow> preserves I (seq m f)"
  by (auto simp: preserves_def seq_def split: prod.splits outcome.splits)

lemma preserves_upd: "(\<And>s. I s \<Longrightarrow> I (g s)) \<Longrightarrow> preserves I (upd g)"
  by (simp add: preserves_def upd_def)

lemma preserves_for_each [keeps]: "(\<And>x. preserves I (f x)) \<Longrightarrow> preserves I (for_each f xs)"
  by (induction xs) (auto intro: keeps)

lemma preserves_if [keeps]: "preserves I m \<Longrightarrow> preserves I n \<Longrightarrow> preserves I (if b then m else n)"
  by simp

lemma seq_Ok: "m s = (Ok a, s') \<Longrightarrow> seq m f s = f a s'"
  and seq_Err: "m s = (Err e, s') \<Longrightarrow> seq m f s = (Err e, s')"
  and seq_Panic: "m s = (Panic p, s') \<Longrightarrow> seq m f s = (Panic p, s')"
  by (simp_all add: seq_def)

lemma seq_assoc: "seq (seq m f) g = seq m (\<lambda>a. seq (f a) g)"
  by (rule ext) (simp add: seq_def split: prod.splits outcome.splits)

lemma seq_OkE:
  assumes "seq m f s = (Ok b, s'')"
  obtains a s' where "m s = (Ok a, s')" "f a s' = (Ok b, s'')"
  using assms by (auto simp: seq_def split: prod.splits outcome.splits)

text \<open>Actions that never panic.\<close>

named_theorems calm \<open>actions that do not panic\<close>

definition no_panic :: "('s, 'a) act \<Rightarrow> bool" where
  "no_panic m = (\<forall>s p. fst (m s) \<noteq> Panic p)"

lemma no_panicD: "no_panic m \<Longrightarrow> m s \<noteq> (Panic p, s')"
  by (metis fst_conv no_panic_def)

lemma no_panic_ret [calm]: "no_panic (ret a)"
  and no_panic_raise [calm]: "no_panic (raise e)"
  and no_panic_upd [calm]: "no_panic (upd g)"
  and no_panic_get_st [calm]: "no_panic (get_st h)"
  by (simp_all add: no_panic_def act_defs)

lemma no_panic_seq [calm]: "no_panic m \<Longrightarrow> (\<And>a. no_panic (f a)) \<Longrightarrow> no_panic (seq m f)"
  unfolding no_panic_def seq_def
  by (auto split: prod.splits outcome.splits) (metis fst_conv)

lemma no_panic_if [calm]: "no_panic m \<Longrightarrow> no_panic n \<Longrightarrow> no_panic (if b then m else n)"
  by simp

lemma no_panic_case_prod [calm]:
  "(\<And>a b. no_panic (f a b)) \<Longrightarrow> no_panic (case p of (a, b) \<Rightarrow> f a b)"
  by (cases p) simp

lemma no_panic_for_each [calm]: "(\<And>x. no_panic (f x)) \<Longrightarrow> no_panic (for_each f xs)"
  by (induction xs) (auto intro: calm)

section \<open>Go maps\<close>

text \<open>
  A Go map is a list of entries with distinct keys; the position of an entry is the place
  where a \<open>range\<close> over the map visits it. Go leaves that order open, so a result that could
  depend on it is either shown not to (a lemma over permutations of the entries) or stated for
  every order. A nil map is a \<open>None\<close> where the code can meet one.
\<close>

type_synonym 'v gomap = "(string \<times> 'v) list"

definition keys :: "'v gomap \<Rightarrow> string list" where
  "keys m = map fst m"

definition wf_map :: "'v gomap \<Rightarrow> bool" where
  "wf_map m = distinct (keys m)"

lemma keys_simps [simp]: "keys [] = []" "keys (e # m) = fst e # keys m"
  by (simp_all add: keys_def)

lemma set_keys: "set (keys m) = dom (map_of m)"
  by (simp add: keys_def dom_map_of_conv_image_fst)

lemma keys_update: "keys (AList.update k v m) = (if k \<in> set (keys m) then keys m else keys m @ [k])"
  by (simp add: keys_def update_keys)

lemma wf_map_update [intro]: "wf_map m \<Longrightarrow> wf_map (AList.update k v m)"
  by (simp add: wf_map_def keys_def distinct_update)

lemma wf_map_delete [intro]: "wf_map m \<Longrightarrow> wf_map (AList.delete k m)"
  by (simp add: wf_map_def keys_def distinct_delete)

lemma keys_delete: "keys (AList.delete k m) = filter (\<lambda>k'. k' \<noteq> k) (keys m)"
  by (induction m) (auto simp: AList.delete_eq)

lemma map_of_mset_eq:
  assumes "wf_map m" and "mset m = mset m'"
  shows "map_of m = map_of m'"
proof -
  have "mset (map fst m) = mset (map fst m')" using assms(2) by (simp add: mset_map)
  then have "distinct (map fst m')"
    using assms(1) by (metis keys_def mset_eq_imp_distinct_iff wf_map_def)
  moreover have "set m = set m'" using assms(2) by (rule mset_eq_setD)
  ultimately show ?thesis
    using assms(1) by (simp add: wf_map_def keys_def map_of_inject_set)
qed

text \<open>Filling a map from a list: later entries replace earlier ones with the same key.\<close>

lemma map_of_fold_update:
  "map_of (fold (\<lambda>x m. AList.update (f x) x m) xs m) k =
     (case find (\<lambda>x. f x = k) (rev xs) of None \<Rightarrow> map_of m k | Some x \<Rightarrow> Some x)"
proof (induction xs arbitrary: m)
  case (Cons x xs)
  have "find P (ys @ [x]) = (case find P ys of None \<Rightarrow> if P x then Some x else None | Some y \<Rightarrow> Some y)"
    for P ys by (induction ys) auto
  then show ?case using Cons by (auto simp: update_conv' split: option.splits)
qed simp

lemma wf_fold_update: "wf_map m \<Longrightarrow> wf_map (fold (\<lambda>x m. AList.update (f x) x m) xs m)"
  by (induction xs arbitrary: m) auto

text \<open>
  A Go set, \<open>map[string]bool\<close> used through membership: its keys in visiting order.
\<close>

definition set_insert :: "string \<Rightarrow> string list \<Rightarrow> string list" where
  "set_insert k xs = (if k \<in> set xs then xs else xs @ [k])"

lemma distinct_set_insert [intro]: "distinct xs \<Longrightarrow> distinct (set_insert k xs)"
  by (simp add: set_insert_def)

lemma set_set_insert [simp]: "set (set_insert k xs) = insert k (set xs)"
  by (auto simp: set_insert_def)

definition set_of_names :: "string list \<Rightarrow> string list" where
  "set_of_names ns = fold set_insert ns []"

lemma set_of_names_fold:
  "set (fold set_insert ns xs) = set ns \<union> set xs"
  "distinct xs \<Longrightarrow> distinct (fold set_insert ns xs)"
  by (induction ns arbitrary: xs) auto

lemma set_set_of_names [simp]: "set (set_of_names ns) = set ns"
  by (simp add: set_of_names_def set_of_names_fold)

lemma distinct_set_of_names [simp]: "distinct (set_of_names ns)"
  by (simp add: set_of_names_def set_of_names_fold)

end
