(* ===== verification/GoStrings.thy ===== *)
theory GoStrings
  imports Prelude
begin

text \<open>
  The string operations the program takes from Go's standard library (strings, strconv,
  fmt), as functions on byte strings: Go strings are byte sequences and so is \<open>string\<close>.
\<close>

section \<open>Decimal numbers\<close>

definition digit_char :: "int \<Rightarrow> char" where
  "digit_char d = char_of (48 + d)"

definition digit_of :: "char \<Rightarrow> int option" where
  "digit_of c = (let n = of_char c :: int in if 48 \<le> n \<and> n \<le> 57 then Some (n - 48) else None)"

text \<open>The digits of a number that is not negative, most significant first.\<close>

function dec_digits :: "int \<Rightarrow> int list" where
  "dec_digits n = (if n \<ge> 10 then dec_digits (n div 10) @ [n mod 10] else [n])"
  by pat_completeness auto
termination
  by (relation "measure nat") auto

declare dec_digits.simps [simp del]

text \<open>\<open>%d\<close> of a signed integer.\<close>

definition itoa :: "int \<Rightarrow> string" where
  "itoa i = (if i < 0 then CHR ''-'' # map digit_char (dec_digits (- i))
             else map digit_char (dec_digits i))"

definition itoa64 :: "int64 \<Rightarrow> string" where
  "itoa64 p = itoa (sint p)"

text \<open>
  \<open>strconv.Atoi\<close> on a 64-bit platform: the value and the error. A syntax error gives 0, a
  value out of range gives the nearest limit of int64, and both come with an error; the digit
  loop stops at the first digit that leaves uint64 or at the first byte that is no digit.
\<close>

datatype num_error = ErrSyntax | ErrRange

fun parse_uint_loop :: "int \<Rightarrow> string \<Rightarrow> num_error + int" where
  "parse_uint_loop acc [] = Inr acc"
| "parse_uint_loop acc (c # cs) =
     (case digit_of c of
        None \<Rightarrow> Inl ErrSyntax
      | Some d \<Rightarrow> if acc * 10 + d > 18446744073709551615 then Inl ErrRange
                  else parse_uint_loop (acc * 10 + d) cs)"

definition parse_uint :: "string \<Rightarrow> num_error + int" where
  "parse_uint s = (if s = [] then Inl ErrSyntax else parse_uint_loop 0 s)"

definition int64_max :: int where
  "int64_max = 9223372036854775807"

definition int64_min :: int where
  "int64_min = - 9223372036854775808"

definition atoi :: "string \<Rightarrow> int \<times> num_error option" where
  "atoi s =
     (let neg = (case s of c # _ \<Rightarrow> c = CHR ''-'' | [] \<Rightarrow> False);
          body = (case s of c # cs \<Rightarrow> if c = CHR ''-'' \<or> c = CHR ''+'' then cs else s | [] \<Rightarrow> s)
      in case parse_uint body of
           Inl ErrSyntax \<Rightarrow> (0, Some ErrSyntax)
         | Inl ErrRange \<Rightarrow> (if neg then int64_min else int64_max, Some ErrRange)
         | Inr n \<Rightarrow>
             if \<not> neg \<and> n > int64_max then (int64_max, Some ErrRange)
             else if neg \<and> - n < int64_min then (int64_min, Some ErrRange)
             else (if neg then - n else n, None))"

text \<open>\<open>%s:%d\<close> of a host and a port.\<close>

definition host_port :: "string \<Rightarrow> int \<Rightarrow> string" where
  "host_port host p = host @ '':'' @ itoa p"

definition addr_text :: "string \<Rightarrow> int64 \<Rightarrow> string" where
  "addr_text host port = host_port host (sint port)"

lemma digit_of_digit_char [simp]: "0 \<le> d \<Longrightarrow> d < 10 \<Longrightarrow> digit_of (digit_char d) = Some d"
  by (simp add: digit_of_def digit_char_def)

lemma digit_char_0: "digit_char 0 = CHR ''0''"
  by code_simp

lemma dec_digits_less_10: "n < 10 \<Longrightarrow> dec_digits n = [n]"
  by (subst dec_digits.simps) simp

lemma dec_digits_step: "10 \<le> n \<Longrightarrow> dec_digits n = dec_digits (n div 10) @ [n mod 10]"
  by (subst dec_digits.simps) simp

lemma dec_digits_bounded: "0 \<le> n \<Longrightarrow> d \<in> set (dec_digits n) \<Longrightarrow> 0 \<le> d \<and> d < 10"
proof (induction n rule: dec_digits.induct)
  case (1 n)
  show ?case
  proof (cases "10 \<le> n")
    case True
    have "d \<in> set (dec_digits (n div 10)) \<or> d = n mod 10"
      using "1.prems" unfolding dec_digits_step [OF True] by auto
    moreover have "0 \<le> n div 10" using True by simp
    ultimately show ?thesis using "1.IH" [OF True] by auto
  next
    case False
    then show ?thesis using "1.prems" by (simp add: dec_digits_less_10)
  qed
qed

lemma dec_digits_nonempty [simp]: "dec_digits n \<noteq> []"
  by (subst dec_digits.simps) simp

lemma dec_digits_value: "foldl (\<lambda>a d. a * 10 + d) 0 (dec_digits n) = n"
proof (induction n rule: dec_digits.induct)
  case (1 n)
  show ?case
  proof (cases "10 \<le> n")
    case True
    then show ?thesis unfolding dec_digits_step [OF True] by (simp add: "1.IH" [OF True])
  next
    case False
    then show ?thesis by (simp add: dec_digits_less_10)
  qed
qed

text \<open>The digit loop reads back what was printed, as long as the value fits.\<close>

lemma foldl_digits_ge:
  "\<forall>d \<in> set ds. 0 \<le> d \<Longrightarrow> 0 \<le> a \<Longrightarrow> (a::int) \<le> foldl (\<lambda>a d. a * 10 + d) a ds"
proof (induction ds arbitrary: a)
  case (Cons d ds)
  have "a \<le> a * 10 + d" using Cons.prems by simp
  also have "\<dots> \<le> foldl (\<lambda>a d. a * 10 + d) (a * 10 + d) ds" using Cons by simp
  finally show ?case by simp
qed simp

lemma parse_uint_loop_digits:
  assumes "\<forall>d \<in> set ds. 0 \<le> d \<and> d < 10" and "0 \<le> a"
    and "foldl (\<lambda>a d. a * 10 + d) a ds \<le> 18446744073709551615"
  shows "parse_uint_loop a (map digit_char ds) = Inr (foldl (\<lambda>a d. a * 10 + d) a ds)"
  using assms
proof (induction ds arbitrary: a)
  case (Cons d ds)
  have "a * 10 + d \<le> foldl (\<lambda>a d. a * 10 + d) (a * 10 + d) ds"
    using Cons.prems by (intro foldl_digits_ge) auto
  with Cons show ?case by simp
qed simp

lemma parse_uint_digits:
  assumes "0 \<le> n" and "n \<le> 18446744073709551615"
  shows "parse_uint (map digit_char (dec_digits n)) = Inr n"
  unfolding parse_uint_def
  using assms parse_uint_loop_digits [of "dec_digits n" 0]
  by (auto simp: dec_digits_value dest: dec_digits_bounded)

lemma digit_char_neq_sign:
  "0 \<le> d \<Longrightarrow> d < 10 \<Longrightarrow> digit_char d \<noteq> CHR ''-'' \<and> digit_char d \<noteq> CHR ''+''"
  using digit_of_digit_char [of d] by (auto simp: digit_of_def)

lemma digits_Cons:
  assumes "0 \<le> n"
  obtains d ds where "dec_digits n = d # ds" and "0 \<le> d" "d < 10"
proof -
  obtain d ds where dd: "dec_digits n = d # ds" by (cases "dec_digits n") auto
  with assms dec_digits_bounded [of n d] that show thesis by auto
qed

lemma atoi_itoa:
  assumes "int64_min \<le> i" and "i \<le> int64_max"
  shows "atoi (itoa i) = (i, None)"
proof (cases "i < 0")
  case False
  obtain d ds where s: "dec_digits i = d # ds" "0 \<le> d" "d < 10"
    using False digits_Cons [of i] by (metis not_less)
  have "parse_uint (map digit_char (dec_digits i)) = Inr i"
    using assms False by (intro parse_uint_digits) (simp_all add: int64_max_def)
  with s assms False digit_char_neq_sign [of d] show ?thesis
    by (simp add: atoi_def itoa_def Let_def)
next
  case True
  have "parse_uint (map digit_char (dec_digits (- i))) = Inr (- i)"
    using assms True by (intro parse_uint_digits) (simp_all add: int64_min_def)
  with True assms show ?thesis by (simp add: atoi_def itoa_def Let_def)
qed

lemma sint_int64: "int64_min \<le> sint (p::int64)" "sint (p::int64) \<le> int64_max"
  using sint_greater_eq [of p] sint_less [of p] by (simp_all add: int64_min_def int64_max_def)

lemma atoi_itoa64 [simp]: "atoi (itoa64 p) = (sint p, None)"
  by (simp add: itoa64_def atoi_itoa sint_int64)

lemma parse_uint_loop_nonneg: "0 \<le> a \<Longrightarrow> parse_uint_loop a s = Inr n \<Longrightarrow> 0 \<le> n"
  by (induction a s rule: parse_uint_loop.induct)
    (auto simp: digit_of_def Let_def split: if_splits option.splits)

lemma atoi_range: "int64_min \<le> fst (atoi s) \<and> fst (atoi s) \<le> int64_max"
  using parse_uint_loop_nonneg [of 0]
  by (fastforce simp: atoi_def Let_def parse_uint_def int64_min_def int64_max_def
      split: sum.splits num_error.splits if_splits)

lemma itoa64_inj: "itoa64 p = itoa64 q \<Longrightarrow> p = q"
  using atoi_itoa64 [of p] atoi_itoa64 [of q] by (metis prod.inject signed_word_eqI)

text \<open>A printed number has no colon, no comma and no other byte than a sign and digits.\<close>

lemma digit_char_digit: "0 \<le> d \<Longrightarrow> d < 10 \<Longrightarrow> of_char (digit_char d) = (48 + d :: int)"
  by (simp add: digit_char_def)

lemma itoa_bytes:
  assumes "c \<in> set (itoa i)"
  shows "c = CHR ''-'' \<or> (48 \<le> (of_char c :: int) \<and> of_char c \<le> (57::int))"
proof -
  have "48 \<le> (of_char c :: int) \<and> of_char c \<le> (57::int)"
    if "c \<in> digit_char ` set (dec_digits n)" "0 \<le> n" for n
    using that by (auto simp: digit_char_digit dest: dec_digits_bounded)
  from this [of i] this [of "- i"] assms show ?thesis
    by (auto simp: itoa_def split: if_splits)
qed

section \<open>Searching, replacing, splitting\<close>

text \<open>\<open>strings.HasPrefix\<close>, \<open>strings.TrimPrefix\<close> and \<open>strings.Contains\<close>.\<close>

definition has_prefix :: "string \<Rightarrow> string \<Rightarrow> bool" where
  "has_prefix s p = prefix p s"

definition trim_prefix :: "string \<Rightarrow> string \<Rightarrow> string" where
  "trim_prefix s p = (if prefix p s then drop (length p) s else s)"

fun contains :: "string \<Rightarrow> string \<Rightarrow> bool" where
  "contains [] sub = (sub = [])"
| "contains (c # s) sub = (prefix sub (c # s) \<or> contains s sub)"

text \<open>
  \<open>strings.Replace(s, old, new, -1)\<close> for a non-empty \<open>old\<close>, which is what every call of the
  program passes: the leftmost occurrence is replaced and the search goes on behind it.
\<close>

fun replace_all :: "string \<Rightarrow> string \<Rightarrow> string \<Rightarrow> string" where
  "replace_all [] old new = []"
| "replace_all (c # s) old new =
     (if old \<noteq> [] \<and> prefix old (c # s) then new @ replace_all (drop (length old - 1) s) old new
      else c # replace_all s old new)"

text \<open>\<open>strings.Split\<close> with a separator of one byte, and \<open>strings.Join\<close>.\<close>

fun split_on :: "char \<Rightarrow> string \<Rightarrow> string list" where
  "split_on sep [] = [[]]"
| "split_on sep (c # s) =
     (if c = sep then [] # split_on sep s
      else case split_on sep s of w # ws \<Rightarrow> (c # w) # ws | [] \<Rightarrow> [[c]])"

fun join :: "string \<Rightarrow> string list \<Rightarrow> string" where
  "join sep [] = []"
| "join sep [w] = w"
| "join sep (w # v # ws) = w @ sep @ join sep (v # ws)"

lemma contains_iff: "contains s sub \<longleftrightarrow> (\<exists>u v. s = u @ sub @ v)"
proof (induction s)
  case (Cons c s)
  have "(\<exists>u v. c # s = u @ sub @ v) \<longleftrightarrow> prefix sub (c # s) \<or> (\<exists>u v. s = u @ sub @ v)"
    (is "?L \<longleftrightarrow> ?R")
  proof
    assume ?L
    then obtain u v where e: "c # s = u @ sub @ v" by blast
    then show ?R by (cases u) (auto simp: prefix_def)
  next
    assume ?R
    then show ?L by (metis append_Cons append_Nil prefix_def)
  qed
  with Cons show ?case by simp
qed auto

lemma replace_all_absent: "old \<noteq> [] \<Longrightarrow> \<not> contains s old \<Longrightarrow> replace_all s old new = s"
  by (induction s old new rule: replace_all.induct) auto

lemma replace_all_first:
  assumes "old \<noteq> []" and "\<forall>i < length u. \<not> prefix old (drop i (u @ old @ v))"
  shows "replace_all (u @ old @ v) old new = u @ new @ replace_all v old new"
  using assms
proof (induction u)
  case Nil
  then obtain c cs where "old = c # cs" by (cases old) auto
  then show ?case by simp
next
  case (Cons c u)
  have "\<not> prefix old (c # u @ old @ v)" using Cons.prems(2) by force
  moreover have "\<forall>i < length u. \<not> prefix old (drop i (u @ old @ v))"
    using Cons.prems(2) by (metis Suc_less_eq append_Cons drop_Suc_Cons length_Cons)
  ultimately show ?case using Cons by simp
qed

text \<open>An occurrence that is the only one is the only thing replaced.\<close>

lemma replace_all_unique:
  assumes "old \<noteq> []" and "\<forall>i. i \<noteq> length u \<longrightarrow> \<not> prefix old (drop i (u @ old @ v))"
  shows "replace_all (u @ old @ v) old new = u @ new @ v"
proof -
  have "\<not> contains v old"
  proof
    assume "contains v old"
    then obtain a b where "v = a @ old @ b" by (auto simp: contains_iff)
    then have "prefix old (drop (length u + length old + length a) (u @ old @ v))" by simp
    moreover have "length u + length old + length a \<noteq> length u" using assms(1) by simp
    ultimately show False using assms(2) by blast
  qed
  with assms(1) have "replace_all v old new = v" by (rule replace_all_absent)
  moreover have "replace_all (u @ old @ v) old new = u @ new @ replace_all v old new"
    using assms by (intro replace_all_first) (blast, metis less_not_refl)
  ultimately show ?thesis by simp
qed

lemma split_on_nonempty [simp]: "split_on sep s \<noteq> []"
  by (induction s) (auto split: list.splits)

lemma hd_split_on: "hd (split_on sep s) = takeWhile (\<lambda>c. c \<noteq> sep) s"
proof (induction s)
  case (Cons c s)
  then show ?case by (cases "split_on sep s") auto
qed simp

lemma join_split_on: "join [sep] (split_on sep s) = s"
proof (induction s)
  case (Cons c s)
  then show ?case
    by (cases "split_on sep s" rule: remdups_adj.cases) auto
qed simp

section \<open>Letter case\<close>

definition lower_char :: "char \<Rightarrow> char" where
  "lower_char c = (let n = of_char c :: int in if 65 \<le> n \<and> n \<le> 90 then char_of (n + 32) else c)"

text \<open>
  \<open>strings.ToLower\<close>, used only to look for the text \<open>ssl=true\<close>. The upper-case letters outside
  ASCII lower to runes outside ASCII, but for the Kelvin sign (to k) and the dotted capital I
  (to i), and neither k nor i occurs in the text searched for, so ASCII letters are enough.
\<close>

definition to_lower :: "string \<Rightarrow> string" where
  "to_lower s = map lower_char s"

text \<open>
  \<open>strings.EqualFold(s, t)\<close> for an ASCII \<open>t\<close> (every second argument in the program is an ASCII
  literal). Simple folding relates the ASCII letters to each other, and two runes outside ASCII
  to ASCII letters: the long s (bytes C5 BF) to s and the Kelvin sign (bytes E2 84 AA) to k.
  \<open>fold_norm\<close> rewrites these and lowers the rest; no other rune equals an ASCII one.
\<close>

function fold_norm :: "string \<Rightarrow> string" where
  "fold_norm [] = []"
| "fold_norm (c # s) =
     (if c = CHR 0xC5 \<and> take 1 s = [CHR 0xBF] then CHR ''s'' # fold_norm (drop 1 s)
      else if c = CHR 0xE2 \<and> take 2 s = [CHR 0x84, CHR 0xAA] then CHR ''k'' # fold_norm (drop 2 s)
      else lower_char c # fold_norm s)"
  by pat_completeness auto
termination
  by (relation "measure length") auto

definition equal_fold :: "string \<Rightarrow> string \<Rightarrow> bool" where
  "equal_fold s t = (fold_norm s = map lower_char t)"

lemma equal_fold_cong:
  "map lower_char t = map lower_char t' \<Longrightarrow> equal_fold s t = equal_fold s t'"
  by (simp add: equal_fold_def)

lemma equal_fold_lower: "fold_norm s = fold_norm s' \<Longrightarrow> equal_fold s t = equal_fold s' t"
  by (simp add: equal_fold_def)

lemma equal_fold_same_norm: "equal_fold s t \<Longrightarrow> equal_fold s' t \<Longrightarrow> fold_norm s = fold_norm s'"
  by (simp add: equal_fold_def)

section \<open>Lines of text\<close>

text \<open>\<open>fmt.Sprintln\<close> of string arguments: separated by spaces, closed by a newline.\<close>

definition sprintln :: "string list \<Rightarrow> string" where
  "sprintln args = join '' '' args @ [CHR 0x0A]"

abbreviation nl :: string where
  "nl \<equiv> [CHR 0x0A]"

end
