(* ===== verification/Status.thy ===== *)
theory Status
  imports GoStrings
begin

text \<open>
  The status line (util/status.go) over the vendored spinner, and \<open>logging.Debug\<close>
  (logging/logging.go). The animation frames are left out; what stays is the text printed when a
  task is finished and the debug lines.
\<close>

record status =
  spinSuffix :: string
  finalMsg :: string
  spinning :: bool
  nonInteractive :: bool
  verbose :: bool
  okText :: string
  printed :: "string list"

text \<open>
  \<open>okText\<close> is \<open>color.GreenString("OK")\<close>, with or without the terminal's colour codes;
  \<open>verbose\<close> is the flag \<open>logging.Verbose\<close>; \<open>printed\<close> collects what goes to standard error.
\<close>

definition NewStatus :: "bool \<Rightarrow> bool \<Rightarrow> string \<Rightarrow> status" where
  "NewStatus nonInt verb ok =
     \<lparr>spinSuffix = [], finalMsg = [], spinning = False, nonInteractive = nonInt, verbose = verb,
      okText = ok, printed = []\<rparr>"

definition spin_start :: "status \<Rightarrow> status" where
  "spin_start s = s\<lparr>spinning := True\<rparr>"

definition spin_stop :: "status \<Rightarrow> status" where
  "spin_stop s =
     (if spinning s
      then s\<lparr>spinning := False,
             printed := (if finalMsg s \<noteq> [] then printed s @ [finalMsg s] else printed s)\<rparr>
      else s)"

definition Done :: "status \<Rightarrow> status" where
  "Done s =
     (let s1 = (if spinSuffix s \<noteq> [] then s\<lparr>finalMsg := okText s @ spinSuffix s @ nl\<rparr> else s);
          s2 = spin_stop s1
      in s2\<lparr>spinSuffix := []\<rparr>)"

definition Debug :: "string list \<Rightarrow> status \<Rightarrow> status" where
  "Debug args s = (if verbose s then s\<lparr>printed := printed s @ [sprintln args]\<rparr> else s)"

definition Text :: "string list \<Rightarrow> status \<Rightarrow> status" where
  "Text args s =
     (let s1 = (if spinSuffix s \<noteq> [] then Done s else s);
          msg = butlast (sprintln args)
      in if verbose s1 \<or> nonInteractive s1 then Debug [msg] s1
         else spin_start (s1\<lparr>spinSuffix := '' '' @ msg\<rparr>))"

section \<open>Invariant and behaviour\<close>

text \<open>The spinner turns exactly while a task is announced.\<close>

definition status_inv :: "status \<Rightarrow> bool" where
  "status_inv s = (spinning s \<longleftrightarrow> spinSuffix s \<noteq> [])"

lemma status_inv_New [simp]: "status_inv (NewStatus n v ok)"
  by (simp add: status_inv_def NewStatus_def)

lemma status_inv_Done [simp]: "status_inv s \<Longrightarrow> status_inv (Done s)"
  by (auto simp: status_inv_def Done_def spin_stop_def Let_def)

lemma status_inv_Text [simp]: "status_inv s \<Longrightarrow> status_inv (Text args s)"
  by (auto simp: status_inv_def Text_def Done_def Debug_def spin_stop_def spin_start_def Let_def)

lemma butlast_sprintln [simp]: "butlast (sprintln args) = join '' '' args"
  by (simp add: sprintln_def butlast_append)

lemma Text_interactive:
  assumes "\<not> verbose s" "\<not> nonInteractive s" "status_inv s"
  shows "Text args s =
    (if spinSuffix s = [] then s\<lparr>spinSuffix := '' '' @ join '' '' args, spinning := True\<rparr>
     else s\<lparr>spinSuffix := '' '' @ join '' '' args, spinning := True,
            finalMsg := okText s @ spinSuffix s @ nl, printed := printed s @ [okText s @ spinSuffix s @ nl]\<rparr>)"
  using assms by (simp add: Text_def Done_def spin_stop_def spin_start_def status_inv_def Let_def)

text \<open>
  On an interactive terminal every announced task is acknowledged once, in order,
  on a line of its own, however many tasks are announced before the final \<open>Done\<close>; a second
  \<open>Done\<close> prints nothing.
\<close>

theorem status_lines:
  "printed (Done (Done (fold Text msgs (NewStatus False False ok))))
     = map (\<lambda>args. ok @ '' '' @ join '' '' args @ nl) msgs"
proof -
  have gen: "printed (Done (fold Text msgs s))
      = printed s @ (if spinSuffix s = [] then [] else [okText s @ spinSuffix s @ nl])
          @ map (\<lambda>args. okText s @ '' '' @ join '' '' args @ nl) msgs"
    if "\<not> verbose s" "\<not> nonInteractive s" "status_inv s" for s
    using that
  proof (induction msgs arbitrary: s)
    case Nil
    then show ?case by (auto simp: Done_def spin_stop_def status_inv_def Let_def)
  next
    case (Cons args msgs)
    then have "status_inv (Text args s)" by simp
    then show ?case using Cons by (simp add: Text_interactive)
  qed
  have "printed (Done (Done s)) = printed (Done s)" for s
    by (simp add: Done_def spin_stop_def Let_def)
  then show ?thesis
    using gen [of "NewStatus False False ok"] by (simp add: NewStatus_def status_inv_def)
qed

end
