(* ===== verification/TlsOptions.thy ===== *)
theory TlsOptions
  imports GoStrings
begin

text \<open>
  The TLS options (util/tls.go): names of cipher suites and protocol versions to their numbers,
  and the pool of root certificates read from PEM data.
\<close>

section \<open>Cipher suites\<close>

text \<open>\<open>tls.CipherSuites()\<close> and \<open>tls.InsecureCipherSuites()\<close>: names and numbers.\<close>

definition go_CipherSuites :: "(string \<times> uint16) list" where
  "go_CipherSuites =
    [(''TLS_AES_128_GCM_SHA256'', 0x1301), (''TLS_AES_256_GCM_SHA384'', 0x1302),
     (''TLS_CHACHA20_POLY1305_SHA256'', 0x1303),
     (''TLS_ECDHE_ECDSA_WITH_AES_128_CBC_SHA'', 0xC009),
     (''TLS_ECDHE_ECDSA_WITH_AES_256_CBC_SHA'', 0xC00A),
     (''TLS_ECDHE_RSA_WITH_AES_128_CBC_SHA'', 0xC013),
     (''TLS_ECDHE_RSA_WITH_AES_256_CBC_SHA'', 0xC014),
     (''TLS_ECDHE_ECDSA_WITH_AES_128_GCM_SHA256'', 0xC02B),
     (''TLS_ECDHE_ECDSA_WITH_AES_256_GCM_SHA384'', 0xC02C),
     (''TLS_ECDHE_RSA_WITH_AES_128_GCM_SHA256'', 0xC02F),
     (''TLS_ECDHE_RSA_WITH_AES_256_GCM_SHA384'', 0xC030),
     (''TLS_ECDHE_RSA_WITH_CHACHA20_POLY1305_SHA256'', 0xCCA8),
     (''TLS_ECDHE_ECDSA_WITH_CHACHA20_POLY1305_SHA256'', 0xCCA9)]"

definition go_InsecureCipherSuites :: "(string \<times> uint16) list" where
  "go_InsecureCipherSuites =
    [(''TLS_RSA_WITH_RC4_128_SHA'', 0x0005), (''TLS_RSA_WITH_3DES_EDE_CBC_SHA'', 0x000A),
     (''TLS_RSA_WITH_AES_128_CBC_SHA'', 0x002F), (''TLS_RSA_WITH_AES_256_CBC_SHA'', 0x0035),
     (''TLS_RSA_WITH_AES_128_CBC_SHA256'', 0x003C), (''TLS_RSA_WITH_AES_128_GCM_SHA256'', 0x009C),
     (''TLS_RSA_WITH_AES_256_GCM_SHA384'', 0x009D), (''TLS_ECDHE_ECDSA_WITH_RC4_128_SHA'', 0xC007),
     (''TLS_ECDHE_RSA_WITH_RC4_128_SHA'', 0xC011),
     (''TLS_ECDHE_RSA_WITH_3DES_EDE_CBC_SHA'', 0xC012),
     (''TLS_ECDHE_ECDSA_WITH_AES_128_CBC_SHA256'', 0xC023),
     (''TLS_ECDHE_RSA_WITH_AES_128_CBC_SHA256'', 0xC027)]"

definition default_suites :: "string list" where
  "default_suites =
    [''TLS_RSA_WITH_AES_256_CBC_SHA'', ''TLS_RSA_WITH_AES_256_GCM_SHA384'',
     ''TLS_ECDHE_ECDSA_WITH_AES_256_GCM_SHA384'', ''TLS_ECDHE_RSA_WITH_AES_256_GCM_SHA384'']"

definition cipherSuiteMap :: "(string \<times> uint16) list \<Rightarrow> (string \<times> uint16) list \<Rightarrow> uint16 gomap" where
  "cipherSuiteMap secure insecure =
     fold (\<lambda>(n, i) m. AList.update n i m) insecure (fold (\<lambda>(n, i) m. AList.update n i m) secure [])"

text \<open>The loop over the wanted names: it stops at the first name that is not in the map.\<close>

fun suite_ids :: "uint16 gomap \<Rightarrow> string list \<Rightarrow> uint16 list \<Rightarrow> gerror + uint16 list" where
  "suite_ids m [] acc = Inr acc"
| "suite_ids m (n # ns) acc =
     (case map_of m n of
        None \<Rightarrow> Inl (ErrorString (''invalid cipher suite: '' @ n @ '', valid names include ''
                   @ join '','' (keys m)))
      | Some cs \<Rightarrow> suite_ids m ns (acc @ [cs]))"

definition CipherSuiteNamesToIDs ::
  "(string \<times> uint16) list \<Rightarrow> (string \<times> uint16) list \<Rightarrow> string list \<Rightarrow> gerror + uint16 list" where
  "CipherSuiteNamesToIDs secure insecure cipherSuites =
     (let names = (if cipherSuites = [] then default_suites else cipherSuites)
      in suite_ids (cipherSuiteMap secure insecure) names [])"

section \<open>Protocol versions\<close>

definition tls_versions :: "uint16 gomap" where
  "tls_versions = [(''SSL30'', 0x0300), (''TLS10'', 0x0301), (''TLS11'', 0x0302),
                   (''TLS12'', 0x0303), (''TLS13'', 0x0304)]"

definition TLSVersionToID :: "string \<Rightarrow> gerror + uint16" where
  "TLSVersionToID version =
     (case map_of tls_versions version of
        None \<Rightarrow> Inl (ErrorString (''invalid minimum TLS version: '' @ version
                   @ '', valid names include '' @ join '','' (keys tls_versions)))
      | Some i \<Rightarrow> Inr i)"

section \<open>Root certificates\<close>

text \<open>
  \<open>pem.Decode\<close> and \<open>x509.ParseCertificate\<close> are parameters: \<open>decode\<close> returns the next block
  and the bytes behind it, or None; \<open>parse\<close> returns a certificate or an error. What the loop
  relies on is that a decoded block leaves fewer bytes (\<open>pem.Decode\<close> returns the rest behind the
  block's end line); the check on the length below is true whenever that holds.
\<close>

record pem_block =
  blk_type :: string
  blk_headers :: "string gomap"
  blk_bytes :: string

text \<open>\<open>CertPool.AddCert\<close> keeps one copy of a certificate.\<close>

definition AddCert :: "'c list \<Rightarrow> 'c \<Rightarrow> 'c list" where
  "AddCert pool cert = (if cert \<in> set pool then pool else pool @ [cert])"

function load_certs ::
  "(string \<Rightarrow> (pem_block \<times> string) option) \<Rightarrow> (string \<Rightarrow> gerror + 'c) \<Rightarrow> string
     \<Rightarrow> 'c list \<Rightarrow> 'c list option" where
  "load_certs decode parse pemData pool =
     (if pemData = [] then Some pool
      else case decode pemData of
             None \<Rightarrow> Some pool
           | Some (block, rest) \<Rightarrow>
               if \<not> length rest < length pemData then None
               else if blk_type block \<noteq> ''CERTIFICATE'' \<or> blk_headers block \<noteq> []
                 then load_certs decode parse rest pool
               else case parse (blk_bytes block) of
                      Inl _ \<Rightarrow> load_certs decode parse rest pool
                    | Inr cert \<Rightarrow> load_certs decode parse rest (AddCert pool cert))"
  by pat_completeness auto
termination
  by (relation "measure (\<lambda>(decode, parse, pemData, pool). length pemData)") auto

declare load_certs.simps [simp del]

text \<open>
  \<open>GetRootCAs\<close>: the data given, or the file \<open>/etc/ssl/cert.pem\<close> (\<open>readFile\<close>) when there is
  none. None is a loop that does not end, which the law on \<open>decode\<close> excludes.
\<close>

definition GetRootCAs ::
  "(string \<Rightarrow> (pem_block \<times> string) option) \<Rightarrow> (string \<Rightarrow> gerror + 'c) \<Rightarrow> (string \<Rightarrow> gerror + string)
     \<Rightarrow> string option \<Rightarrow> (gerror + 'c list) option" where
  "GetRootCAs decode parse readFile pemDataIn =
     (case (case pemDataIn of None \<Rightarrow> readFile ''/etc/ssl/cert.pem'' | Some d \<Rightarrow> Inr d) of
        Inl err \<Rightarrow> Some (Inl err)
      | Inr pemData \<Rightarrow> map_option Inr (load_certs decode parse pemData []))"

section \<open>Properties\<close>

text \<open>
  The names are translated one by one in their order when all of them are known
  to Go, and otherwise the first unknown one is reported and nothing is returned; no names
  at all stand for the default list.
\<close>

theorem CipherSuiteNamesToIDs_spec:
  "CipherSuiteNamesToIDs secure insecure cipherSuites =
     (let m = cipherSuiteMap secure insecure;
          names = (if cipherSuites = [] then default_suites else cipherSuites)
      in case find (\<lambda>n. map_of m n = None) names of
           None \<Rightarrow> Inr (map (\<lambda>n. the (map_of m n)) names)
         | Some n \<Rightarrow> Inl (ErrorString (''invalid cipher suite: '' @ n @ '', valid names include ''
                        @ join '','' (keys m))))"
proof -
  have "suite_ids m names acc =
      (case find (\<lambda>n. map_of m n = None) names of
           None \<Rightarrow> Inr (acc @ map (\<lambda>n. the (map_of m n)) names)
         | Some n \<Rightarrow> Inl (ErrorString (''invalid cipher suite: '' @ n @ '', valid names include ''
                        @ join '','' (keys m))))" for m names acc
    by (induction names arbitrary: acc) (simp_all split: option.splits)
  then show ?thesis by (simp only: CipherSuiteNamesToIDs_def Let_def append_Nil)
qed

text \<open>
  With Go's own tables, no names give the four suites of the default list by
  their IANA numbers.
\<close>

theorem default_suites_ids:
  "CipherSuiteNamesToIDs go_CipherSuites go_InsecureCipherSuites []
     = Inr [0x0035, 0x009D, 0xC02C, 0xC030]"
  by code_simp

text \<open>The blocks \<open>pem.Decode\<close> finds in the data, one behind the other.\<close>

function pem_blocks :: "(string \<Rightarrow> (pem_block \<times> string) option) \<Rightarrow> string \<Rightarrow> pem_block list" where
  "pem_blocks decode d =
     (if d = [] then []
      else case decode d of
             None \<Rightarrow> []
           | Some (block, rest) \<Rightarrow>
               block # (if length rest < length d then pem_blocks decode rest else []))"
  by pat_completeness auto
termination
  by (relation "measure (\<lambda>(decode, d). length d)") auto

declare pem_blocks.simps [simp del]

definition block_certs :: "(string \<Rightarrow> gerror + 'c) \<Rightarrow> pem_block \<Rightarrow> 'c list" where
  "block_certs parse b =
     (if blk_type b = ''CERTIFICATE'' \<and> blk_headers b = []
      then case parse (blk_bytes b) of Inl _ \<Rightarrow> [] | Inr c \<Rightarrow> [c] else [])"

text \<open>
  Property C39: \<open>GetRootCAs\<close> always returns, and its pool holds the certificates of exactly the
  well-formed \<open>CERTIFICATE\<close> blocks without headers, in their order and each once; every other
  block is skipped and does not end the search.
\<close>

theorem GetRootCAs_pool:
  assumes "\<And>d b rest. decode d = Some (b, rest) \<Longrightarrow> length rest < length d"
  shows "GetRootCAs decode parse readFile (Some d)
     = Some (Inr (fold (\<lambda>c pool. AddCert pool c)
                       (concat (map (block_certs parse) (pem_blocks decode d))) []))"
proof -
  have "load_certs decode parse d pool
      = Some (fold (\<lambda>c pool. AddCert pool c)
                   (concat (map (block_certs parse) (pem_blocks decode d))) pool)" for pool
  proof (induction "length d" arbitrary: d pool rule: less_induct)
    case less
    show ?case
    proof (cases "d = [] \<or> decode d = None")
      case True
      then show ?thesis
        by (auto simp: load_certs.simps [of _ _ d] pem_blocks.simps [of _ d])
    next
      case False
      then obtain b rest where dec: "decode d = Some (b, rest)" "d \<noteq> []" by auto
      with assms have lt: "length rest < length d" by blast
      have "pem_blocks decode d = b # pem_blocks decode rest"
        using dec lt by (simp add: pem_blocks.simps [of _ d])
      with dec lt less [OF lt] show ?thesis
        by (auto simp: load_certs.simps [of _ _ d] block_certs_def split: sum.splits)
    qed
  qed
  then show ?thesis by (simp add: GetRootCAs_def)
qed

text \<open>A decoder for the witness: one block of a single byte per byte of data.\<close>

theorem GetRootCAs_pool_witness:
  "GetRootCAs (\<lambda>d. case d of [] \<Rightarrow> None
       | c # r \<Rightarrow> Some (\<lparr>blk_type = ''CERTIFICATE'', blk_headers = [], blk_bytes = [c]\<rparr>, r))
     (\<lambda>b. if b = ''x'' then Inl (ErrorString ''bad'') else Inr b) (\<lambda>_. Inr []) (Some ''axba'')
   = Some (Inr [''a'', ''b''])"
proof -
  let ?decode = "\<lambda>d. case d of [] \<Rightarrow> None
       | c # r \<Rightarrow> Some (\<lparr>blk_type = ''CERTIFICATE'', blk_headers = [], blk_bytes = [c]\<rparr>, r)"
  let ?parse = "\<lambda>b. if b = ''x'' then Inl (ErrorString ''bad'') else Inr b"
  have "GetRootCAs ?decode ?parse (\<lambda>_. Inr []) (Some ''axba'')
      = Some (Inr (fold (\<lambda>c pool. AddCert pool c)
                       (concat (map (block_certs ?parse) (pem_blocks ?decode ''axba''))) []))"
    by (rule GetRootCAs_pool) (auto split: list.splits)
  also have "\<dots> = Some (Inr [''a'', ''b''])"
    by (simp add: pem_blocks.simps block_certs_def AddCert_def)
  finally show ?thesis .
qed

end
