(* ===== verification/Loops.thy ===== *)
theory Loops
  imports GoStrings
begin

text \<open>
  The program's bounded retry loops: \<open>util.Retry\<close> (util/retry.go) and
  \<open>util.WaitForConnection\<close> (util/tcp.go), and the interface they share with the polling loop of
  the client: numbered attempts of which the last one always decides.
\<close>

section \<open>Error texts\<close>

text \<open>
  \<open>Error()\<close> of the errors of the program. A multierror (vendored, multierror.go) is a tree:
  \<open>Add\<close> keeps a multierror as a node and turns any other error into a leaf with its text. The
  tree the program builds has no message of its own.
\<close>

fun me_length :: "gerror \<Rightarrow> int" where
  "me_length (MultiError es) = sum_list (map me_length es)"
| "me_length e = 1"

definition me_leaf :: "string \<Rightarrow> string \<Rightarrow> string" where
  "me_leaf ws msg = ws @ replace_all msg nl (nl @ ws @ ''  '') @ nl"

fun me_format :: "string \<Rightarrow> gerror \<Rightarrow> string" where
  "me_format ws (ErrorString t) = me_leaf ws (''* '' @ t)"
| "me_format ws (AppExecution n) = me_leaf ws (''* Exit with code '' @ itoa n)"
| "me_format ws (MultiError es) =
     me_leaf ws (''there '' @ (if me_length (MultiError es) = 1 then ''was 1 error''
                  else ''were '' @ itoa (me_length (MultiError es)) @ '' errors'') @ '':'')
     @ concat (map (me_format (ws @ ''    '')) es)"

definition error_text :: "gerror \<Rightarrow> string" where
  "error_text e =
     (case e of
        ErrorString t \<Rightarrow> t
      | AppExecution n \<Rightarrow> ''Exit with code '' @ itoa n
      | MultiError es \<Rightarrow> if me_length e = 0 then ''there were 0 errors'' else me_format [] e)"

section \<open>Loops of attempts\<close>

text \<open>\<open>undecided f n k s\<close>: the state after \<open>k\<close> attempts from number \<open>n\<close>, if none of them decides.\<close>

fun undecided :: "(nat \<Rightarrow> 's \<Rightarrow> 'r option \<times> 's) \<Rightarrow> nat \<Rightarrow> nat \<Rightarrow> 's \<Rightarrow> 's option" where
  "undecided f n 0 s = Some s"
| "undecided f n (Suc k) s =
     (case f n s of (None, s') \<Rightarrow> undecided f (Suc n) k s' | (Some _, _) \<Rightarrow> None)"

locale bounded_attempts =
  fixes attempt :: "nat \<Rightarrow> 's \<Rightarrow> 'r option \<times> 's"
    and loop :: "nat \<Rightarrow> 's \<Rightarrow> 'r \<times> 's"
    and final :: nat
  assumes loop_step: "loop n s = (case attempt n s of
      (Some r, s') \<Rightarrow> (r, s') | (None, s') \<Rightarrow> loop (Suc n) s')"
    and final_decides: "final \<le> n \<Longrightarrow> fst (attempt n s) \<noteq> None"
begin

text \<open>The loop returns what the first deciding attempt returns, and that is not after \<open>final\<close>.\<close>

lemma first_decision:
  assumes "n \<le> final"
  shows "\<exists>k s' r s''. n + k \<le> final \<and> undecided attempt n k s = Some s'
    \<and> attempt (n + k) s' = (Some r, s'') \<and> loop n s = (r, s'')"
  using assms
proof (induction "final - n" arbitrary: n s)
  case 0
  then have "final \<le> n" by simp
  from final_decides [OF this, of s] obtain r s'' where "attempt n s = (Some r, s'')"
    by (cases "attempt n s") auto
  then show ?case using 0 loop_step [of n s] by (intro exI [of _ 0]) simp
next
  case (Suc d)
  show ?case
  proof (cases "attempt n s")
    case (Pair o1 s1)
    show ?thesis
    proof (cases o1)
      case (Some r)
      then show ?thesis using Pair Suc.prems loop_step [of n s] by (intro exI [of _ 0]) simp
    next
      case None
      have "d = final - Suc n" "Suc n \<le> final" using Suc.hyps(2) by simp_all
      from Suc.hyps(1) [OF this] obtain k s' r s'' where "Suc n + k \<le> final"
        "undecided attempt (Suc n) k s1 = Some s'" "attempt (Suc n + k) s' = (Some r, s'')"
        "loop (Suc n) s1 = (r, s'')" by blast
      with None Pair loop_step [of n s] show ?thesis by (intro exI [of _ "Suc k"]) simp
    qed
  qed
qed

lemma decided_by:
  assumes "undecided attempt n k s = Some s'" and "attempt (n + k) s' = (Some r, s'')"
  shows "loop n s = (r, s'')"
  using assms
proof (induction k arbitrary: n s)
  case (Suc k)
  then obtain s1 where "attempt n s = (None, s1)" "undecided attempt (Suc n) k s1 = Some s'"
    by (auto split: prod.splits option.splits)
  moreover from this Suc have "loop (Suc n) s1 = (r, s'')" by simp
  ultimately show ?case using loop_step [of n s] by simp
qed (simp add: loop_step)

text \<open>A quantity that every attempt moves by a bounded amount is bounded over the whole loop.\<close>

lemma total_bound:
  assumes "n \<le> final" and "\<And>i s. i \<le> final \<Longrightarrow> (m (snd (attempt i s)) :: int) \<le> m s + d i"
    and "\<And>i. 0 \<le> d i"
  shows "m (snd (loop n s)) \<le> m s + (\<Sum>i = n..final. d i)"
  using assms(1)
proof (induction "final - n" arbitrary: n s)
  case 0
  then have "n = final" by simp
  from final_decides [of n s] this obtain r s'' where "attempt n s = (Some r, s'')"
    by (cases "attempt n s") auto
  with loop_step [of n s] assms(2) [of n s] \<open>n = final\<close> show ?case by simp
next
  case (Suc k)
  then have le: "Suc n \<le> final" and sum: "(\<Sum>i = n..final. d i) = d n + (\<Sum>i = Suc n..final. d i)"
    by (simp_all add: sum.atLeast_Suc_atMost)
  have nonneg: "0 \<le> (\<Sum>i = Suc n..final. d i)" using assms(3) by (simp add: sum_nonneg)
  obtain o1 s1 where a: "attempt n s = (o1, s1)" by (cases "attempt n s")
  have m1: "m s1 \<le> m s + d n" using assms(2) [of n s] le a by simp
  show ?case
  proof (cases o1)
    case (Some r)
    with a m1 nonneg loop_step [of n s] sum show ?thesis by simp
  next
    case None
    have "m (snd (loop (Suc n) s1)) \<le> m s1 + (\<Sum>i = Suc n..final. d i)"
      using Suc.hyps(2) le by (intro Suc.hyps(1)) simp_all
    with None a m1 sum loop_step [of n s] show ?thesis by simp
  qed
qed

end

section \<open>Retry\<close>

text \<open>
  \<open>fn\<close> is the function retried and \<open>sleep\<close> is \<open>time.Sleep\<close> in milliseconds, both over the
  caller's state.
\<close>

function retry_loop ::
  "('s \<Rightarrow> gerror option \<times> 's) \<Rightarrow> (int \<Rightarrow> 's \<Rightarrow> 's) \<Rightarrow> nat \<Rightarrow> 's \<Rightarrow> gerror option \<times> 's" where
  "retry_loop fn sleep try s =
     (let try' = Suc try
      in case fn s of
           (None, s1) \<Rightarrow> (None, s1)
         | (Some err, s1) \<Rightarrow>
             if try' > 10 then (Some err, s1) else retry_loop fn sleep try' (sleep 500 s1))"
  by pat_completeness auto
termination
  by (relation "measure (\<lambda>(fn, sleep, try, s). 11 - try)") auto

definition Retry :: "('s \<Rightarrow> gerror option \<times> 's) \<Rightarrow> (int \<Rightarrow> 's \<Rightarrow> 's) \<Rightarrow> 's \<Rightarrow> gerror option \<times> 's" where
  "Retry fn sleep s = retry_loop fn sleep 0 s"

declare retry_loop.simps [simp del]

definition retry_attempt ::
  "('s \<Rightarrow> gerror option \<times> 's) \<Rightarrow> (int \<Rightarrow> 's \<Rightarrow> 's) \<Rightarrow> nat \<Rightarrow> 's \<Rightarrow> gerror option option \<times> 's" where
  "retry_attempt fn sleep n s =
     (case fn s of
        (None, s1) \<Rightarrow> (Some None, s1)
      | (Some err, s1) \<Rightarrow> if 10 \<le> n then (Some (Some err), s1) else (None, sleep 500 s1))"

interpretation retry: bounded_attempts "retry_attempt fn sleep" "retry_loop fn sleep" 10
  for fn sleep
  by unfold_locales
    (auto simp: retry_attempt_def retry_loop.simps [of fn sleep] split: prod.splits option.splits)

section \<open>WaitForConnection\<close>

text \<open>
  \<open>dial\<close> is \<open>net.DialTimeout\<close> with a timeout of three seconds. The goroutine sends exactly one
  value on the channel it returned; the model is that value.
\<close>

function wait_loop ::
  "(string \<Rightarrow> 's \<Rightarrow> gerror option \<times> 's) \<Rightarrow> (int \<Rightarrow> 's \<Rightarrow> 's) \<Rightarrow> string \<Rightarrow> nat \<Rightarrow> 's
     \<Rightarrow> gerror option \<times> 's" where
  "wait_loop dial sleep addr tries s =
     (let s1 = sleep (if tries > 5 then 2000 else 1000) s;
          tries' = Suc tries
      in case dial addr s1 of
           (Some err, s2) \<Rightarrow>
             if tries' < 15 then wait_loop dial sleep addr tries' s2
             else (Some (ErrorString (''connection fail after '' @ itoa (int tries')
                     @ '' attempts: '' @ error_text err)), s2)
         | (None, s2) \<Rightarrow> (None, s2))"
  by pat_completeness auto
termination
  by (relation "measure (\<lambda>(dial, sleep, addr, tries, s). 15 - tries)") auto

declare wait_loop.simps [simp del]

definition WaitForConnection ::
  "(string \<Rightarrow> 's \<Rightarrow> gerror option \<times> 's) \<Rightarrow> (int \<Rightarrow> 's \<Rightarrow> 's) \<Rightarrow> string \<Rightarrow> 's \<Rightarrow> gerror option \<times> 's" where
  "WaitForConnection dial sleep addr s = wait_loop dial sleep addr 0 s"

definition wait_attempt ::
  "(string \<Rightarrow> 's \<Rightarrow> gerror option \<times> 's) \<Rightarrow> (int \<Rightarrow> 's \<Rightarrow> 's) \<Rightarrow> string \<Rightarrow> nat \<Rightarrow> 's
     \<Rightarrow> gerror option option \<times> 's" where
  "wait_attempt dial sleep addr n s =
     (case dial addr (sleep (if n > 5 then 2000 else 1000) s) of
        (Some err, s2) \<Rightarrow>
          (if n < 14 then None
           else Some (Some (ErrorString (''connection fail after '' @ itoa (int (Suc n))
                     @ '' attempts: '' @ error_text err))), s2)
      | (None, s2) \<Rightarrow> (Some None, s2))"

interpretation waiting: bounded_attempts "wait_attempt dial sleep addr" "wait_loop dial sleep addr" 14
  for dial sleep addr
  by unfold_locales
    (auto simp: wait_attempt_def wait_loop.simps [of dial sleep addr] Let_def
      split: prod.splits option.splits)

section \<open>Properties\<close>

text \<open>
  Property C37: \<open>Retry\<close> always returns, after at most eleven calls of the function. It
  returns nil as soon as a call does, and otherwise the error of the eleventh call; between
  two calls it sleeps 500 ms (the attempts of \<open>undecided\<close> are those calls with the sleep).
\<close>

theorem Retry_result:
  "\<exists>k s' s''. k \<le> 10 \<and> undecided (retry_attempt fn sleep) 0 k s = Some s'
     \<and> (fn s' = (None, s'') \<and> Retry fn sleep s = (None, s'')
        \<or> k = 10 \<and> (\<exists>err. fn s' = (Some err, s'') \<and> Retry fn sleep s = (Some err, s'')))"
proof -
  obtain k s' r s'' where k: "k \<le> 10" "undecided (retry_attempt fn sleep) 0 k s = Some s'"
    and a: "retry_attempt fn sleep k s' = (Some r, s'')" and l: "retry_loop fn sleep 0 s = (r, s'')"
    using retry.first_decision [of 0 fn sleep s] by auto
  show ?thesis
  proof (cases r)
    case None
    with a have "fn s' = (None, s'')"
      by (auto simp: retry_attempt_def split: prod.splits option.splits if_splits)
    with k l None show ?thesis unfolding Retry_def by blast
  next
    case (Some err)
    with a k(1) have "fn s' = (Some err, s'') \<and> k = 10"
      by (auto simp: retry_attempt_def split: prod.splits option.splits if_splits)
    with k l Some show ?thesis unfolding Retry_def by blast
  qed
qed

text \<open>
  Property C38: \<open>WaitForConnection\<close> reports a connection exactly when one of its fifteen
  dials succeeds, and then no later dial was made; otherwise it reports the failure of the
  fifteenth dial with the number of attempts.
\<close>

theorem WaitForConnection_result:
  "\<exists>k s' s''. k \<le> 14 \<and> undecided (wait_attempt dial sleep addr) 0 k s = Some s'
     \<and> (dial addr (sleep (if k > 5 then 2000 else 1000) s') = (None, s'')
          \<and> WaitForConnection dial sleep addr s = (None, s'')
        \<or> k = 14 \<and> (\<exists>err. dial addr (sleep 2000 s') = (Some err, s'')
          \<and> WaitForConnection dial sleep addr s
              = (Some (ErrorString (''connection fail after 15 attempts: '' @ error_text err)), s'')))"
proof -
  obtain k s' r s'' where k: "k \<le> 14" "undecided (wait_attempt dial sleep addr) 0 k s = Some s'"
    and a: "wait_attempt dial sleep addr k s' = (Some r, s'')"
    and l: "wait_loop dial sleep addr 0 s = (r, s'')"
    using waiting.first_decision [of 0 dial sleep addr s] by auto
  have fifteen: "''connection fail after '' @ itoa 15 @ '' attempts: '' @ t
      = ''connection fail after 15 attempts: '' @ t" for t
  proof -
    have "itoa 15 = ''15''" by code_simp
    then show ?thesis by simp
  qed
  show ?thesis
  proof (cases r)
    case None
    with a have "dial addr (sleep (if k > 5 then 2000 else 1000) s') = (None, s'')"
      by (auto simp: wait_attempt_def split: prod.splits option.splits if_splits)
    with k l None show ?thesis unfolding WaitForConnection_def by blast
  next
    case (Some e)
    with a k(1) obtain err where "k = 14" "dial addr (sleep 2000 s') = (Some err, s'')"
      "e = ErrorString (''connection fail after 15 attempts: '' @ error_text err)"
      using fifteen
      by (auto simp: wait_attempt_def split: prod.splits option.splits if_splits)
    with k l Some show ?thesis unfolding WaitForConnection_def by blast
  qed
qed

text \<open>
  On a clock that \<open>Sleep\<close> advances by its argument and a dial by at most its
  timeout of 3 s, \<open>WaitForConnection\<close> returns within 69 s (24 s of sleep and fifteen timeouts).
\<close>

theorem WaitForConnection_time:
  assumes "\<And>t s. clock (sleep t s) = clock s + t"
    and "\<And>s. clock (snd (dial addr s)) \<le> clock s + 3000"
  shows "clock (snd (WaitForConnection dial sleep addr s)) \<le> clock s + 69000"
proof -
  let ?d = "\<lambda>i::nat. if i > 5 then 5000 else 4000 :: int"
  have "clock (snd (wait_attempt dial sleep addr i s)) \<le> clock s + ?d i" for i s
  proof -
    have "snd (wait_attempt dial sleep addr i s)
        = snd (dial addr (sleep (if i > 5 then 2000 else 1000) s))"
      by (simp add: wait_attempt_def split: prod.split option.split)
    then show ?thesis
      using assms(2) [of "sleep (if i > 5 then 2000 else 1000) s"]
      by (cases "i > 5") (simp_all add: assms(1))
  qed
  then have "clock (snd (wait_loop dial sleep addr 0 s)) \<le> clock s + (\<Sum>i = 0..14. ?d i)"
    by (intro waiting.total_bound) simp_all
  moreover have "(\<Sum>i = 0..14. ?d i) = 69000" by code_simp
  ultimately show ?thesis unfolding WaitForConnection_def by simp
qed

theorem WaitForConnection_time_witness:
  "snd (WaitForConnection (\<lambda>addr s. (Some (ErrorString ''refused''), s + 3000)) (\<lambda>t s. s + t)
     ''localhost:7080'' 0) \<le> (69000 :: int)"
proof -
  let ?dial = "\<lambda>(addr::string) s. (Some (ErrorString ''refused''), s + 3000 :: int)"
  have "id (snd (WaitForConnection ?dial (\<lambda>t s. s + t) ''localhost:7080'' 0)) \<le> id 0 + 69000"
    by (rule WaitForConnection_time) simp_all
  then show ?thesis by simp
qed

end
