(* ===== verification/Machine.thy ===== *)
theory Machine
  imports GoStrings
begin

text \<open>
  The machine the plugin runs on, as far as the program uses it through Go's standard library:
  listeners and dials (net), temporary files (ioutil, os), processes (os/exec) and the clock.
  A call can fail for reasons outside the program, so each one draws its possible failure from an
  outage function indexed by the number of calls made before. The two port helpers of util/port.go are
  here as well.
\<close>

section \<open>State\<close>

record run =
  runExe :: string
  runArgv :: "string list"
  runEnviron :: "string list"

record machine =
  calls :: nat
  outage :: "nat \<Rightarrow> gerror option"
  listening :: "string list"
  foreign :: "string list"
  freePort :: "nat \<Rightarrow> uint16"
  tempRoot :: string
  tempNumber :: "nat \<Rightarrow> nat"
  dirs :: "string list"
  files :: "string gomap"
  clockMs :: int
  path :: "string \<Rightarrow> string option"
  environ :: "string list"
  exitCode :: "nat \<Rightarrow> int option"
  runs :: "run list"

text \<open>
  \<open>listening\<close> holds the addresses this process listens on and \<open>foreign\<close> those in use by
  others. \<open>freePort\<close> and \<open>tempNumber\<close> are the choices of the kernel and of the temporary-name
  generator. \<open>path\<close> is \<open>exec.LookPath\<close>, \<open>exitCode\<close> the state a process ends in (none if waiting
  for it failed) and \<open>runs\<close> the processes started.
\<close>

definition faulty :: "(machine, 'a) act \<Rightarrow> (machine, 'a) act" where
  "faulty f = (\<lambda>m.
     let m1 = m\<lparr>calls := Suc (calls m)\<rparr>
     in case outage m (calls m) of Some e \<Rightarrow> (Err e, m1) | None \<Rightarrow> f m1)"

section \<open>Network\<close>

definition addr_host :: "string \<Rightarrow> string" where
  "addr_host addr = takeWhile (\<lambda>c. c \<noteq> CHR '':'') addr"

definition addr_port :: "string \<Rightarrow> string" where
  "addr_port addr = drop 1 (dropWhile (\<lambda>c. c \<noteq> CHR '':'') addr)"

text \<open>The program listens on \<open>localhost\<close> and on \<open>127.0.0.1\<close>, which are the same interface.\<close>

definition resolve :: "string \<Rightarrow> string" where
  "resolve host = (if host = ''localhost'' then ''127.0.0.1'' else host)"

definition port_of_text :: "string \<Rightarrow> int option" where
  "port_of_text s = (case atoi s of (n, None) \<Rightarrow> if 0 \<le> n \<and> n \<le> 65535 then Some n else None
                       | (n, Some _) \<Rightarrow> None)"

definition listen_on :: "string \<Rightarrow> int \<Rightarrow> (machine, string) act" where
  "listen_on host p = (\<lambda>m.
     let chosen = (if p = 0 then uint (freePort m (calls m)) else p);
         a = host_port (resolve host) chosen
     in if a \<in> set (listening m) \<union> set (foreign m)
        then (Err (ErrorString (''listen tcp '' @ a @ '': bind: address already in use'')), m)
        else (Ok a, m\<lparr>listening := listening m @ [a]\<rparr>))"

text \<open>\<open>net.Listen("tcp", addr)\<close>: the address of the listener, with port 0 replaced by a free port.\<close>

definition Listen :: "string \<Rightarrow> (machine, string) act" where
  "Listen addr = faulty
     (case port_of_text (addr_port addr) of
        None \<Rightarrow> raise (ErrorString (''listen tcp: address '' @ addr_port addr @ '': invalid port''))
      | Some p \<Rightarrow> listen_on (addr_host addr) p)"

text \<open>Closing a listener twice is an error.\<close>

definition Close :: "string \<Rightarrow> (machine, unit) act" where
  "Close a = (\<lambda>m.
     if a \<in> set (listening m) then (Ok (), m\<lparr>listening := remove1 a (listening m)\<rparr>)
     else (Err (ErrorString (''close tcp '' @ a @ '': use of closed network connection'')), m))"

text \<open>A dial of \<open>localhost\<close> succeeds only where someone listens.\<close>

definition dial_local :: "string \<Rightarrow> (machine, unit) act" where
  "dial_local addr = faulty (\<lambda>m.
     let a = resolve (addr_host addr) @ '':'' @ addr_port addr
     in if a \<in> set (listening m) \<union> set (foreign m) then (Ok (), m)
        else (Err (ErrorString (''dial tcp '' @ a @ '': connect: connection refused'')), m))"

definition dial_result :: "string \<Rightarrow> machine \<Rightarrow> gerror option \<times> machine" where
  "dial_result addr m = (case dial_local addr m of
     (Ok _, m') \<Rightarrow> (None, m') | (Err e, m') \<Rightarrow> (Some e, m') | (Panic p, m') \<Rightarrow> (Some (ErrorString p), m'))"

definition sleep_ms :: "int \<Rightarrow> machine \<Rightarrow> machine" where
  "sleep_ms t m = m\<lparr>clockMs := clockMs m + t\<rparr>"

section \<open>Files\<close>

text \<open>\<open>ioutil.TempDir("", pat)\<close>: a directory that did not exist before.\<close>

definition TempDir :: "string \<Rightarrow> (machine, string) act" where
  "TempDir pat = faulty (\<lambda>m.
     let d = tempRoot m @ ''/'' @ pat @ itoa (int (tempNumber m (calls m)))
     in if d \<in> set (dirs m) \<or> d \<in> set (keys (files m))
        then (Err (ErrorString (''mkdir '' @ d @ '': file exists'')), m)
        else (Ok d, m\<lparr>dirs := dirs m @ [d]\<rparr>))"

definition path_join :: "string \<Rightarrow> string \<Rightarrow> string" where
  "path_join d f = d @ ''/'' @ f"

text \<open>\<open>ioutil.WriteFile\<close>; the mode bits are left out.\<close>

definition WriteFile :: "string \<Rightarrow> string \<Rightarrow> (machine, unit) act" where
  "WriteFile p content = faulty (\<lambda>m. (Ok (), m\<lparr>files := AList.update p content (files m)\<rparr>))"

text \<open>\<open>os.RemoveAll\<close> removes the directory and everything below it, if it is there.\<close>

definition below :: "string \<Rightarrow> string \<Rightarrow> bool" where
  "below d p = (p = d \<or> prefix (d @ ''/'') p)"

definition RemoveAll :: "string \<Rightarrow> (machine, unit) act" where
  "RemoveAll d = faulty (\<lambda>m. (Ok (), m\<lparr>dirs := filter (\<lambda>p. \<not> below d p) (dirs m),
     files := filter (\<lambda>(p, _). \<not> below d p) (files m)\<rparr>))"

section \<open>Processes\<close>

text \<open>\<open>proc.Start()\<close> and \<open>proc.Wait()\<close>: the exit code, if the process state is known.\<close>

definition start_process :: "string \<Rightarrow> string list \<Rightarrow> string list \<Rightarrow> (machine, unit) act" where
  "start_process exe args envp = faulty (\<lambda>m.
     (Ok (), m\<lparr>runs := runs m @ [\<lparr>runExe = exe, runArgv = args, runEnviron = envp\<rparr>]\<rparr>))"

definition wait_process :: "(machine, int option) act" where
  "wait_process = get_st (\<lambda>m. exitCode m (length (runs m)))"

section \<open>util/port.go\<close>

definition PortIsInUse :: "int64 \<Rightarrow> machine \<Rightarrow> bool \<times> machine" where
  "PortIsInUse port m =
     (case Listen (addr_text ''127.0.0.1'' port) m of
        (Ok a, m1) \<Rightarrow> (False, snd (Close a m1))
      | (_, m1) \<Rightarrow> (True, m1))"

text \<open>\<open>net.SplitHostPort\<close> of a listener's address gives its port.\<close>

definition GetRandomPort :: "machine \<Rightarrow> (gerror + int) \<times> machine" where
  "GetRandomPort m =
     (case Listen ''127.0.0.1:0'' m of
        (Ok a, m1) \<Rightarrow>
          (case atoi (addr_port a) of
             (n, None) \<Rightarrow> (Inr n, snd (Close a m1))
           | (n, Some _) \<Rightarrow> (Inl (ErrorString (''strconv.Atoi: parsing '' @ addr_port a)), snd (Close a m1)))
      | (Err e, m1) \<Rightarrow> (Inl e, m1)
      | (Panic p, m1) \<Rightarrow> (Inl (ErrorString p), m1))"

section \<open>Lemmas\<close>

lemma calm_faulty [calm]: "no_panic f \<Longrightarrow> no_panic (faulty f)"
  by (simp add: no_panic_def faulty_def Let_def split: option.split)

lemma calm_Listen [calm]: "no_panic (Listen addr)"
proof -
  have "no_panic (listen_on h p)" for h p
    by (simp add: no_panic_def listen_on_def Let_def)
  then show ?thesis
    unfolding Listen_def by (auto intro!: calm split: option.split)
qed

lemma calm_Close [calm]: "no_panic (Close a)"
  by (simp add: no_panic_def Close_def)

lemma calm_files [calm]: "no_panic (TempDir pat)" "no_panic (WriteFile p t)" "no_panic (RemoveAll d)"
  by (auto simp: no_panic_def TempDir_def WriteFile_def RemoveAll_def faulty_def Let_def
      split: option.split)

lemma calm_process [calm]: "no_panic (start_process exe args envp)" "no_panic wait_process"
  by (auto simp: no_panic_def start_process_def wait_process_def faulty_def get_st_def Let_def
      split: option.split)

text \<open>An address printed from a host without a colon and a port reads back.\<close>

lemma addr_parts:
  assumes "CHR '':'' \<notin> set h"
  shows "addr_host (host_port h p) = h" "addr_port (host_port h p) = itoa p"
proof -
  have "takeWhile (\<lambda>c. c \<noteq> CHR '':'') (h @ CHR '':'' # itoa p) = h"
    using assms by (subst takeWhile_append2) auto
  moreover have "dropWhile (\<lambda>c. c \<noteq> CHR '':'') (h @ CHR '':'' # itoa p) = CHR '':'' # itoa p"
    using assms by (subst dropWhile_append2) auto
  ultimately show "addr_host (host_port h p) = h" "addr_port (host_port h p) = itoa p"
    by (simp_all add: addr_host_def addr_port_def host_port_def)
qed

lemma local_parts [simp]:
  "addr_host (host_port ''localhost'' p) = ''localhost''"
  "addr_port (host_port ''localhost'' p) = itoa p"
  "addr_host (host_port ''127.0.0.1'' p) = ''127.0.0.1''"
  "addr_port (host_port ''127.0.0.1'' p) = itoa p"
  by (rule addr_parts, simp)+

lemma resolve_local [simp]:
  "resolve ''localhost'' = ''127.0.0.1''" "resolve ''127.0.0.1'' = ''127.0.0.1''"
  by (simp_all add: resolve_def)

lemma port_of_itoa64:
  "port_of_text (itoa (sint (p :: int64)))
     = (if 0 \<le> sint p \<and> sint p \<le> 65535 then Some (sint p) else None)"
  by (simp add: port_of_text_def flip: itoa64_def)

text \<open>What listening on a local address does.\<close>

lemma Listen_local:
  assumes "Listen (addr_text h p) m = (r, m')" and "h = ''localhost'' \<or> h = ''127.0.0.1''"
  shows "case r of
      Ok a \<Rightarrow> m' = m\<lparr>calls := Suc (calls m), listening := listening m @ [a]\<rparr>
        \<and> a \<notin> set (listening m) \<union> set (foreign m) \<and> 0 \<le> sint p \<and> sint p \<le> 65535
        \<and> (sint p \<noteq> 0 \<longrightarrow> a = addr_text ''127.0.0.1'' p)
    | Err e \<Rightarrow> m' = m\<lparr>calls := Suc (calls m)\<rparr>
    | Panic _ \<Rightarrow> False"
  using assms
  by (auto simp: Listen_def faulty_def listen_on_def addr_text_def port_of_itoa64 raise_def Let_def
      split: option.splits if_splits)

lemma Listen_ok_iff:
  assumes "h = ''localhost'' \<or> h = ''127.0.0.1''" and "0 < sint p"
  shows "is_ok (fst (Listen (addr_text h p) m)) \<longleftrightarrow>
    outage m (calls m) = None \<and> sint p \<le> 65535
    \<and> addr_text ''127.0.0.1'' p \<notin> set (listening m) \<union> set (foreign m)"
  using assms
  by (cases "sint p \<le> 65535")
    (auto simp: Listen_def faulty_def listen_on_def addr_text_def port_of_itoa64 raise_def Let_def
      split: option.splits)

section \<open>Properties\<close>

text \<open>
  Asking whether a port is in use changes no listener. The answer is no exactly if
  the port is a valid number, the attempt to listen does not fail for an outside reason and no
  one listens on the address.
\<close>

theorem PortIsInUse_spec:
  "listening (snd (PortIsInUse port m)) = listening m
   \<and> foreign (snd (PortIsInUse port m)) = foreign m
   \<and> (0 < sint port \<longrightarrow>
      (\<not> fst (PortIsInUse port m) \<longleftrightarrow> outage m (calls m) = None \<and> sint port \<le> 65535
         \<and> addr_text ''127.0.0.1'' port \<notin> set (listening m) \<union> set (foreign m)))"
proof -
  obtain r m1 where l: "Listen (addr_text ''127.0.0.1'' port) m = (r, m1)" by fastforce
  note L = Listen_local [OF l]
  have "fst (PortIsInUse port m) = (\<not> is_ok r)"
    using l by (simp add: PortIsInUse_def split: outcome.split)
  moreover have "listening (snd (PortIsInUse port m)) = listening m
      \<and> foreign (snd (PortIsInUse port m)) = foreign m"
    using l L by (auto simp: PortIsInUse_def Close_def remove1_append split: outcome.splits)
  ultimately show ?thesis
    using Listen_ok_iff [of "''127.0.0.1''" port m] l by auto
qed

definition demo_machine :: machine where
  "demo_machine = \<lparr>calls = 0, outage = (\<lambda>_. None), listening = [], foreign = [],
     freePort = (\<lambda>_. 40000), tempRoot = ''/tmp'', tempNumber = (\<lambda>n. n), dirs = [], files = [],
     clockMs = 0, path = (\<lambda>p. Some (''/usr/bin/'' @ p)), environ = [''HOME=/root''],
     exitCode = (\<lambda>_. Some 0), runs = []\<rparr>"

theorem PortIsInUse_spec_witness:
  "\<not> fst (PortIsInUse 7080 demo_machine)
   \<and> fst (PortIsInUse 7080 (demo_machine\<lparr>foreign := [addr_text ''127.0.0.1'' 7080]\<rparr>))"
  using PortIsInUse_spec [of 7080 demo_machine]
    PortIsInUse_spec [of 7080 "demo_machine\<lparr>foreign := [addr_text ''127.0.0.1'' 7080]\<rparr>"]
  by (simp add: demo_machine_def)

text \<open>
  A random port is a valid port number that no one was listening on, and the probe's
  listener is gone again.
\<close>

theorem GetRandomPort_spec:
  "listening (snd (GetRandomPort m)) = listening m
   \<and> (case fst (GetRandomPort m) of
        Inr n \<Rightarrow> 0 \<le> n \<and> n \<le> 65535 \<and> n = uint (freePort m (Suc (calls m)))
          \<and> host_port ''127.0.0.1'' n \<notin> set (listening m) \<union> set (foreign m)
      | Inl e \<Rightarrow> outage m (calls m) \<noteq> None
          \<or> host_port ''127.0.0.1'' (uint (freePort m (Suc (calls m)))) \<in> set (listening m) \<union> set (foreign m))"
proof -
  let ?p = "freePort m (Suc (calls m))"
  have b: "0 \<le> uint ?p" "uint ?p \<le> 65535"
    using uint_lt2p [of ?p] by simp_all
  have p: "port_of_text (addr_port ''127.0.0.1:0'') = Some 0" "addr_host ''127.0.0.1:0'' = ''127.0.0.1''"
    by code_simp+
  have at: "atoi (itoa (uint ?p)) = (uint ?p, None)"
  proof (rule atoi_itoa)
    show "int64_min \<le> uint ?p" using b(1) unfolding int64_min_def by linarith
    show "uint ?p \<le> int64_max" using b(2) unfolding int64_max_def by linarith
  qed
  have L: "Listen ''127.0.0.1:0'' m =
      (case outage m (calls m) of
         Some e \<Rightarrow> (Err e, m\<lparr>calls := Suc (calls m)\<rparr>)
       | None \<Rightarrow> listen_on ''127.0.0.1'' 0 (m\<lparr>calls := Suc (calls m)\<rparr>))"
    unfolding Listen_def faulty_def Let_def p by (simp split: option.split)
  show ?thesis
    unfolding GetRandomPort_def L
    by (auto simp: listen_on_def Let_def at b Close_def remove1_append split: option.split)
qed

end
