(* ===== verification/SshTunnel.thy ===== *)
theory SshTunnel
  imports Loops Machine
begin

text \<open>
  The SSH tunnel (ssh/tunnel.go): the addresses of a forwarding, and starting and stopping the
  local listeners. What happens to an accepted connection is in SshConnections and Proxying, the
  interleavings of the shutdown in Shutdown.
\<close>

section \<open>Addresses\<close>

record forward =
  LocalPort :: int64
  TLSTunnelPort :: int64
  RemoteAddr :: string

definition LocalAddress :: "forward \<Rightarrow> string" where
  "LocalAddress f = addr_text ''localhost'' (LocalPort f)"

definition TLSTunnelAddress :: "forward \<Rightarrow> string" where
  "TLSTunnelAddress f = addr_text ''localhost'' (TLSTunnelPort f)"

definition ConnectAddress :: "forward \<Rightarrow> string" where
  "ConnectAddress f = (if TLSTunnelPort f \<noteq> 0 then TLSTunnelAddress f else LocalAddress f)"

definition ConnectPort :: "forward \<Rightarrow> int64" where
  "ConnectPort f = (if TLSTunnelPort f \<noteq> 0 then TLSTunnelPort f else LocalPort f)"

lemma ConnectAddress_port: "ConnectAddress f = addr_text ''localhost'' (ConnectPort f)"
  by (simp add: ConnectAddress_def ConnectPort_def LocalAddress_def TLSTunnelAddress_def)

section \<open>Starting and stopping\<close>

text \<open>
  \<open>running\<close> tells whether \<open>shutdownChan\<close> is not nil. The fields that only the connections use
  (host key, password function) are parameters of the later sections.
\<close>

record ssh_tunnel =
  tunForwards :: "forward list"
  tunAddr :: string
  tunHostKey :: string
  tunApp :: string
  running :: bool
  listeners :: "string list"

definition new_ssh_tunnel :: "string \<Rightarrow> string \<Rightarrow> string \<Rightarrow> forward list \<Rightarrow> ssh_tunnel" where
  "new_ssh_tunnel app addr key fwds =
     \<lparr>tunForwards = fwds, tunAddr = addr, tunHostKey = key, tunApp = app,
      running = False, listeners = []\<rparr>"

type_synonym tun_st = "ssh_tunnel \<times> machine"

definition ssh_forward :: "forward \<Rightarrow> (tun_st, unit) act" where
  "ssh_forward fwd = (\<lambda>(t, m).
     case Listen (LocalAddress fwd) m of
       (Ok a, m1) \<Rightarrow> (Ok (), (t\<lparr>listeners := listeners t @ [a]\<rparr>, m1))
     | (Err e, m1) \<Rightarrow> (Err e, (t, m1))
     | (Panic p, m1) \<Rightarrow> (Panic p, (t, m1)))"

definition ssh_Start :: "(tun_st, unit) act" where
  "ssh_Start =
     seq (get_st (\<lambda>(t, m). (running t, tunForwards t))) (\<lambda>(run, fwds).
       if run then raise (ErrorString ''already started'')
       else andthen (for_each ssh_forward fwds) (upd (\<lambda>(t, m). (t\<lparr>running := True\<rparr>, m))))"

text \<open>The errors of closing listeners are ignored.\<close>

definition close_listeners :: "string list \<Rightarrow> machine \<Rightarrow> machine" where
  "close_listeners ls m = fold (\<lambda>a m. snd (Close a m)) ls m"

definition ssh_Stop :: "(tun_st, unit) act" where
  "ssh_Stop = upd (\<lambda>(t, m).
     if running t then (t\<lparr>running := False\<rparr>, close_listeners (listeners t) m) else (t, m))"

lemma calm_ssh_forward [calm]: "no_panic (ssh_forward fwd)"
  using no_panicD [OF calm_Listen]
  by (auto simp: no_panic_def ssh_forward_def split: prod.splits outcome.splits)

lemma calm_ssh_Start [calm]: "no_panic ssh_Start"
  unfolding ssh_Start_def by (auto intro!: calm split: prod.split)

lemma calm_ssh_Stop [calm]: "no_panic ssh_Stop"
  unfolding ssh_Stop_def by (rule calm)

text \<open>What the listening loop leaves in the tunnel and on the machine, however it ends.\<close>

lemma ssh_forward_run:
  assumes "ssh_forward fwd (t, m) = (r, (t', m'))"
  shows "(r = Ok () \<and> (\<exists>a. t' = t\<lparr>listeners := listeners t @ [a]\<rparr>
            \<and> listening m' = listening m @ [a] \<and> a \<notin> set (listening m)))
      \<or> ((\<exists>e. r = Err e) \<and> t' = t \<and> listening m' = listening m)"
proof -
  obtain r1 m1 where l: "Listen (addr_text ''localhost'' (LocalPort fwd)) m = (r1, m1)" by fastforce
  show ?thesis
    using assms l Listen_local [OF l] by (cases r1) (auto simp: ssh_forward_def LocalAddress_def)
qed

lemma ssh_forwards_run:
  assumes "for_each ssh_forward fwds (t, m) = (r, (t', m'))"
  shows "\<exists>as. listeners t' = listeners t @ as \<and> listening m' = listening m @ as
      \<and> distinct as \<and> set as \<inter> set (listening m) = {} \<and> running t' = running t
      \<and> tunForwards t' = tunForwards t
      \<and> (r = Ok () \<longrightarrow> length as = length fwds) \<and> (\<forall>p. r \<noteq> Panic p)"
  using assms
proof (induction fwds arbitrary: t m)
  case Nil
  then show ?case by (auto simp: act_defs)
next
  case (Cons fwd fwds)
  obtain r1 t1 m1 where 1: "ssh_forward fwd (t, m) = (r1, (t1, m1))" by (metis prod.exhaust)
  show ?case
  proof (cases r1)
    case (Ok u)
    then obtain a where a: "t1 = t\<lparr>listeners := listeners t @ [a]\<rparr>"
      "listening m1 = listening m @ [a]" "a \<notin> set (listening m)"
      using ssh_forward_run [OF 1] by auto
    have "for_each ssh_forward fwds (t1, m1) = (r, (t', m'))"
      using Cons.prems 1 Ok by (simp add: seq_def)
    from Cons.IH [OF this] obtain as where "listeners t' = listeners t1 @ as"
      "listening m' = listening m1 @ as" "distinct as" "set as \<inter> set (listening m1) = {}"
      "running t' = running t1" "tunForwards t' = tunForwards t1"
      "r = Ok () \<longrightarrow> length as = length fwds" "\<forall>p. r \<noteq> Panic p" by blast
    with a show ?thesis by (intro exI [of _ "a # as"]) auto
  next
    case (Err e)
    with Cons.prems 1 ssh_forward_run [OF 1] show ?thesis
      by (intro exI [of _ "[]"]) (auto simp: seq_def)
  next
    case (Panic p)
    with ssh_forward_run [OF 1] show ?thesis by auto
  qed
qed

lemma close_listeners_run:
  "distinct as \<Longrightarrow> set as \<inter> set ls = {} \<Longrightarrow> listening m = ls @ as
    \<Longrightarrow> listening (close_listeners as m) = ls \<and> foreign (close_listeners as m) = foreign m"
proof (induction as arbitrary: m)
  case (Cons a as)
  have "listening (snd (Close a m)) = ls @ as" "foreign (snd (Close a m)) = foreign m"
    using Cons.prems by (auto simp: Close_def remove1_append)
  then show ?case using Cons by (simp add: close_listeners_def)
qed (simp add: close_listeners_def)


definition demo_forwards :: "forward list" where
  "demo_forwards =
     [\<lparr>LocalPort = 7080, TLSTunnelPort = 0, RemoteAddr = ''10.0.0.1:5432''\<rparr>,
      \<lparr>LocalPort = 7081, TLSTunnelPort = 7082, RemoteAddr = ''10.0.0.2:6379''\<rparr>]"


end
