(* ===== verification/SshConnections.thy ===== *)
theory SshConnections
  imports SshTunnel
begin

text \<open>
  What the SSH tunnel does with an accepted connection (ssh/tunnel.go): the pipe of one time
  passwords as a step relation, the host key check, the attempts to reach the remote address and
  the accept loop.
\<close>

section \<open>Host key check\<close>

definition without_colons :: "string \<Rightarrow> string" where
  "without_colons s = replace_all s '':'' []"

text \<open>
  \<open>sha256\<close> and \<open>md5\<close> are \<open>ssh.FingerprintSHA256\<close> and \<open>ssh.FingerprintLegacyMD5\<close> of the key the
  server presented (vendored golang.org/x/crypto/ssh).
\<close>

definition checkSSHFingerprint ::
  "('k \<Rightarrow> string) \<Rightarrow> ('k \<Rightarrow> string) \<Rightarrow> 'k \<Rightarrow> string \<Rightarrow> bool \<times> string list" where
  "checkSSHFingerprint sha256 md5 key actual =
     (let actualWithoutColons = without_colons actual;
          sha256Sum = replace_all (sha256 key) ''SHA256:'' [];
          md5Sum = without_colons (replace_all (md5 key) ''MD5:'' []);
          possibleVals = [sha256Sum, md5Sum];
          sha256Match = (sha256Sum = actualWithoutColons);
          md5Match = (md5Sum = actualWithoutColons)
      in (sha256Match \<or> md5Match, possibleVals))"

text \<open>\<open>%q\<close> of the values, in the error text, is not modelled further.\<close>

definition host_key_callback ::
  "('k \<Rightarrow> string) \<Rightarrow> ('k \<Rightarrow> string) \<Rightarrow> (string \<Rightarrow> string list \<Rightarrow> string) \<Rightarrow> string \<Rightarrow> 'k
     \<Rightarrow> gerror option" where
  "host_key_callback sha256 md5 mismatch hostKey key =
     (case checkSSHFingerprint sha256 md5 key hostKey of
        (valid, possible) \<Rightarrow> if \<not> valid then Some (ErrorString (mismatch hostKey possible)) else None)"

lemma without_colons_filter: "without_colons s = filter (\<lambda>c. c \<noteq> CHR '':'') s"
  unfolding without_colons_def
  by (induction s) auto

lemma replace_prefix_only:
  "old \<noteq> [] \<Longrightarrow> \<not> contains s old \<Longrightarrow> replace_all (old @ s) old [] = s"
  using replace_all_first [of old "[]" s "[]"] by (simp add: replace_all_absent)

lemma contains_char: "contains s old \<Longrightarrow> c \<in> set old \<Longrightarrow> c \<in> set s"
  by (auto simp: contains_iff)

text \<open>
  Property C28: with the fingerprint formats the library documents (\<open>SHA256:\<close> and unpadded base64;
  hexadecimal bytes separated by colons), the check accepts exactly the base64 digest, written
  with or without colons in it, and the hexadecimal digest with its colons anywhere or nowhere.
\<close>

theorem checkSSHFingerprint_iff:
  assumes "sha256 key = ''SHA256:'' @ b64" and "CHR '':'' \<notin> set b64"
    and "CHR ''M'' \<notin> set (md5 key)"
  shows "fst (checkSSHFingerprint sha256 md5 key actual) \<longleftrightarrow>
      filter (\<lambda>c. c \<noteq> CHR '':'') actual = b64
      \<or> filter (\<lambda>c. c \<noteq> CHR '':'') actual = filter (\<lambda>c. c \<noteq> CHR '':'') (md5 key)"
proof -
  have "\<not> contains b64 ''SHA256:''"
    using assms(2) contains_char [of b64 "''SHA256:''" "CHR '':''"] by auto
  then have 1: "replace_all (sha256 key) ''SHA256:'' [] = b64"
    unfolding assms(1) by (intro replace_prefix_only) simp_all
  have "\<not> contains (md5 key) ''MD5:''"
    using assms(3) contains_char [of "md5 key" "''MD5:''" "CHR ''M''"] by auto
  then have 2: "replace_all (md5 key) ''MD5:'' [] = md5 key"
    by (intro replace_all_absent) simp_all
  show ?thesis
    unfolding checkSSHFingerprint_def Let_def fst_conv 1 2 without_colons_filter by metis
qed

theorem checkSSHFingerprint_iff_witness:
  "fst (checkSSHFingerprint (\<lambda>k. ''SHA256:'' @ k) (\<lambda>k. ''aa:bb'') ''abc'' ''a:abb'')
   \<and> \<not> fst (checkSSHFingerprint (\<lambda>k. ''SHA256:'' @ k) (\<lambda>k. ''aa:bb'') ''abc'' ''SHA256:abc'')"
  using checkSSHFingerprint_iff [of "\<lambda>k. ''SHA256:'' @ k" "''abc''" "''abc''" "\<lambda>k. ''aa:bb''" "''a:abb''"]
    checkSSHFingerprint_iff [of "\<lambda>k. ''SHA256:'' @ k" "''abc''" "''abc''" "\<lambda>k. ''aa:bb''" "''SHA256:abc''"]
  by simp

section \<open>The pipe of passwords\<close>

text \<open>
  \<open>passwordPipe\<close> starts one goroutine that asks for one time codes and sends them into a channel
  of capacity three, for the connections to take. \<open>holding\<close> is a code asked for and not yet
  accepted by the channel. A failed request is logged and sends the empty string. \<open>asked\<close> and
  \<open>taken\<close> record the history.
\<close>

record 'c pipe =
  codeSource :: 'c
  holding :: "string option"
  channel :: "string list"
  asked :: "string list"
  taken :: "string list"

definition new_pipe :: "'c \<Rightarrow> 'c pipe" where
  "new_pipe c = \<lparr>codeSource = c, holding = None, channel = [], asked = [], taken = []\<rparr>"

definition code_value :: "string outcome \<Rightarrow> string" where
  "code_value r = (case r of Ok code \<Rightarrow> code | _ \<Rightarrow> [])"

inductive pipe_step :: "('c, string) act \<Rightarrow> 'c pipe \<Rightarrow> 'c pipe \<Rightarrow> bool" for pass where
  ask: "holding p = None \<Longrightarrow> pass (codeSource p) = (r, c') \<Longrightarrow>
    pipe_step pass p (p\<lparr>codeSource := c', holding := Some (code_value r), asked := asked p @ [code_value r]\<rparr>)"
| send: "holding p = Some code \<Longrightarrow> length (channel p) < 3 \<Longrightarrow>
    pipe_step pass p (p\<lparr>holding := None, channel := channel p @ [code]\<rparr>)"
| take: "channel p = code # rest \<Longrightarrow>
    pipe_step pass p (p\<lparr>channel := rest, taken := taken p @ [code]\<rparr>)"

inductive_cases pipe_stepE: "pipe_step pass p q"

definition pipe_inv :: "'c pipe \<Rightarrow> bool" where
  "pipe_inv p = (asked p = taken p @ channel p @ (case holding p of None \<Rightarrow> [] | Some code \<Rightarrow> [code])
     \<and> length (channel p) \<le> 3)"

lemma pipe_inv_step: "pipe_step pass p q \<Longrightarrow> pipe_inv p \<Longrightarrow> pipe_inv q"
  by (erule pipe_stepE) (auto simp: pipe_inv_def)

lemma pipe_inv_reachable: "(pipe_step pass)\<^sup>*\<^sup>* p q \<Longrightarrow> pipe_inv p \<Longrightarrow> pipe_inv q"
  by (induction rule: rtranclp_induct) (auto intro: pipe_inv_step)

text \<open>
  Property C27: every connection gets a code of its own, in the order the codes were asked for:
  at any time the codes taken are a prefix of the codes asked for, and at most four codes are
  asked for ahead of their use.
\<close>

theorem password_pipe_order:
  assumes "(pipe_step pass)\<^sup>*\<^sup>* (new_pipe c) p"
  shows "\<exists>ahead. asked p = taken p @ ahead \<and> length ahead \<le> 4"
proof -
  have "pipe_inv (new_pipe c)" by (simp add: pipe_inv_def new_pipe_def)
  from pipe_inv_reachable [OF assms this] show ?thesis
    by (auto simp: pipe_inv_def split: option.splits)
qed

theorem password_pipe_order_witness:
  "\<exists>p :: nat pipe. (pipe_step (\<lambda>n. (Ok ''code'', Suc n)))\<^sup>*\<^sup>* (new_pipe 0) p
     \<and> taken p = [''code''] \<and> (\<exists>ahead. asked p = taken p @ ahead \<and> length ahead \<le> 4)"
proof -
  let ?pass = "\<lambda>n::nat. (Ok ''code'', Suc n)"
  let ?p1 = "(new_pipe (0::nat))\<lparr>codeSource := 1, holding := Some ''code'', asked := [''code'']\<rparr>"
  let ?p2 = "?p1\<lparr>holding := None, channel := [''code'']\<rparr>"
  let ?p3 = "?p2\<lparr>channel := [], taken := [''code'']\<rparr>"
  have "pipe_step ?pass (new_pipe 0) ?p1"
    using pipe_step.ask [of "new_pipe 0" ?pass "Ok ''code''" 1] by (simp add: new_pipe_def code_value_def)
  moreover have "pipe_step ?pass ?p1 ?p2"
    using pipe_step.send [of ?p1 "''code''" ?pass] by (simp add: new_pipe_def)
  moreover have "pipe_step ?pass ?p2 ?p3"
    using pipe_step.take [of ?p2 "''code''" "[]" ?pass] by (simp add: new_pipe_def)
  ultimately have r: "(pipe_step ?pass)\<^sup>*\<^sup>* (new_pipe 0) ?p3"
    by (meson converse_rtranclp_into_rtranclp rtranclp.rtrancl_refl)
  from password_pipe_order [OF r] r show ?thesis by (intro exI [of _ ?p3]) simp
qed

section \<open>An accepted connection\<close>

text \<open>
  The SSH client as a parameter over its own state \<open>'n\<close>: the next password of the pipe, a dial
  with the host key callback, and a dial through the connection. The connection says which key
  the server proved to have.
\<close>

record 'k ssh_conn =
  connKey :: 'k
  connUser :: string
  connServer :: string

record ('k, 'n) ssh_lib =
  lib_password :: "'n \<Rightarrow> string \<times> 'n"
  lib_dial :: "string \<Rightarrow> string \<Rightarrow> string \<Rightarrow> ('k \<Rightarrow> gerror option) \<Rightarrow> 'n \<Rightarrow> (gerror + 'k ssh_conn) \<times> 'n"
  lib_remote :: "'k ssh_conn \<Rightarrow> string \<Rightarrow> 'n \<Rightarrow> gerror option \<times> 'n"
  lib_sleep :: "int \<Rightarrow> 'n \<Rightarrow> 'n"
  lib_sha256 :: "'k \<Rightarrow> string"
  lib_md5 :: "'k \<Rightarrow> string"
  lib_mismatch :: "string \<Rightarrow> string list \<Rightarrow> string"

text \<open>\<open>sshOpen\<close>: the SSH connections opened (none is ever closed); \<open>copies\<close>: the pairs proxied.\<close>

record ('k, 'n) ssh_st =
  sshNet :: 'n
  sshOpen :: "'k ssh_conn list"
  copies :: "('k ssh_conn \<times> string) list"

definition tunnel_user :: "ssh_tunnel \<Rightarrow> string" where
  "tunnel_user t = ''cf:'' @ tunApp t @ ''/0''"

definition connect_once ::
  "('k, 'n) ssh_lib \<Rightarrow> ssh_tunnel \<Rightarrow> forward \<Rightarrow> ('k, 'n) ssh_st \<Rightarrow> gerror option \<times> ('k, 'n) ssh_st" where
  "connect_once lib t fwd s =
     (case lib_password lib (sshNet s) of
        (password, n1) \<Rightarrow>
          (case lib_dial lib (tunAddr t) (tunnel_user t) password
                  (host_key_callback (lib_sha256 lib) (lib_md5 lib) (lib_mismatch lib) (tunHostKey t)) n1 of
             (Inl err, n2) \<Rightarrow>
               (Some (ErrorString (''error dialing ssh: '' @ error_text err @ nl)), s\<lparr>sshNet := n2\<rparr>)
           | (Inr conn, n2) \<Rightarrow>
               let s2 = s\<lparr>sshOpen := sshOpen s @ [conn]\<rparr>
               in case lib_remote lib conn (RemoteAddr fwd) n2 of
                    (Some err, n3) \<Rightarrow> (Some err, s2\<lparr>sshNet := n3\<rparr>)
                  | (None, n3) \<Rightarrow>
                      (None, s2\<lparr>sshNet := n3, copies := copies s @ [(conn, RemoteAddr fwd)]\<rparr>)))"

definition ssh_sleep :: "('k, 'n) ssh_lib \<Rightarrow> int \<Rightarrow> ('k, 'n) ssh_st \<Rightarrow> ('k, 'n) ssh_st" where
  "ssh_sleep lib t s = s\<lparr>sshNet := lib_sleep lib t (sshNet s)\<rparr>"

text \<open>The result for one accepted connection: proxied, or closed with the last error.\<close>

definition handle_conn ::
  "('k, 'n) ssh_lib \<Rightarrow> ssh_tunnel \<Rightarrow> forward \<Rightarrow> ('k, 'n) ssh_st \<Rightarrow> gerror option \<times> ('k, 'n) ssh_st" where
  "handle_conn lib t fwd s = Retry (connect_once lib t fwd) (ssh_sleep lib) s"

text \<open>
  The accept loop: each accepted connection is handled before the next one is accepted; a failed
  accept is stored as \<open>shutdownErr\<close> and ends the loop. The list of results says for each accepted
  connection whether it is proxied.
\<close>

datatype accept_event = Accepted | AcceptFailed gerror

fun accept_loop ::
  "('k, 'n) ssh_lib \<Rightarrow> ssh_tunnel \<Rightarrow> forward \<Rightarrow> accept_event list \<Rightarrow> ('k, 'n) ssh_st
     \<Rightarrow> (bool list \<times> gerror option) \<times> ('k, 'n) ssh_st" where
  "accept_loop lib t fwd [] s = (([], None), s)"
| "accept_loop lib t fwd (AcceptFailed err # evs) s = (([], Some err), s)"
| "accept_loop lib t fwd (Accepted # evs) s =
     (case handle_conn lib t fwd s of
        (err, s1) \<Rightarrow>
          (case accept_loop lib t fwd evs s1 of
             ((results, stop), s2) \<Rightarrow> (((err = None) # results, stop), s2)))"

section \<open>What a connection can do\<close>

lemma connect_once_effect:
  assumes "connect_once lib t fwd s = (r, s')"
  shows "(r = None \<and> (\<exists>conn n1 n2 password. sshOpen s' = sshOpen s @ [conn]
            \<and> copies s' = copies s @ [(conn, RemoteAddr fwd)]
            \<and> lib_dial lib (tunAddr t) (tunnel_user t) password
                (host_key_callback (lib_sha256 lib) (lib_md5 lib) (lib_mismatch lib) (tunHostKey t)) n1
              = (Inr conn, n2)))
      \<or> (r \<noteq> None \<and> copies s' = copies s \<and> (\<exists>cs. sshOpen s' = sshOpen s @ cs \<and> length cs \<le> 1))"
proof -
  obtain password n1 where p: "lib_password lib (sshNet s) = (password, n1)" by fastforce
  obtain x n2 where d: "lib_dial lib (tunAddr t) (tunnel_user t) password
      (host_key_callback (lib_sha256 lib) (lib_md5 lib) (lib_mismatch lib) (tunHostKey t)) n1
    = (x, n2)" by fastforce
  show ?thesis
  proof (cases x)
    case (Inl err)
    with assms p d show ?thesis by (auto simp: connect_once_def)
  next
    case (Inr conn)
    obtain y n3 where r: "lib_remote lib conn (RemoteAddr fwd) n2 = (y, n3)" by fastforce
    show ?thesis
    proof (cases y)
      case None
      with assms p d r Inr have "r = None" "sshOpen s' = sshOpen s @ [conn]"
        "copies s' = copies s @ [(conn, RemoteAddr fwd)]"
        by (auto simp: connect_once_def Let_def)
      with d Inr show ?thesis by blast
    next
      case (Some err)
      with assms p d r Inr show ?thesis by (auto simp: connect_once_def Let_def)
    qed
  qed
qed

text \<open>
  A predicate on the connections made is kept by every retry if one attempt keeps it; so is a
  bound that grows with the attempts.
\<close>

lemma retry_attempt_state:
  assumes "retry_attempt fn sleep i s = (x, s')"
  obtains r s1 where "fn s = (r, s1)" and "x = None \<Longrightarrow> r \<noteq> None \<and> s' = sleep 500 s1"
    and "x \<noteq> None \<Longrightarrow> x = Some r \<and> s' = s1"
  using assms by (auto simp: retry_attempt_def split: prod.splits option.splits if_splits)

lemma handle_conn_run:
  assumes "handle_conn lib t fwd s = (r, s')"
  shows "(\<exists>cs. sshOpen s' = sshOpen s @ cs \<and> length cs \<le> 11
            \<and> (r = None \<longrightarrow> (\<exists>conn n1 n2 password. copies s' = copies s @ [(conn, RemoteAddr fwd)]
              \<and> conn \<in> set cs
              \<and> lib_dial lib (tunAddr t) (tunnel_user t) password
                (host_key_callback (lib_sha256 lib) (lib_md5 lib) (lib_mismatch lib) (tunHostKey t)) n1
              = (Inr conn, n2))))
      \<and> (r \<noteq> None \<longrightarrow> copies s' = copies s)"
proof -
  let ?fn = "connect_once lib t fwd" and ?att = "retry_attempt (connect_once lib t fwd) (ssh_sleep lib)"
  have und: "copies s1 = copies s \<and> (\<exists>cs. sshOpen s1 = sshOpen s @ cs \<and> length cs \<le> k)"
    if "undecided ?att n k s = Some s1" for n k s s1
    using that
  proof (induction k arbitrary: n s)
    case (Suc k)
    then obtain s2 where a: "?att n s = (None, s2)" and u: "undecided ?att (Suc n) k s2 = Some s1"
      by (auto split: prod.splits option.splits)
    from a obtain x s3 where "?fn s = (x, s3)" "x \<noteq> None" "s2 = ssh_sleep lib 500 s3"
      by (elim retry_attempt_state) auto
    with connect_once_effect [of lib t fwd s x s3] Suc.IH [OF u] show ?case
      by (auto simp: ssh_sleep_def)
  qed simp
  obtain k s1 x s2 where k: "k \<le> 10" "undecided ?att 0 k s = Some s1"
    and a: "?att k s1 = (Some x, s2)" and l: "retry_loop ?fn (ssh_sleep lib) 0 s = (x, s2)"
    using retry.first_decision [of 0 ?fn "ssh_sleep lib" s] by auto
  have fin: "?fn s1 = (x, s2)" using a by (elim retry_attempt_state) auto
  have e: "r = x" "s' = s2" using assms l by (simp_all add: handle_conn_def Retry_def)
  obtain cs where cs: "sshOpen s1 = sshOpen s @ cs" "length cs \<le> k" "copies s1 = copies s"
    using und [OF k(2)] by blast
  from connect_once_effect [OF fin] show ?thesis
  proof (elim disjE conjE exE)
    fix conn n1 n2 password
    assume c: "x = None" "sshOpen s2 = sshOpen s1 @ [conn]"
      "copies s2 = copies s1 @ [(conn, RemoteAddr fwd)]"
      "lib_dial lib (tunAddr t) (tunnel_user t) password
        (host_key_callback (lib_sha256 lib) (lib_md5 lib) (lib_mismatch lib) (tunHostKey t)) n1
       = (Inr conn, n2)"
    show ?thesis
      using e cs k(1) c(1-3) by (intro conjI exI [of _ "cs @ [conn]"] impI exI) (use c(4) in auto)
  next
    fix ds
    assume "x \<noteq> None" "copies s2 = copies s1" "sshOpen s2 = sshOpen s1 @ ds" "length ds \<le> 1"
    then show ?thesis using e cs k(1) by (intro conjI exI [of _ "cs @ ds"]) auto
  qed
qed

text \<open>
  Property C24: a failed attempt to reach the remote address leaves its SSH connection open: for
  one accepted connection up to eleven SSH connections are opened, none is closed, and at most
  one of them is used.
\<close>

theorem handle_conn_connections:
  "\<exists>cs. sshOpen (snd (handle_conn lib t fwd s)) = sshOpen s @ cs \<and> length cs \<le> 11
     \<and> (if fst (handle_conn lib t fwd s) = None
        then \<exists>conn \<in> set cs. copies (snd (handle_conn lib t fwd s)) = copies s @ [(conn, RemoteAddr fwd)]
        else copies (snd (handle_conn lib t fwd s)) = copies s)"
proof -
  obtain r s' where h: "handle_conn lib t fwd s = (r, s')" by fastforce
  from handle_conn_run [OF h] show ?thesis unfolding h by auto
qed

definition trusted :: "('k, 'n) ssh_lib \<Rightarrow> ssh_tunnel \<Rightarrow> forward \<Rightarrow> ('k, 'n) ssh_st \<Rightarrow> bool" where
  "trusted lib t fwd s = (\<forall>(conn, remote) \<in> set (copies s). remote = RemoteAddr fwd
    \<and> fst (checkSSHFingerprint (lib_sha256 lib) (lib_md5 lib) (connKey conn) (tunHostKey t)))"

lemma handle_conn_trusted:
  assumes "\<And>addr user pw cb n conn n'. lib_dial lib addr user pw cb n = (Inr conn, n')
      \<Longrightarrow> cb (connKey conn) = None"
    and "handle_conn lib t fwd s = (r, s')" and "trusted lib t fwd s"
  shows "trusted lib t fwd s'"
proof -
  have "fst (checkSSHFingerprint (lib_sha256 lib) (lib_md5 lib) (connKey conn) (tunHostKey t))"
    if "lib_dial lib (tunAddr t) (tunnel_user t) password
        (host_key_callback (lib_sha256 lib) (lib_md5 lib) (lib_mismatch lib) (tunHostKey t)) n1
      = (Inr conn, n2)" for password n1 conn n2
    using assms(1) [OF that] by (auto simp: host_key_callback_def split: prod.splits if_splits)
  with handle_conn_run [OF assms(2)] assms(3) show ?thesis
    by (cases r) (auto simp: trusted_def)
qed

lemma accept_loop_trusted:
  assumes "\<And>addr user pw cb n conn n'. lib_dial lib addr user pw cb n = (Inr conn, n')
      \<Longrightarrow> cb (connKey conn) = None"
    and "accept_loop lib t fwd evs s = (res, s')" and "trusted lib t fwd s"
  shows "trusted lib t fwd s'"
  using assms(2,3)
proof (induction evs arbitrary: s res)
  case (Cons ev evs)
  show ?case
  proof (cases ev)
    case Accepted
    obtain err s1 where h: "handle_conn lib t fwd s = (err, s1)" by fastforce
    obtain res1 s2 where l: "accept_loop lib t fwd evs s1 = (res1, s2)" by fastforce
    have "trusted lib t fwd s1" using assms(1) h Cons.prems(2) by (rule handle_conn_trusted)
    moreover have "s' = s2" using Cons.prems(1) Accepted h l by (auto split: prod.splits)
    ultimately show ?thesis using Cons.IH l by blast
  next
    case (AcceptFailed err)
    with Cons.prems show ?thesis by simp
  qed
qed simp

text \<open>
  Property C23: no data goes to a server whose host key was not checked: whatever connections are
  accepted, every proxied pair uses a connection whose server proved a key that the fingerprint
  check accepts. The library's part is the hypothesis: a dial that succeeds has shown the
  server's key to the callback, which accepted it.
\<close>

theorem proxied_connections_trusted:
  assumes "\<And>addr user pw cb n conn n'. lib_dial lib addr user pw cb n = (Inr conn, n')
      \<Longrightarrow> cb (connKey conn) = None"
    and "accept_loop lib t fwd evs \<lparr>sshNet = n, sshOpen = [], copies = []\<rparr> = (res, s')"
    and "(conn, remote) \<in> set (copies s')"
  shows "fst (checkSSHFingerprint (lib_sha256 lib) (lib_md5 lib) (connKey conn) (tunHostKey t))
    \<and> remote = RemoteAddr fwd"
proof -
  have "trusted lib t fwd s'"
    using assms(1,2) by (rule accept_loop_trusted) (simp_all add: trusted_def)
  with assms(3) show ?thesis by (auto simp: trusted_def)
qed

text \<open>A server with one key, for the witness.\<close>

definition demo_lib :: "(string, nat) ssh_lib" where
  "demo_lib = \<lparr>lib_password = (\<lambda>n. (''code'', Suc n)),
     lib_dial = (\<lambda>addr user pw cb n. case cb ''key'' of
        Some e \<Rightarrow> (Inl e, n) | None \<Rightarrow> (Inr \<lparr>connKey = ''key'', connUser = user, connServer = addr\<rparr>, n)),
     lib_remote = (\<lambda>conn addr n. (None, n)), lib_sleep = (\<lambda>t n. n),
     lib_sha256 = (\<lambda>k. ''SHA256:'' @ k), lib_md5 = (\<lambda>k. ''aa:bb''), lib_mismatch = (\<lambda>a b. a)\<rparr>"

theorem proxied_connections_trusted_witness:
  "\<exists>res s' conn remote. accept_loop demo_lib (new_ssh_tunnel ''guid'' ''ssh:2222'' ''aa:bb'' [])
      \<lparr>LocalPort = 7080, TLSTunnelPort = 0, RemoteAddr = ''db:5432''\<rparr> [Accepted]
      \<lparr>sshNet = 0, sshOpen = [], copies = []\<rparr> = (res, s')
    \<and> (conn, remote) \<in> set (copies s') \<and> remote = ''db:5432''"
proof -
  let ?t = "new_ssh_tunnel ''guid'' ''ssh:2222'' ''aa:bb'' []"
  let ?f = "\<lparr>LocalPort = 7080, TLSTunnelPort = 0, RemoteAddr = ''db:5432''\<rparr>"
  let ?s = "\<lparr>sshNet = 0, sshOpen = [], copies = []\<rparr>"
  have lib: "cb (connKey conn) = None"
    if "lib_dial demo_lib addr user pw cb n = (Inr conn, n')" for addr user pw cb n conn n'
    using that by (auto simp: demo_lib_def split: option.splits)
  have chk: "fst (checkSSHFingerprint (lib_sha256 demo_lib) (lib_md5 demo_lib) ''key'' ''aa:bb'')"
    by code_simp
  have cb: "host_key_callback (lib_sha256 demo_lib) (lib_md5 demo_lib) m ''aa:bb'' ''key'' = None" for m
    using chk by (auto simp: host_key_callback_def split: prod.split)
  obtain res s' where a: "accept_loop demo_lib ?t ?f [Accepted] ?s = (res, s')" by fastforce
  have once: "\<exists>conn s1. connect_once demo_lib ?t ?f ?s = (None, s1) \<and> copies s1 = [(conn, ''db:5432'')]"
    using cb [of "\<lambda>a b. a"] by (simp add: connect_once_def demo_lib_def new_ssh_tunnel_def Let_def)
  then obtain conn where c: "(conn, ''db:5432'') \<in> set (copies s')"
    using a by (auto simp: handle_conn_def Retry_def retry_loop.simps Let_def)
  have "fst (checkSSHFingerprint (lib_sha256 demo_lib) (lib_md5 demo_lib) (connKey conn) (tunHostKey ?t))
      \<and> ''db:5432'' = RemoteAddr ?f"
    by (rule proxied_connections_trusted [OF _ a c]) (rule lib)
  with a c show ?thesis by blast
qed

end
