(* ===== verification/Shutdown.thy ===== *)
theory Shutdown
  imports SshTunnel
begin

text \<open>
  The end of an SSH tunnel (ssh/tunnel.go): how \<open>Start\<close>, \<open>Stop\<close>, the accept loops and the
  goroutine of \<open>WaitChan\<close> act on the shutdown channel and the shutdown error, in any order.
\<close>

section \<open>State\<close>

text \<open>
  Each \<open>Start\<close> that succeeds makes a new channel, numbered in the order they are made; \<open>current\<close> is
  \<open>shutdownChan\<close> and \<open>closed\<close> the channels that \<open>Stop\<close> closed. \<open>loops\<close> are the listeners whose
  accept loop still runs. The goroutine of \<open>WaitChan\<close> reads the field \<open>shutdownChan\<close> first: on nil it
  blocks for good; then it waits for the close, reads the error, clears it and sends it.
\<close>

datatype waiter = Begun | On_nil | Waiting nat | Has_read "gerror option" | Sending "gerror option"
  | Sent "gerror option"

record shut_st =
  tun :: tun_st
  current :: "nat option"
  made :: nat
  closed :: "nat set"
  loops :: "string list"
  shutdownErr :: "gerror option"
  waiter :: waiter

definition shut_init :: "tun_st \<Rightarrow> shut_st" where
  "shut_init tm = \<lparr>tun = tm, current = None, made = 0, closed = {}, loops = [], shutdownErr = None,
     waiter = Begun\<rparr>"

text \<open>The listeners a \<open>Start\<close> adds get an accept loop each, also if it fails at a later one.\<close>

definition new_listeners :: "tun_st \<Rightarrow> tun_st \<Rightarrow> string list" where
  "new_listeners before after = drop (length (listeners (fst before))) (listeners (fst after))"

inductive shut_step :: "shut_st \<Rightarrow> shut_st \<Rightarrow> bool" where
  start: "ssh_Start (tun s) = (Ok (), tm) \<Longrightarrow>
    shut_step s (s\<lparr>tun := tm, current := Some (made s), made := Suc (made s),
                   loops := loops s @ new_listeners (tun s) tm\<rparr>)"
| start_fails: "ssh_Start (tun s) = (Err e, tm) \<Longrightarrow>
    shut_step s (s\<lparr>tun := tm, loops := loops s @ new_listeners (tun s) tm\<rparr>)"
| stop: "ssh_Stop (tun s) = (r, tm) \<Longrightarrow>
    shut_step s (s\<lparr>tun := tm, current := None,
                   closed := (case current s of None \<Rightarrow> closed s | Some c \<Rightarrow> insert c (closed s))\<rparr>)"
| accept_fails: "l \<in> set (loops s) \<Longrightarrow>
    shut_step s (s\<lparr>loops := remove1 l (loops s), shutdownErr := Some e\<rparr>)"

inductive wait_step :: "shut_st \<Rightarrow> shut_st \<Rightarrow> bool" where
  begin_nil: "waiter s = Begun \<Longrightarrow> current s = None \<Longrightarrow> wait_step s (s\<lparr>waiter := On_nil\<rparr>)"
| begin_wait: "waiter s = Begun \<Longrightarrow> current s = Some c \<Longrightarrow> wait_step s (s\<lparr>waiter := Waiting c\<rparr>)"
| wake: "waiter s = Waiting c \<Longrightarrow> c \<in> closed s \<Longrightarrow> wait_step s (s\<lparr>waiter := Has_read (shutdownErr s)\<rparr>)"
| clear: "waiter s = Has_read e \<Longrightarrow> wait_step s (s\<lparr>shutdownErr := None, waiter := Sending e\<rparr>)"
| deliver: "waiter s = Sending e \<Longrightarrow> wait_step s (s\<lparr>waiter := Sent e\<rparr>)"

inductive_cases shut_stepE: "shut_step s s'"
inductive_cases wait_stepE: "wait_step s s'"

inductive_simps wait_step_Waiting: "wait_step (s\<lparr>waiter := Waiting c\<rparr>) s'"

abbreviation tunnel_step :: "shut_st \<Rightarrow> shut_st \<Rightarrow> bool" where
  "tunnel_step s s' \<equiv> shut_step s s' \<or> wait_step s s'"

section \<open>Invariant\<close>

text \<open>What a waiter past its first step knows: the channel it waits for was made, and it is past the wait only if closed.\<close>

definition woken :: "waiter \<Rightarrow> bool" where
  "woken w = (case w of Has_read e \<Rightarrow> True | Sending e \<Rightarrow> True | Sent e \<Rightarrow> True | _ \<Rightarrow> False)"

definition shut_inv :: "shut_st \<Rightarrow> bool" where
  "shut_inv s = ((current s \<noteq> None \<longleftrightarrow> running (fst (tun s)))
     \<and> (\<forall>c. current s = Some c \<longrightarrow> c < made s \<and> c \<notin> closed s)
     \<and> (\<forall>c \<in> closed s. c < made s)
     \<and> (\<forall>c. waiter s = Waiting c \<longrightarrow> c \<in> closed s \<or> current s = Some c)
     \<and> (woken (waiter s) \<longrightarrow> closed s \<noteq> {}))"

lemma Start_running:
  assumes "ssh_Start tm = (r, tm')"
  shows "r = Ok () \<longrightarrow> \<not> running (fst tm) \<and> running (fst tm')" "r \<noteq> Ok () \<longrightarrow> running (fst tm') = running (fst tm)"
proof -
  have fwd: "running (fst tm2) = running (fst tm1)" if "for_each ssh_forward fwds tm1 = (r', tm2)" for fwds tm1 r' tm2
    using that
  proof (induction fwds arbitrary: tm1)
    case (Cons f fwds)
    obtain r1 tm3 where 1: "ssh_forward f tm1 = (r1, tm3)" by (metis prod.exhaust)
    then have "running (fst tm3) = running (fst tm1)"
      by (cases tm1) (auto simp: ssh_forward_def split: prod.splits outcome.splits)
    with 1 Cons show ?case by (cases r1) (auto simp: seq_def)
  qed (simp add: ret_def)
  show "r = Ok () \<longrightarrow> \<not> running (fst tm) \<and> running (fst tm')" "r \<noteq> Ok () \<longrightarrow> running (fst tm') = running (fst tm)"
    using assms fwd [of "tunForwards (fst tm)" tm]
    by (auto simp: ssh_Start_def act_defs split: if_splits prod.splits outcome.splits)
qed

lemma Stop_running: "ssh_Stop tm = (r, tm') \<Longrightarrow> \<not> running (fst tm')"
  by (auto simp: ssh_Stop_def upd_def split: prod.splits if_splits)

lemma shut_inv_step:
  assumes "shut_step s s'" and "shut_inv s"
  shows "shut_inv s'"
  using assms(1)
proof cases
  case (start tm)
  with assms(2) Start_running [OF start(2)] show ?thesis
    unfolding shut_inv_def by (auto simp: less_Suc_eq)
next
  case (start_fails e tm)
  with assms(2) Start_running [OF start_fails(2)] show ?thesis unfolding shut_inv_def by simp
next
  case (stop r tm)
  with assms(2) Stop_running [OF stop(2)] show ?thesis
    unfolding shut_inv_def by (auto split: option.splits)
next
  case (accept_fails l e)
  with assms(2) show ?thesis unfolding shut_inv_def by simp
qed

lemma wait_inv_step: "wait_step s s' \<Longrightarrow> shut_inv s \<Longrightarrow> shut_inv s'"
  by (erule wait_stepE) (auto simp: shut_inv_def woken_def)

lemma shut_inv_reachable: "tunnel_step\<^sup>*\<^sup>* s s' \<Longrightarrow> shut_inv s \<Longrightarrow> shut_inv s'"
  by (induction rule: rtranclp_induct) (auto intro: shut_inv_step wait_inv_step)

section \<open>When the waiter reports\<close>

lemma waiting_silent:
  assumes "wait_step\<^sup>*\<^sup>* s s'" and "waiter s = Waiting c" and "c \<notin> closed s"
  shows "s' = s"
  using assms by (induction rule: rtranclp_induct) (auto elim: wait_stepE)

lemma waiting_reports:
  assumes "waiter s = Waiting c" and "c \<in> closed s"
  shows "wait_step\<^sup>*\<^sup>* s (s\<lparr>shutdownErr := None, waiter := Sent (shutdownErr s)\<rparr>)"
proof -
  let ?s1 = "s\<lparr>waiter := Has_read (shutdownErr s)\<rparr>"
  let ?s2 = "s\<lparr>shutdownErr := None, waiter := Sending (shutdownErr s)\<rparr>"
  have "wait_step s ?s1" using assms by (rule wait_step.wake)
  moreover have "wait_step ?s1 ?s2" using wait_step.clear [of ?s1] by simp
  moreover have "wait_step ?s2 (s\<lparr>shutdownErr := None, waiter := Sent (shutdownErr s)\<rparr>)"
    using wait_step.deliver [of ?s2] by simp
  ultimately show ?thesis by (meson converse_rtranclp_into_rtranclp rtranclp.rtrancl_refl)
qed

lemma nil_blocks: "tunnel_step\<^sup>*\<^sup>* s s' \<Longrightarrow> waiter s = On_nil \<Longrightarrow> waiter s' = On_nil"
  by (induction rule: rtranclp_induct) (auto elim!: shut_stepE wait_stepE)



end
