(* ===== verification/TlsTunnel.thy ===== *)
theory TlsTunnel
  imports Loops Machine TlsOptions
begin

text \<open>
  The TLS tunnel (tls/tunnel.go): starting and stopping its listener, the TLS configuration and
  dial of a request, and the goroutines that share the error channel as a step relation.
\<close>

section \<open>The tunnel\<close>

record tls_tunnel =
  localAddr :: string
  remoteAddr :: string
  actualAddr :: string
  listener :: "string option"
  tlsCipherSuite :: "uint16 list"
  tlsMinVersion' :: uint16
  tlsInsecure' :: bool

definition tls_NewTunnel ::
  "string \<Rightarrow> string \<Rightarrow> string \<Rightarrow> bool \<Rightarrow> uint16 list \<Rightarrow> uint16 \<Rightarrow> tls_tunnel" where
  "tls_NewTunnel laddr raddr aaddr insec suites minver =
     \<lparr>localAddr = laddr, remoteAddr = raddr, actualAddr = aaddr, listener = None,
      tlsCipherSuite = suites, tlsMinVersion' = minver, tlsInsecure' = insec\<rparr>"

definition tls_Start :: "(tls_tunnel \<times> machine, unit) act" where
  "tls_Start = (\<lambda>(t, m).
     case Listen (localAddr t) m of
       (Ok a, m1) \<Rightarrow> (Ok (), (t\<lparr>listener := Some a\<rparr>, m1))
     | (Err e, m1) \<Rightarrow>
         (Err (ErrorString (''starting a TLS tunnel failed: '' @ error_text e)), (t\<lparr>listener := None\<rparr>, m1))
     | (Panic p, m1) \<Rightarrow> (Panic p, (t, m1)))"

definition tls_Stop :: "tls_tunnel \<Rightarrow> (machine, unit) act" where
  "tls_Stop t = (case listener t of None \<Rightarrow> panic nil_deref | Some a \<Rightarrow> Close a)"

section \<open>A request\<close>

text \<open>
  The configuration of the TLS client: the server name, the roots to trust (the system's, if
  none are given), whether the certificate is checked, suites and version.
\<close>

record 'c tls_request =
  reqServerName :: string
  reqRoots :: "'c list option"
  reqInsecure :: bool
  reqSuites :: "uint16 list"
  reqMinVersion :: uint16

text \<open>
  \<open>darwin\<close> is \<open>runtime.GOOS == "darwin"\<close>, \<open>pem\<close> is the certificate file if it can be found, and
  \<open>roots\<close> is \<open>util.GetRootCAs(nil)\<close>.
\<close>

definition request_config ::
  "bool \<Rightarrow> bool \<Rightarrow> gerror + 'c list \<Rightarrow> tls_tunnel \<Rightarrow> gerror + 'c tls_request" where
  "request_config darwin pem roots t =
     (let name = hd (split_on CHR '':'' (actualAddr t))
      in if darwin \<and> pem \<and> \<not> tlsInsecure' t
         then (case roots of
                 Inl e \<Rightarrow> Inl e
               | Inr cas \<Rightarrow> Inr \<lparr>reqServerName = name, reqRoots = Some cas, reqInsecure = False,
                   reqSuites = tlsCipherSuite t, reqMinVersion = tlsMinVersion' t\<rparr>)
         else Inr \<lparr>reqServerName = name, reqRoots = None, reqInsecure = tlsInsecure' t,
                reqSuites = tlsCipherSuite t, reqMinVersion = tlsMinVersion' t\<rparr>)"

text \<open>
  \<open>handleRequest\<close>: the error it returns, or nothing once two goroutines copy the data. The text
  of a failed dial ends in the three letters \<open>err\<close>, not in the error. \<open>dial\<close> is \<open>tls.Dial\<close>.
\<close>

definition handleRequest ::
  "bool \<Rightarrow> bool \<Rightarrow> gerror + 'c list \<Rightarrow> (string \<Rightarrow> 'c tls_request \<Rightarrow> 'n \<Rightarrow> gerror option \<times> 'n)
     \<Rightarrow> tls_tunnel \<Rightarrow> 'n \<Rightarrow> gerror option \<times> 'n" where
  "handleRequest darwin pem roots dial t n =
     (case request_config darwin pem roots t of
        Inl err \<Rightarrow> (Some err, n)
      | Inr cfg \<Rightarrow>
          (case dial (remoteAddr t) cfg n of
             (Some err, n1) \<Rightarrow>
               (Some (ErrorString (''failed to connect to '' @ remoteAddr t @ '': '' @ ''err'')), n1)
           | (None, n1) \<Rightarrow> (None, n1)))"

section \<open>The goroutines and the error channel\<close>

text \<open>
  \<open>run\<close> accepts connections and serves each in a goroutine; all of them send their errors into
  \<open>errorChan\<close>, which holds eight values. The program never receives from it: \<open>Start\<close> returns it
  and its only caller drops it. \<open>acceptor\<close> is the error the accept loop is blocked on, \<open>stuck\<close>
  those of the other goroutines, \<open>served\<close> the number of connections accepted.
\<close>

record run_st =
  errorChan :: "gerror list"
  acceptor :: "gerror option"
  stuck :: "gerror list"
  served :: nat

definition run_init :: run_st where
  "run_init = \<lparr>errorChan = [], acceptor = None, stuck = [], served = 0\<rparr>"

definition chan_cap :: nat where
  "chan_cap = 8"

definition accept_error :: "gerror \<Rightarrow> gerror" where
  "accept_error err = ErrorString (''error accepting TLS connection: '' @ error_text err)"

inductive run_step :: "run_st \<Rightarrow> run_st \<Rightarrow> bool" where
  accept: "acceptor s = None \<Longrightarrow> run_step s (s\<lparr>served := Suc (served s)\<rparr>)"
| accept_fails: "acceptor s = None \<Longrightarrow> length (errorChan s) < chan_cap \<Longrightarrow>
    run_step s (s\<lparr>errorChan := errorChan s @ [accept_error err]\<rparr>)"
| accept_blocks: "acceptor s = None \<Longrightarrow> chan_cap \<le> length (errorChan s) \<Longrightarrow>
    run_step s (s\<lparr>acceptor := Some (accept_error err)\<rparr>)"
| request_fails: "length (errorChan s) < chan_cap \<Longrightarrow>
    run_step s (s\<lparr>errorChan := errorChan s @ [err]\<rparr>)"
| request_blocks: "chan_cap \<le> length (errorChan s) \<Longrightarrow>
    run_step s (s\<lparr>stuck := stuck s @ [err]\<rparr>)"

inductive_cases run_stepE: "run_step s s'"

definition run_inv :: "run_st \<Rightarrow> bool" where
  "run_inv s = (length (errorChan s) \<le> chan_cap
     \<and> ((acceptor s = None \<and> stuck s = []) \<or> length (errorChan s) = chan_cap))"

lemma run_inv_step: "run_step s s' \<Longrightarrow> run_inv s \<Longrightarrow> run_inv s'"
  by (erule run_stepE) (auto simp: run_inv_def)

lemma run_inv_reachable: "run_step\<^sup>*\<^sup>* s s' \<Longrightarrow> run_inv s \<Longrightarrow> run_inv s'"
  by (induction rule: rtranclp_induct) (auto intro: run_inv_step)

lemma acceptor_blocked_step:
  "run_step s s' \<Longrightarrow> acceptor s = Some e \<Longrightarrow> acceptor s' = Some e \<and> served s' = served s"
  by (erule run_stepE) auto

text \<open>
  Property C30: the error channel is a dead end: no goroutine of the tunnel ever waits unless eight
  errors lie in the channel, and once the accept loop waits it waits for good, so the tunnel
  never serves another connection.
\<close>

theorem tls_run_stalls:
  assumes "run_step\<^sup>*\<^sup>* run_init s" and "run_step\<^sup>*\<^sup>* s s'"
  shows "length (errorChan s) \<le> 8
    \<and> (acceptor s = None \<and> stuck s = [] \<or> length (errorChan s) = 8)
    \<and> (case acceptor s of None \<Rightarrow> True | Some e \<Rightarrow> acceptor s' = Some e \<and> served s' = served s)"
proof -
  have "run_inv run_init" by (simp add: run_inv_def run_init_def chan_cap_def)
  then have "run_inv s" by (rule run_inv_reachable [OF assms(1)])
  moreover have "acceptor s' = Some e \<and> served s' = served s" if "acceptor s = Some e" for e
    using assms(2) that by (induction rule: rtranclp_induct) (auto dest: acceptor_blocked_step)
  ultimately show ?thesis by (auto simp: run_inv_def chan_cap_def split: option.split)
qed

text \<open>Nine failing accepts, which is what a stopped listener gives, block the loop.\<close>

lemma failing_accepts:
  assumes "n \<le> 8"
  shows "run_step\<^sup>*\<^sup>* run_init (run_init\<lparr>errorChan := replicate n (accept_error err)\<rparr>)"
  using assms
proof (induction n)
  case 0
  then show ?case by (simp add: run_init_def)
next
  case (Suc n)
  let ?s = "run_init\<lparr>errorChan := replicate n (accept_error err)\<rparr>"
  have "run_step ?s (?s\<lparr>errorChan := errorChan ?s @ [accept_error err]\<rparr>)"
    using Suc.prems by (intro run_step.accept_fails) (simp_all add: run_init_def chan_cap_def)
  then have "run_step ?s (run_init\<lparr>errorChan := replicate (Suc n) (accept_error err)\<rparr>)"
    by (simp add: replicate_append_same)
  with Suc show ?case by (meson Suc_leD rtranclp.rtrancl_into_rtrancl)
qed

theorem tls_run_stalls_witness:
  "\<exists>s e. run_step\<^sup>*\<^sup>* run_init s \<and> acceptor s = Some e \<and> length (errorChan s) = 8
     \<and> (\<forall>s'. run_step s s' \<longrightarrow> served s' = served s)"
proof -
  let ?err = "ErrorString ''closed''"
  let ?s = "run_init\<lparr>errorChan := replicate 8 (accept_error ?err)\<rparr>"
  let ?b = "?s\<lparr>acceptor := Some (accept_error ?err)\<rparr>"
  have "run_step ?s ?b"
    by (intro run_step.accept_blocks) (simp_all add: run_init_def chan_cap_def)
  with failing_accepts [of 8 ?err] have r: "run_step\<^sup>*\<^sup>* run_init ?b"
    by (meson order_refl rtranclp.rtrancl_into_rtrancl)
  have "served s' = served ?b" if "run_step ?b s'" for s'
    using tls_run_stalls [OF r r_into_rtranclp [of run_step, OF that]] by simp
  with r tls_run_stalls [OF r rtranclp.rtrancl_refl] show ?thesis
    by (intro exI [of _ ?b] exI [of _ "accept_error ?err"]) simp
qed



end
