(* ===== verification/Proxying.thy ===== *)
theory Proxying
  imports SshConnections TlsTunnel
begin

text \<open>
  The data phase of a connection (ssh/tunnel.go, tls/tunnel.go): the copying goroutines of both
  tunnels and the keepalive requests of an SSH connection.
\<close>

section \<open>io.Copy\<close>

text \<open>
  \<open>io.Copy\<close> reads until the end of the stream, which is not an error, or until a read or a write
  fails. What the source gives is a list of reads, with the end of the list for the end of the
  stream; the destination is a parameter with its own state.
\<close>

datatype io_error = EOF | IOErr string

datatype chunk = Data string | ReadErr io_error

fun io_copy :: "(string \<Rightarrow> 'n \<Rightarrow> io_error option \<times> 'n) \<Rightarrow> chunk list \<Rightarrow> 'n \<Rightarrow> io_error option \<times> 'n" where
  "io_copy sink [] n = (None, n)"
| "io_copy sink (ReadErr e # src) n = (if e = EOF then None else Some e, n)"
| "io_copy sink (Data d # src) n =
     (case sink d n of (None, n') \<Rightarrow> io_copy sink src n' | (Some e, n') \<Rightarrow> (Some e, n'))"

text \<open>
  \<open>copyConn\<close> of the SSH tunnel, with the lines it prints without \<open>--verbose\<close>. Neither connection is
  closed at the end.
\<close>

definition copyConn ::
  "(string \<Rightarrow> 'n \<Rightarrow> io_error option \<times> 'n) \<Rightarrow> chunk list \<Rightarrow> 'n \<Rightarrow> string list \<times> 'n" where
  "copyConn sink src n =
     (case io_copy sink src n of
        (None, n') \<Rightarrow> ([], n')
      | (Some EOF, n') \<Rightarrow> ([], n')
      | (Some (IOErr t), n') \<Rightarrow> ([sprintln [''io.Copy error'', t]], n'))"

text \<open>\<open>forward\<close> of the TLS tunnel, with the error it sends into the error channel.\<close>

definition tls_forward ::
  "(string \<Rightarrow> 'n \<Rightarrow> io_error option \<times> 'n) \<Rightarrow> chunk list \<Rightarrow> 'n \<Rightarrow> gerror option \<times> 'n" where
  "tls_forward sink src n =
     (case io_copy sink src n of
        (None, n') \<Rightarrow> (None, n')
      | (Some EOF, n') \<Rightarrow> (None, n')
      | (Some (IOErr t), n') \<Rightarrow> (Some (ErrorString (''failed to send data: '' @ t)), n'))"

section \<open>Keepalive\<close>

text \<open>
  \<open>startKeepalive\<close>: one request per tick, until one fails. The argument is what the requests
  sent one after the other give; the result is how many were sent and whether it still runs.
\<close>

fun startKeepalive :: "gerror option list \<Rightarrow> nat \<times> bool" where
  "startKeepalive [] = (0, True)"
| "startKeepalive (None # replies) = (case startKeepalive replies of (n, r) \<Rightarrow> (Suc n, r))"
| "startKeepalive (Some e # replies) = (1, False)"

lemma startKeepalive_count:
  "startKeepalive replies =
     (if None \<noteq> hd (dropWhile (\<lambda>r. r = None) replies @ [None])
      then (Suc (length (takeWhile (\<lambda>r. r = None) replies)), False)
      else (length replies, True))"
  by (induction replies rule: startKeepalive.induct) auto

section \<open>What arrives\<close>

text \<open>The data of a source up to its end or its first error.\<close>

fun readable :: "chunk list \<Rightarrow> string" where
  "readable (Data d # src) = d @ readable src"
| "readable _ = []"

lemma io_copy_prefix:
  assumes law: "\<And>d n r n'. sink d n = (r, n') \<Longrightarrow>
      \<exists>p rest. d = p @ rest \<and> out n' = out n @ p \<and> (r = None \<longrightarrow> rest = [])"
    and run: "io_copy sink src n = (r, n')"
  shows "\<exists>p rest. readable src = p @ rest \<and> out n' = out n @ p \<and> (r = None \<longrightarrow> rest = [])"
  using run
proof (induction src arbitrary: n)
  case (Cons x src)
  show ?case
  proof (cases x)
    case (Data d)
    obtain w n1 where w: "sink d n = (w, n1)" by fastforce
    from law [OF w] obtain p rest where p: "d = p @ rest" "out n1 = out n @ p" "w = None \<longrightarrow> rest = []"
      by blast
    show ?thesis
    proof (cases w)
      case None
      with Cons.prems Data w have "io_copy sink src n1 = (r, n')" by simp
      from Cons.IH [OF this] p None Data show ?thesis by auto
    next
      case (Some e)
      with Cons.prems Data w p show ?thesis by auto
    qed
  next
    case (ReadErr e)
    with Cons.prems show ?thesis by auto
  qed
qed simp



end
