(* ===== verification/GoValue.thy ===== *)
theory GoValue
  imports GoStrings
begin

text \<open>
  The values an \<open>interface{}\<close> holds after \<open>json.Unmarshal\<close>, their rendering by \<open>%v\<close>, and
  the JSON that \<open>json.Marshal\<close> writes for them.
\<close>

section \<open>Values\<close>

text \<open>
  A finite float64 is kept as strconv prints it: its sign, the shortest decimal digits that
  identify it, and the position \<open>dp\<close> of the decimal point, so that it is
  \<open>0.d1 d2 \<dots> * 10 ^ dp\<close>. Zero has no digits and \<open>dp = 0\<close>.
\<close>

datatype gval =
    GNil
  | GBool bool
  | GNum bool "int list" int
  | GStr string
  | GList "gval list"
  | GMap "(string \<times> gval) list"

text \<open>The number an integer literal of a JSON text denotes, below \<open>2 ^ 53\<close>.\<close>

function strip_zeros :: "int list \<Rightarrow> int list" where
  "strip_zeros ds = (if ds \<noteq> [] \<and> last ds = 0 then strip_zeros (butlast ds) else ds)"
  by pat_completeness auto
termination
  by (relation "measure length") auto

declare strip_zeros.simps [simp del]

definition gnum_of_int :: "int \<Rightarrow> gval" where
  "gnum_of_int n =
     (if n = 0 then GNum False [] 0
      else GNum (n < 0) (strip_zeros (dec_digits \<bar>n\<bar>)) (int (length (dec_digits \<bar>n\<bar>))))"

section \<open>Floats as text\<close>

definition digits_text :: "int list \<Rightarrow> string" where
  "digits_text ds = map digit_char ds"

text \<open>The byte at index \<open>i\<close> of the digits, 0 outside them.\<close>

definition digit_at :: "int list \<Rightarrow> int \<Rightarrow> char" where
  "digit_at ds i = (if 0 \<le> i \<and> i < int (length ds) then digit_char (ds ! nat i) else CHR ''0'')"

text \<open>\<open>strconv\<close>'s \<open>%f\<close> with \<open>prec\<close> digits after the point.\<close>

definition fmt_f :: "bool \<Rightarrow> int list \<Rightarrow> int \<Rightarrow> nat \<Rightarrow> string" where
  "fmt_f neg ds dp prec =
     (if neg then ''-'' else [])
     @ (if dp > 0 then map (digit_at ds) [0..dp - 1] else ''0'')
     @ (if prec > 0 then ''.'' @ map (\<lambda>i. digit_at ds (dp + i)) [0..int prec - 1] else [])"

text \<open>\<open>strconv\<close>'s \<open>%e\<close> with all digits: at least two digits of exponent.\<close>

definition fmt_e :: "bool \<Rightarrow> int list \<Rightarrow> int \<Rightarrow> string" where
  "fmt_e neg ds dp =
     (let e = (if ds = [] then 0 else dp - 1)
      in (if neg then ''-'' else [])
         @ [digit_at ds 0]
         @ (if length ds > 1 then ''.'' @ digits_text (tl ds) else [])
         @ ''e'' @ (if e < 0 then ''-'' else ''+'')
         @ (if \<bar>e\<bar> < 10 then ''0'' else []) @ itoa \<bar>e\<bar>)"

text \<open>\<open>%g\<close> in its shortest form: the exponent form below 1e-4 and from 1e6 on.\<close>

definition fmt_g :: "bool \<Rightarrow> int list \<Rightarrow> int \<Rightarrow> string" where
  "fmt_g neg ds dp =
     (let e = dp - 1
      in if e < -4 \<or> e \<ge> 6 then fmt_e neg ds dp
         else fmt_f neg ds dp (nat (int (length ds) - dp)))"

section \<open>The verb v\<close>

text \<open>Maps are printed with sorted keys, as package fmt does.\<close>

fun fmt_v :: "gval \<Rightarrow> string" where
  "fmt_v GNil = ''<nil>''"
| "fmt_v (GBool b) = (if b then ''true'' else ''false'')"
| "fmt_v (GNum neg ds dp) = fmt_g neg ds dp"
| "fmt_v (GStr s) = s"
| "fmt_v (GList vs) = ''['' @ join '' '' (map fmt_v vs) @ '']''"
| "fmt_v (GMap m) =
     ''map['' @ join '' '' (map (\<lambda>(k, t). k @ '':'' @ t)
                          (sort_key fst (map (\<lambda>(k, v). (k, fmt_v v)) m))) @ '']''"

section \<open>JSON text\<close>

definition hex_char :: "int \<Rightarrow> char" where
  "hex_char d = (if d < 10 then char_of (48 + d) else char_of (87 + d))"

definition byte :: "char \<Rightarrow> int" where
  "byte c = of_char c"

definition bslash :: char where
  "bslash = CHR 0x5C"

text \<open>
  The width of the UTF-8 sequence at the head of a byte string, 0 where it is no valid
  sequence (\<open>utf8.DecodeRune\<close> then reports an error of width 1).
\<close>

definition in_byte :: "int \<Rightarrow> int \<Rightarrow> string \<Rightarrow> nat \<Rightarrow> bool" where
  "in_byte lo hi s i = (i < length s \<and> lo \<le> byte (s ! i) \<and> byte (s ! i) \<le> hi)"

definition utf8_width :: "string \<Rightarrow> nat" where
  "utf8_width s =
     (let cont = in_byte 0x80 0xBF s; b0 = (\<lambda>lo hi. in_byte lo hi s 0)
      in if b0 0x00 0x7F then 1
         else if b0 0xC2 0xDF \<and> cont 1 then 2
         else if ((b0 0xE0 0xE0 \<and> in_byte 0xA0 0xBF s 1)
                  \<or> (b0 0xED 0xED \<and> in_byte 0x80 0x9F s 1)
                  \<or> ((b0 0xE1 0xEC \<or> b0 0xEE 0xEF) \<and> cont 1)) \<and> cont 2 then 3
         else if ((b0 0xF0 0xF0 \<and> in_byte 0x90 0xBF s 1)
                  \<or> (b0 0xF4 0xF4 \<and> in_byte 0x80 0x8F s 1)
                  \<or> (b0 0xF1 0xF3 \<and> cont 1)) \<and> cont 2 \<and> cont 3 then 4
         else 0)"

definition escape_ascii :: "char \<Rightarrow> string" where
  "escape_ascii c =
     (if c = CHR 0x22 \<or> c = bslash then [bslash, c]
      else if c = CHR 0x08 then bslash # ''b''
      else if c = CHR 0x0C then bslash # ''f''
      else if c = CHR 0x0A then bslash # ''n''
      else if c = CHR 0x0D then bslash # ''r''
      else if c = CHR 0x09 then bslash # ''t''
      else if byte c < 32 \<or> c = CHR ''<'' \<or> c = CHR ''>'' \<or> c = CHR ''&''
        then bslash # ''u00'' @ [hex_char (byte c div 16), hex_char (byte c mod 16)]
      else [c])"

text \<open>
  \<open>encoding/json\<close>'s string body with HTML escaping on: control bytes, quotes, backslashes
  and \<open><\<close>, \<open>>\<close>, \<open>&\<close> are escaped, an invalid byte becomes the escape of U+FFFD, and the
  line separators U+2028 and U+2029 are escaped too.
\<close>

function json_body :: "string \<Rightarrow> string" where
  "json_body [] = []"
| "json_body (c # s) =
     (if byte c < 128 then escape_ascii c @ json_body s
      else let w = utf8_width (c # s)
           in if w = 0 then bslash # ''ufffd'' @ json_body s
              else if take 3 (c # s) = [CHR 0xE2, CHR 0x80, CHR 0xA8]
                then bslash # ''u2028'' @ json_body (drop (w - 1) s)
              else if take 3 (c # s) = [CHR 0xE2, CHR 0x80, CHR 0xA9]
                then bslash # ''u2029'' @ json_body (drop (w - 1) s)
              else take w (c # s) @ json_body (drop (w - 1) s))"
  by pat_completeness auto
termination
  by (relation "measure length") auto

definition json_string :: "string \<Rightarrow> string" where
  "json_string s = [CHR 0x22] @ json_body s @ [CHR 0x22]"

text \<open>
  \<open>encoding/json\<close>'s floats: plain digits, the exponent form below 1e-6 and from 1e21 on, and a
  negative exponent of one digit loses its leading 0.
\<close>

definition json_number :: "bool \<Rightarrow> int list \<Rightarrow> int \<Rightarrow> string" where
  "json_number neg ds dp =
     (if ds \<noteq> [] \<and> (dp \<le> -6 \<or> dp \<ge> 22)
      then let t = fmt_e neg ds dp; n = length t
           in if n \<ge> 4 \<and> t ! (n - 4) = CHR ''e'' \<and> t ! (n - 3) = CHR ''-'' \<and> t ! (n - 2) = CHR ''0''
              then take (n - 2) t @ [t ! (n - 1)] else t
      else fmt_f neg ds dp (nat (int (length ds) - dp)))"

definition json_object :: "(string \<times> string) list \<Rightarrow> string" where
  "json_object fields = ''{'' @ join '','' (map (\<lambda>(k, t). json_string k @ '':'' @ t) fields) @ ''}''"

definition json_array :: "string list \<Rightarrow> string" where
  "json_array ts = ''['' @ join '','' ts @ '']''"

text \<open>Map keys are sorted.\<close>

fun json_value :: "gval \<Rightarrow> string" where
  "json_value GNil = ''null''"
| "json_value (GBool b) = (if b then ''true'' else ''false'')"
| "json_value (GNum neg ds dp) = json_number neg ds dp"
| "json_value (GStr s) = json_string s"
| "json_value (GList vs) = json_array (map json_value vs)"
| "json_value (GMap m) = json_object (sort_key fst (map (\<lambda>(k, v). (k, json_value v)) m))"

section \<open>Lemmas\<close>

lemma strip_zeros_pad: "\<exists>k. ds = strip_zeros ds @ replicate k 0"
proof (induction ds rule: strip_zeros.induct)
  case (1 ds)
  show ?case
  proof (cases "ds \<noteq> [] \<and> last ds = 0")
    case True
    then obtain k where k: "butlast ds = strip_zeros (butlast ds) @ replicate k 0"
      using "1.IH" by blast
    have "strip_zeros ds = strip_zeros (butlast ds)"
      by (subst strip_zeros.simps) (simp add: True)
    moreover have "ds = butlast ds @ [0]" using True by (metis append_butlast_last_id)
    ultimately have "ds = strip_zeros ds @ replicate (Suc k) 0"
      using k by (metis append_assoc replicate_append_same replicate_Suc)
    then show ?thesis by blast
  next
    case False
    have "strip_zeros ds = ds" by (subst strip_zeros.simps) (use False in auto)
    then show ?thesis by (auto intro: exI [of _ 0])
  qed
qed

lemma strip_zeros_length: "length (strip_zeros ds) \<le> length ds"
  using strip_zeros_pad [of ds] by (metis le_add1 length_append)

lemma digit_at_strip:
  assumes "0 \<le> i" and "i < int (length ds)"
  shows "digit_at (strip_zeros ds) i = digit_char (ds ! nat i)"
proof -
  obtain k where k: "ds = strip_zeros ds @ replicate k 0" using strip_zeros_pad by blast
  show ?thesis
  proof (cases "i < int (length (strip_zeros ds))")
    case True
    then have "ds ! nat i = strip_zeros ds ! nat i"
      using assms by (subst k) (auto simp: nth_append nat_less_iff)
    with True assms show ?thesis by (simp add: digit_at_def)
  next
    case False
    have "ds ! nat i = replicate k 0 ! (nat i - length (strip_zeros ds))"
      using assms False by (subst k) (auto simp: nth_append nat_less_iff)
    moreover have "nat i - length (strip_zeros ds) < k"
      using k assms False by (metis add_diff_inverse_nat length_append length_replicate
          nat_add_left_cancel_less nat_less_iff not_less of_nat_0_le_iff zless_nat_eq_int_zless)
    ultimately have "ds ! nat i = 0" by simp
    with False show ?thesis by (simp add: digit_at_def digit_char_0)
  qed
qed

lemma map_digit_at_strip:
  "map (digit_at (strip_zeros ds)) [0..int (length ds) - 1] = digits_text ds"
  by (rule nth_equalityI) (auto simp: digits_text_def digit_at_strip)

lemma dec_digits_length: "0 \<le> n \<Longrightarrow> n < 10 ^ k \<Longrightarrow> 0 < k \<Longrightarrow> length (dec_digits n) \<le> k"
proof (induction k arbitrary: n)
  case (Suc k)
  show ?case
  proof (cases "10 \<le> n")
    case True
    then have "k \<noteq> 0" using Suc.prems by (intro notI) simp
    moreover have "n div 10 < 10 ^ k" using Suc.prems by simp
    ultimately have "length (dec_digits (n div 10)) \<le> k" using Suc.prems by (intro Suc.IH) auto
    with True show ?thesis by (simp add: dec_digits_step)
  qed (simp add: dec_digits_less_10)
qed simp

text \<open>A JSON integer below one million prints as itself; from one million on, it does not.\<close>

lemma fmt_v_gnum_of_int:
  assumes "0 \<le> n" and "n < 1000000"
  shows "fmt_v (gnum_of_int n) = itoa n"
proof (cases "n = 0")
  case True
  then show ?thesis
    by (simp add: gnum_of_int_def fmt_g_def fmt_f_def itoa_def dec_digits_less_10 digit_char_0)
next
  case False
  let ?ds = "dec_digits n" and ?s = "strip_zeros (dec_digits n)"
  have "length ?ds \<le> 6" using assms by (intro dec_digits_length) simp_all
  moreover have "length ?ds > 0" by simp
  ultimately have "int (length ?ds) - 1 < 6" "\<not> int (length ?ds) - 1 < -4" by linarith+
  moreover have "length ?s \<le> length ?ds" by (rule strip_zeros_length)
  ultimately have "fmt_g False ?s (int (length ?ds))
      = map (digit_at ?s) [0..int (length ?ds) - 1]"
    by (simp add: fmt_g_def fmt_f_def)
  with False assms show ?thesis
    by (simp add: gnum_of_int_def map_digit_at_strip digits_text_def itoa_def)
qed

text \<open>
  Well-formed values have decimal digits; \<open>json.Unmarshal\<close> produces no others. The JSON
  of a well-formed value holds no control byte, so it fits an environment variable.
\<close>

fun wf_gval :: "gval \<Rightarrow> bool" where
  "wf_gval (GNum neg ds dp) = (\<forall>d \<in> set ds. 0 \<le> d \<and> d < 10)"
| "wf_gval (GList vs) = (\<forall>v \<in> set vs. wf_gval v)"
| "wf_gval (GMap m) = (\<forall>e \<in> set m. wf_gval (snd e))"
| "wf_gval v = True"

definition printable :: "string \<Rightarrow> bool" where
  "printable s = (\<forall>c \<in> set s. 32 \<le> byte c)"

named_theorems prints \<open>strings without control bytes\<close>

lemma printable_Nil [prints]: "printable []"
  and printable_Cons [prints]: "32 \<le> byte c \<Longrightarrow> printable s \<Longrightarrow> printable (c # s)"
  and printable_append [prints]: "printable s \<Longrightarrow> printable t \<Longrightarrow> printable (s @ t)"
  and printable_if [prints]:
    "(b \<Longrightarrow> printable s) \<Longrightarrow> (\<not> b \<Longrightarrow> printable t) \<Longrightarrow> printable (if b then s else t)"
  by (auto simp: printable_def)

lemma printable_append_iff: "printable (s @ t) \<longleftrightarrow> printable s \<and> printable t"
  by (auto simp: printable_def)

lemma printable_Cons_iff: "printable (c # s) \<longleftrightarrow> 32 \<le> byte c \<and> printable s"
  by (auto simp: printable_def)

lemma printable_take [prints]: "printable s \<Longrightarrow> printable (take n s)"
  and printable_drop [prints]: "printable s \<Longrightarrow> printable (drop n s)"
  by (auto simp: printable_def dest: in_set_takeD in_set_dropD)

lemma printable_join [prints]:
  "printable sep \<Longrightarrow> \<forall>t \<in> set ts. printable t \<Longrightarrow> printable (join sep ts)"
  by (induction sep ts rule: join.induct) (auto simp: printable_append_iff prints)

lemma byte_char_of: "0 \<le> n \<Longrightarrow> n < 256 \<Longrightarrow> byte (char_of n) = n"
  by (simp add: byte_def take_bit_int_eq_self)

lemma byte_bounds: "0 \<le> byte c" "byte c < 256"
proof -
  have "byte c = int (of_char c :: nat)" by (cases c) (simp add: byte_def)
  then show "0 \<le> byte c" "byte c < 256" using nat_of_char_less_256 [of c] by simp_all
qed

lemma digit_byte: "0 \<le> d \<Longrightarrow> d < 10 \<Longrightarrow> 32 \<le> byte (digit_char d)"
  by (simp add: digit_char_def byte_char_of)

lemma printable_digits [prints]:
  "\<forall>d \<in> set ds. 0 \<le> d \<and> d < 10 \<Longrightarrow> printable (map digit_char ds)"
  by (auto simp: printable_def digit_byte)

lemma printable_dec_digits [prints]: "0 \<le> n \<Longrightarrow> printable (map digit_char (dec_digits n))"
  by (rule printable_digits) (auto dest: dec_digits_bounded)

lemma ascii_bytes [simp]:
  "byte CHR ''-'' = 45" "byte CHR ''+'' = 43" "byte CHR ''.'' = 46" "byte CHR ''0'' = 48"
  "byte CHR ''e'' = 101" "byte bslash = 92" "byte CHR 0x22 = 34" "byte CHR '':'' = 58"
  "byte CHR '','' = 44" "byte CHR ''{'' = 123" "byte CHR ''}'' = 125" "byte CHR ''['' = 91"
  "byte CHR '']'' = 93"
  by (simp_all add: byte_def bslash_def)

lemma printable_itoa [prints]: "printable (itoa i)"
  by (auto simp: itoa_def printable_Cons_iff intro: prints)

lemma digit_at_byte: "\<forall>d \<in> set ds. 0 \<le> d \<and> d < 10 \<Longrightarrow> 32 \<le> byte (digit_at ds i)"
  by (simp add: digit_at_def digit_byte nat_less_iff)

lemma printable_fmt_f [prints]:
  "\<forall>d \<in> set ds. 0 \<le> d \<and> d < 10 \<Longrightarrow> printable (fmt_f neg ds dp prec)"
  by (auto simp: fmt_f_def printable_append_iff printable_Cons_iff printable_Nil
      digit_at_byte printable_def [of "map _ _"])

lemma printable_fmt_e [prints]:
  assumes "\<forall>d \<in> set ds. 0 \<le> d \<and> d < 10"
  shows "printable (fmt_e neg ds dp)"
proof -
  have "printable (digits_text (tl ds))"
    using assms unfolding digits_text_def
    by (intro printable_digits) (metis list.sel(2) list.set_sel(2))
  then show ?thesis
    using assms by (auto simp: fmt_e_def Let_def printable_append_iff printable_Cons_iff
        printable_Nil printable_itoa digit_at_byte)
qed

lemma printable_json_number [prints]:
  assumes "\<forall>d \<in> set ds. 0 \<le> d \<and> d < 10"
  shows "printable (json_number neg ds dp)"
proof -
  have e: "printable (fmt_e neg ds dp)" using assms by (rule printable_fmt_e)
  then have "32 \<le> byte (fmt_e neg ds dp ! (n - 1))" if "n = length (fmt_e neg ds dp)" "n \<ge> 4" for n
    using that by (auto simp: printable_def)
  with e assms show ?thesis
    by (auto simp: json_number_def Let_def printable_append_iff printable_Cons_iff intro: prints)
qed

lemma hex_char_byte: "0 \<le> d \<Longrightarrow> d < 16 \<Longrightarrow> 32 \<le> byte (hex_char d)"
  by (simp add: hex_char_def byte_char_of)

lemma printable_escapes:
  "printable (bslash # ''b'')" "printable (bslash # ''f'')" "printable (bslash # ''n'')"
  "printable (bslash # ''r'')" "printable (bslash # ''t'')" "printable (bslash # ''u00'')"
  "printable ''true''" "printable ''false''" "printable ''null''"
  "printable (bslash # ''ufffd'')" "printable (bslash # ''u2028'')" "printable (bslash # ''u2029'')"
  by code_simp+

lemma printable_escape_ascii [prints]: "printable (escape_ascii c)"
  unfolding escape_ascii_def
proof (intro printable_if printable_escapes)
  show "printable [bslash, c]" if "c = CHR 0x22 \<or> c = bslash"
    using that by (auto simp: printable_def)
  show "printable (bslash # ''u00'' @ [hex_char (byte c div 16), hex_char (byte c mod 16)])"
    using byte_bounds [of c] printable_escapes(6)
    by (simp add: printable_append_iff printable_Cons_iff printable_Nil hex_char_byte)
  show "printable [c]" if "\<not> (byte c < 32 \<or> c = CHR ''<'' \<or> c = CHR ''>'' \<or> c = CHR ''&'')"
    using that by (auto simp: printable_def)
qed

lemma in_byte_mono: "in_byte lo hi s i \<Longrightarrow> lo' \<le> lo \<Longrightarrow> hi \<le> hi' \<Longrightarrow> in_byte lo' hi' s i"
  by (auto simp: in_byte_def)

lemma utf8_width_le: "utf8_width s \<le> 4"
  by (simp add: utf8_width_def Let_def)

lemma utf8_width_cont:
  "1 < utf8_width s \<Longrightarrow> in_byte 128 191 s 1"
  "2 < utf8_width s \<Longrightarrow> in_byte 128 191 s 2"
  "3 < utf8_width s \<Longrightarrow> in_byte 128 191 s 3"
  by (auto simp: utf8_width_def Let_def intro: in_byte_mono split: if_splits)

lemma utf8_width_bytes:
  assumes "128 \<le> byte (s ! 0)" and "i < utf8_width s"
  shows "32 \<le> byte (s ! i)"
proof -
  have "i = 0 \<or> i = 1 \<or> i = 2 \<or> i = 3" using assms(2) utf8_width_le [of s] by linarith
  then show ?thesis using assms utf8_width_cont [of s] by (auto simp: in_byte_def)
qed

lemma printable_sequence: "\<not> byte c < 128 \<Longrightarrow> printable (take (utf8_width (c # s)) (c # s))"
  using utf8_width_bytes [of "c # s"]
  by (auto simp: printable_def in_set_conv_nth simp del: take_Suc_Cons)

lemma json_body_ascii: "byte c < 128 \<Longrightarrow> json_body (c # s) = escape_ascii c @ json_body s"
  by simp

lemma json_body_multi:
  assumes "\<not> byte c < 128"
  shows "\<exists>t n. json_body (c # s) = t @ json_body (drop n s) \<and> printable t"
proof -
  have "json_body (c # s) \<in> {(bslash # ''ufffd'') @ json_body (drop 0 s),
      (bslash # ''u2028'') @ json_body (drop (utf8_width (c # s) - 1) s),
      (bslash # ''u2029'') @ json_body (drop (utf8_width (c # s) - 1) s),
      take (utf8_width (c # s)) (c # s) @ json_body (drop (utf8_width (c # s) - 1) s)}"
    unfolding json_body.simps(2) Let_def using assms by (simp del: take_Suc_Cons)
  then show ?thesis
    using printable_sequence [OF assms, of s] printable_escapes by blast
qed

declare json_body.simps(2) [simp del]

lemma printable_json_body [prints]: "printable (json_body s)"
proof (induction "length s" arbitrary: s rule: less_induct)
  case less
  show ?case
  proof (cases s)
    case Nil
    then show ?thesis by (simp add: prints)
  next
    case (Cons c r)
    have IH: "printable (json_body (drop n r))" for n using Cons by (intro less) simp
    show ?thesis
    proof (cases "byte c < 128")
      case True
      then show ?thesis using IH [of 0] Cons
        by (simp add: json_body_ascii printable_append_iff printable_escape_ascii)
    next
      case False
      then obtain t n where "json_body (c # r) = t @ json_body (drop n r)" "printable t"
        using json_body_multi by blast
      then show ?thesis using IH Cons by (simp add: printable_append_iff)
    qed
  qed
qed

lemma printable_json_string [prints]: "printable (json_string s)"
  by (auto simp: json_string_def printable_append_iff printable_Cons_iff intro: prints)

lemma printable_json_array [prints]: "\<forall>t \<in> set ts. printable t \<Longrightarrow> printable (json_array ts)"
  by (auto simp: json_array_def printable_append_iff printable_Cons_iff intro!: prints)

lemma printable_json_object [prints]:
  "\<forall>e \<in> set fs. printable (snd e) \<Longrightarrow> printable (json_object fs)"
  by (fastforce simp: json_object_def printable_append_iff printable_Cons_iff intro!: prints)

lemma printable_json_value [prints]: "wf_gval v \<Longrightarrow> printable (json_value v)"
proof (induction v rule: json_value.induct)
  case (5 vs)
  then show ?case by (auto intro!: prints)
next
  case (6 m)
  have "\<forall>e \<in> set (sort_key fst (map (\<lambda>(k, v). (k, json_value v)) m)). printable (snd e)"
    using 6 by fastforce
  then show ?case by (simp only: json_value.simps printable_json_object)
next
  case (2 b)
  then show ?case by (simp add: printable_escapes)
qed (simp_all add: prints printable_escapes)

end
