(* ===== verification/Credentials.thy ===== *)
theory Credentials
  imports GoValue
begin

text \<open>
  Service credentials (client/credentials.go): lookups that ignore letter case, TLS detection,
  and the rewriting of an address to the local end of a tunnel.
\<close>

section \<open>Operations\<close>

type_synonym creds = "gval gomap"

text \<open>
  \<open>get\<close> tries the wanted keys in order; for each it takes the first entry, in the order the
  range visits the map, whose key equals it up to letter case.
\<close>

fun get :: "creds \<Rightarrow> string list \<Rightarrow> string" where
  "get c [] = []"
| "get c (key # rest) =
     (case find (\<lambda>(k, v). equal_fold k key) c of
        Some (k, v) \<Rightarrow> fmt_v v
      | None \<Rightarrow> get c rest)"

definition Host :: "creds \<Rightarrow> string" where
  "Host c = get c [''host'', ''hostname'']"

text \<open>
  A missing port prints as \<open><nil>\<close>, which is no number, so it reads as 0. The key is looked
  up as it stands, unlike every other one.
\<close>

definition Port :: "creds \<Rightarrow> int64" where
  "Port c = word_of_int (fst (atoi (fmt_v (case map_of c ''port'' of None \<Rightarrow> GNil | Some v \<Rightarrow> v))))"

definition URI :: "creds \<Rightarrow> string" where
  "URI c = get c [''uri'', ''url'']"

definition JDBCURI :: "creds \<Rightarrow> string" where
  "JDBCURI c = get c [''jdbcuri'', ''jdbcurl'', ''jdbc_uri'', ''jdbc_url'']"

definition Username :: "creds \<Rightarrow> string" where
  "Username c = get c [''user'', ''username'']"

definition Password :: "creds \<Rightarrow> string" where
  "Password c = get c [''password'', ''passwd'', ''pwd'']"

definition Database :: "creds \<Rightarrow> string" where
  "Database c = get c [''database'', ''db'', ''name'']"

text \<open>\<open>strconv.ParseBool\<close>, with the error dropped (its value is then false).\<close>

definition parse_bool :: "string \<Rightarrow> bool" where
  "parse_bool s = (s \<in> set [''1'', ''t'', ''T'', ''TRUE'', ''true'', ''True''])"

definition IsTLSEnabled :: "creds \<Rightarrow> bool" where
  "IsTLSEnabled c =
     (if parse_bool (get c [''tls'', ''tls_enabled'', ''tlsenabled'']) then True
      else if contains (to_lower (URI c)) ''ssl=true'' then True
      else if contains (to_lower (JDBCURI c)) ''ssl=true'' then True
      else False)"

text \<open>
  \<open>SetAddress\<close>: replaces the old address inside every string, then sets the host keys, then
  stores the port as a string under \<open>port\<close>. Writing to a nil map panics; ranging over one does
  nothing. The two range loops rewrite values of existing keys only, each key by itself, so the
  order of the visits does not matter.
\<close>

definition is_host_key :: "string \<Rightarrow> bool" where
  "is_host_key k = (equal_fold k ''host'' \<or> equal_fold k ''hostname'')"

definition rewrite_value :: "string \<Rightarrow> string \<Rightarrow> gval \<Rightarrow> gval" where
  "rewrite_value old new v = (case v of GStr s \<Rightarrow> GStr (replace_all s old new) | _ \<Rightarrow> v)"

definition SetAddress :: "creds option \<Rightarrow> string \<Rightarrow> int64 \<Rightarrow> creds outcome" where
  "SetAddress mc host port =
     (case mc of
        None \<Rightarrow> Panic nil_map_write
      | Some c \<Rightarrow>
          let oldAddr = addr_text (Host c) (Port c);
              newAddr = addr_text host port;
              c1 = map (\<lambda>(k, v). (k, rewrite_value oldAddr newAddr v)) c;
              c2 = map (\<lambda>(k, v). (k, if is_host_key k then GStr host else v)) c1
          in Ok (AList.update ''port'' (GStr (itoa64 port)) c2))"

text \<open>\<open>Fprint\<close>: one line per key, in key order. The text written is returned.\<close>

definition Fprint :: "creds \<Rightarrow> string \<Rightarrow> string" where
  "Fprint c indent =
     concat (map (\<lambda>k. indent @ k @ '': '' @
         fmt_v (case map_of c k of None \<Rightarrow> GNil | Some v \<Rightarrow> v) @ nl) (sort (keys c)))"

text \<open>The entries of a possibly nil map, as reads and ranges see them.\<close>

definition entries :: "creds option \<Rightarrow> creds" where
  "entries mc = (case mc of None \<Rightarrow> [] | Some c \<Rightarrow> c)"

section \<open>Lookups\<close>

text \<open>No two keys that differ only in letter case.\<close>

definition fold_unique :: "creds \<Rightarrow> bool" where
  "fold_unique c = distinct (map (\<lambda>(k, v). fold_norm k) c)"

lemma find_mset_unique:
  assumes "mset xs = mset ys" and "\<And>x y. x \<in> set xs \<Longrightarrow> y \<in> set xs \<Longrightarrow> P x \<Longrightarrow> P y \<Longrightarrow> x = y"
  shows "find P xs = find P ys"
proof (cases "find P xs")
  case None
  then show ?thesis using mset_eq_setD [OF assms(1)] by (metis find_None_iff)
next
  case (Some x)
  then have x: "x \<in> set xs" "P x" by (metis find_Some_iff nth_mem)+
  then obtain y where y: "find P ys = Some y"
    using mset_eq_setD [OF assms(1)] by (metis find_None_iff option.exhaust)
  then have "y \<in> set ys" "P y" by (metis find_Some_iff nth_mem)+
  then have "y = x" using x assms mset_eq_setD [OF assms(1)] by blast
  with Some y show ?thesis by simp
qed

lemma fold_unique_entry:
  assumes "fold_unique c" and "x \<in> set c" "y \<in> set c" "fold_norm (fst x) = fold_norm (fst y)"
  shows "x = y"
proof -
  have "distinct (map (\<lambda>e. fold_norm (fst e)) c)"
    using assms(1) by (simp add: fold_unique_def case_prod_beta')
  then show ?thesis using assms(2-) by (auto simp: distinct_map inj_on_def)
qed

text \<open>The visiting order does not matter to a lookup, unless two keys differ only in case.\<close>

lemma get_order:
  assumes "fold_unique c" and "mset c' = mset c"
  shows "get c' ks = get c ks"
proof (induction ks)
  case (Cons key ks)
  have "find (\<lambda>(k, v). equal_fold k key) c = find (\<lambda>(k, v). equal_fold k key) c'"
  proof (rule find_mset_unique)
    show "mset c = mset c'" using assms(2) by simp
    show "x = y" if "x \<in> set c" "y \<in> set c" "case x of (k, v) \<Rightarrow> equal_fold k key"
      "case y of (k, v) \<Rightarrow> equal_fold k key" for x y
      using that fold_unique_entry [OF assms(1), of x y] by (auto simp: equal_fold_def)
  qed
  with Cons show ?case by (simp split: option.splits)
qed simp

text \<open>What a lookup can return at all, over every visiting order: the value of some entry.\<close>

fun get_possible :: "creds \<Rightarrow> string list \<Rightarrow> string set" where
  "get_possible c [] = {[]}"
| "get_possible c (key # rest) =
     (let hits = {fmt_v v | k v. (k, v) \<in> set c \<and> equal_fold k key}
      in if hits = {} then get_possible c rest else hits)"

lemma get_in_possible: "get c ks \<in> get_possible c ks"
proof (induction ks)
  case (Cons key ks)
  show ?case
  proof (cases "find (\<lambda>(k, v). equal_fold k key) c")
    case None
    then have "\<forall>k v. (k, v) \<in> set c \<longrightarrow> \<not> equal_fold k key" by (auto simp: find_None_iff)
    with Cons None show ?thesis by (auto simp: Let_def)
  next
    case (Some e)
    then have "e \<in> set c" "equal_fold (fst e) key"
      by (auto simp: find_Some_iff case_prod_beta')
    with Some show ?thesis by (cases e) (auto simp: Let_def)
  qed
qed simp

lemma get_possible_mset: "mset c = mset c' \<Longrightarrow> get_possible c ks = get_possible c' ks"
  by (induction ks) (simp_all only: get_possible.simps mset_eq_setD [of c c'])

lemma get_possible_reached:
  assumes "t \<in> get_possible c ks"
  shows "\<exists>c'. mset c' = mset c \<and> get c' ks = t"
  using assms
proof (induction ks)
  case (Cons key ks)
  let ?hits = "{fmt_v v | k v. (k, v) \<in> set c \<and> equal_fold k key}"
  show ?case
  proof (cases "?hits = {}")
    case True
    with Cons obtain c' where c': "mset c' = mset c" "get c' ks = t" by auto
    then have "find (\<lambda>(k, v). equal_fold k key) c' = None"
      using True mset_eq_setD [OF c'(1)] by (auto simp: find_None_iff)
    with c' show ?thesis by auto
  next
    case False
    then obtain k v where kv: "(k, v) \<in> set c" "equal_fold k key" "t = fmt_v v"
      using Cons.prems by (auto simp: Let_def split: if_splits)
    then have "mset ((k, v) # remove1 (k, v) c) = mset c" by simp
    moreover have "get ((k, v) # remove1 (k, v) c) (key # ks) = t" using kv by simp
    ultimately show ?thesis by blast
  qed
qed (auto intro: exI [of _ c])

section \<open>Rewriting an address\<close>

lemma equal_fold_port [simp]:
  "\<not> is_host_key ''port''" "\<not> equal_fold ''port'' ''host''" "\<not> equal_fold ''port'' ''hostname''"
  by code_simp+

lemma find_key_None: "find (\<lambda>(k, v). P k) c = None \<longleftrightarrow> (\<forall>k \<in> set (keys c). \<not> P k)"
  by (induction c) auto

lemma find_key_Some: "find (\<lambda>(k, v). P k) c = Some (k, v) \<Longrightarrow> P k"
  by (auto simp: find_Some_iff)

lemma find_map_values:
  "find (\<lambda>(k, v). P k) (map (\<lambda>(k, v). (k, f k v)) c)
     = map_option (\<lambda>(k, v). (k, f k v)) (find (\<lambda>(k, v). P k) c)"
  by (induction c) auto

lemma find_update_other:
  "\<not> P k \<Longrightarrow> find (\<lambda>(k, v). P k) (AList.update k w c) = find (\<lambda>(k, v). P k) c"
  by (induction c) auto

lemma map_of_map_values: "map_of (map (\<lambda>(k, v). (k, f k v)) c) k = map_option (f k) (map_of c k)"
  by (induction c) auto

lemma keys_map_values [simp]: "keys (map (\<lambda>(k, v). (k, f k v)) c) = keys c"
  by (simp add: keys_def case_prod_beta' comp_def)

text \<open>The new value of an entry, apart from the port.\<close>

definition readdressed :: "creds \<Rightarrow> string \<Rightarrow> int64 \<Rightarrow> string \<Rightarrow> gval \<Rightarrow> gval" where
  "readdressed c host port k v =
     (if is_host_key k then GStr host
      else rewrite_value (addr_text (Host c) (Port c)) (addr_text host port) v)"

lemma SetAddress_Some:
  "SetAddress (Some c) host port =
     Ok (AList.update ''port'' (GStr (itoa64 port)) (map (\<lambda>(k, v). (k, readdressed c host port k v)) c))"
  by (simp add: SetAddress_def Let_def readdressed_def case_prod_beta' comp_def cong: if_cong)

lemma SetAddress_ok_iff: "(\<exists>c'. SetAddress mc host port = Ok c') \<longleftrightarrow> mc \<noteq> None"
  by (cases mc) (auto simp: SetAddress_def)

lemma SetAddress_keys:
  assumes "SetAddress (Some c) host port = Ok c'"
  shows "keys c' = (if ''port'' \<in> set (keys c) then keys c else keys c @ [''port''])"
  using assms by (auto simp: SetAddress_Some keys_update)

lemma SetAddress_map_of:
  assumes "SetAddress (Some c) host port = Ok c'"
  shows "map_of c' k = (if k = ''port'' then Some (GStr (itoa64 port))
                        else map_option (readdressed c host port k) (map_of c k))"
  using assms by (auto simp: SetAddress_Some update_conv' map_of_map_values)

lemma SetAddress_Port:
  assumes "SetAddress (Some c) host port = Ok c'"
  shows "Port c' = port"
  by (simp add: Port_def SetAddress_map_of [OF assms])

lemma find_SetAddress:
  assumes "SetAddress (Some c) host port = Ok c'" and "\<not> P ''port''"
  shows "find (\<lambda>(k, v). P k) c'
    = map_option (\<lambda>(k, v). (k, readdressed c host port k v)) (find (\<lambda>(k, v). P k) c)"
  using assms by (auto simp: SetAddress_Some find_update_other find_map_values)

lemma SetAddress_Host:
  assumes "SetAddress (Some c) host port = Ok c'" and "\<exists>k \<in> set (keys c). is_host_key k"
  shows "Host c' = host"
proof -
  have hit: "get c' (key # rest) = host"
    if "find (\<lambda>(k, v). equal_fold k key) c = Some (k, v)" "key \<in> {''host'', ''hostname''}"
    for key rest k v
  proof -
    have "is_host_key k" using find_key_Some [OF that(1)] that(2) by (auto simp: is_host_key_def)
    with that show ?thesis
      by (auto simp: find_SetAddress [OF assms(1)] readdressed_def)
  qed
  have miss: "get c' (key # rest) = get c' rest"
    if "find (\<lambda>(k, v). equal_fold k key) c = None" "key \<in> {''host'', ''hostname''}" for key rest
    using that by (auto simp: find_SetAddress [OF assms(1)])
  show ?thesis
  proof (cases "find (\<lambda>(k, v). equal_fold k ''host'') c")
    case (Some e)
    then show ?thesis by (cases e) (auto simp only: Host_def intro!: hit)
  next
    case None
    then obtain k v where "find (\<lambda>(k, v). equal_fold k ''hostname'') c = Some (k, v)"
      using assms(2) find_key_None [of "\<lambda>k. equal_fold k ''hostname''" c]
      by (cases "find (\<lambda>(k, v). equal_fold k ''hostname'') c")
        (auto simp: find_key_None is_host_key_def)
    then have "get c' [''hostname''] = host" by (rule hit) simp
    moreover have "Host c' = get c' [''hostname'']" using miss [OF None] by (simp add: Host_def)
    ultimately show ?thesis by simp
  qed
qed

text \<open>Without a host key, \<open>SetAddress\<close> sets none: the credentials still have no host.\<close>

lemma SetAddress_no_host:
  assumes "SetAddress (Some c) host port = Ok c'" and "\<not> (\<exists>k \<in> set (keys c). is_host_key k)"
  shows "Host c = [] \<and> Host c' = []"
proof -
  have none: "find (\<lambda>(k, v). equal_fold k key) c = None" if "key \<in> {''host'', ''hostname''}" for key
    using that assms(2) by (auto simp: find_key_None is_host_key_def)
  then show ?thesis by (auto simp: Host_def find_SetAddress [OF assms(1)])
qed

end
