(* ===== verification/Json.thy ===== *)
theory Json
  imports GoValue
begin

text \<open>
  \<open>json.Unmarshal\<close> (encoding/json of Go 1.23): the scanner with its stack of open arrays and
  objects, string literals, numbers as float64, and the conversion to \<open>interface{}\<close> values. The
  texts are byte strings. A decoder works into a value that is already there, as Go's does, and
  tells whether it met a value it could not store.
\<close>

section \<open>String literals\<close>

definition hex_val :: "char \<Rightarrow> int option" where
  "hex_val c =
     (let n = byte c
      in if 48 \<le> n \<and> n \<le> 57 then Some (n - 48)
         else if 97 \<le> n \<and> n \<le> 102 then Some (n - 87)
         else if 65 \<le> n \<and> n \<le> 70 then Some (n - 55)
         else None)"

text \<open>Four hexadecimal digits at the head of a text.\<close>

fun hex4 :: "string \<Rightarrow> int option" where
  "hex4 (a # b # c # d # s) =
     (case (hex_val a, hex_val b, hex_val c, hex_val d) of
        (Some w, Some x, Some y, Some z) \<Rightarrow> Some (((w * 16 + x) * 16 + y) * 16 + z)
      | _ \<Rightarrow> None)"
| "hex4 _ = None"

definition utf8_encode :: "int \<Rightarrow> string" where
  "utf8_encode r =
     (let cont = (\<lambda>k. char_of (128 + (r div 2 ^ k) mod 64))
      in if r < 0x80 then [char_of r]
         else if r < 0x800 then [char_of (192 + r div 2 ^ 6), cont 0]
         else if r < 0x10000 then [char_of (224 + r div 2 ^ 12), cont 6, cont 0]
         else [char_of (240 + r div 2 ^ 18), cont 12, cont 6, cont 0])"

text \<open>The replacement character U+FFFD.\<close>

definition rune_error :: string where
  "rune_error = [CHR 0xEF, CHR 0xBF, CHR 0xBD]"

text \<open>
  The rune of an escape with code \<open>r\<close> in front of \<open>s\<close>, and how many bytes of \<open>s\<close> belong to it: a
  high surrogate takes the escape of a low one behind it, and any other surrogate is replaced.
\<close>

definition escape_rune :: "int \<Rightarrow> string \<Rightarrow> string \<times> nat" where
  "escape_rune r s =
     (if r < 0xD800 \<or> 0xE000 \<le> r then (utf8_encode r, 0)
      else case (if take 2 s = [bslash, CHR ''u''] then hex4 (drop 2 s) else None) of
             None \<Rightarrow> (rune_error, 0)
           | Some r1 \<Rightarrow>
               if r < 0xDC00 \<and> 0xDC00 \<le> r1 \<and> r1 < 0xE000
               then (utf8_encode ((r - 0xD800) * 0x400 + (r1 - 0xDC00) + 0x10000), 6)
               else (rune_error, 0))"

definition simple_escape :: "char \<Rightarrow> char option" where
  "simple_escape c =
     (if c = CHR 0x22 \<or> c = bslash \<or> c = CHR ''/'' then Some c
      else if c = CHR ''b'' then Some (CHR 0x08)
      else if c = CHR ''f'' then Some (CHR 0x0C)
      else if c = CHR ''n'' then Some (CHR 0x0A)
      else if c = CHR ''r'' then Some (CHR 0x0D)
      else if c = CHR ''t'' then Some (CHR 0x09)
      else None)"

text \<open>
  A string literal behind its opening quote: the text it denotes and what follows the closing
  quote. Control bytes are refused and invalid UTF-8 is replaced.
\<close>

definition put :: "string \<Rightarrow> (string \<times> string) option \<Rightarrow> (string \<times> string) option" where
  "put t = map_option (\<lambda>(u, r). (t @ u, r))"

function lex_string :: "string \<Rightarrow> (string \<times> string) option" where
  "lex_string [] = None"
| "lex_string (c # s) =
     (if c = CHR 0x22 then Some ([], s)
      else if byte c < 32 then None
      else if c = bslash then
        (case s of
           [] \<Rightarrow> None
         | d # s' \<Rightarrow>
             if d = CHR ''u'' then
               (case hex4 s' of
                  None \<Rightarrow> None
                | Some r \<Rightarrow> (case escape_rune r (drop 4 s') of
                    (t, n) \<Rightarrow> put t (lex_string (drop (4 + n) s'))))
             else (case simple_escape d of None \<Rightarrow> None | Some e \<Rightarrow> put [e] (lex_string s')))
      else if byte c < 128 then put [c] (lex_string s)
      else let w = utf8_width (c # s)
           in if w = 0 then put rune_error (lex_string s)
              else put (take w (c # s)) (lex_string (drop (w - 1) s)))"
  by pat_completeness auto
termination
  by (relation "measure length") auto

declare lex_string.simps(2) [simp del]

lemma put_Some: "put t x = Some (u, r) \<longleftrightarrow> (\<exists>v. x = Some (v, r) \<and> u = t @ v)"
  by (auto simp: put_def)

lemma lex_string_shorter: "lex_string s = Some (t, r) \<Longrightarrow> length r < length s"
proof (induction "length s" arbitrary: s t r rule: less_induct)
  case less
  from less.prems obtain c s' where s: "s = c # s'" by (cases s) auto
  have IH: "length r < length u" if "lex_string u = Some (v, r)" "length u < length s" for u v
    using less that by blast
  show ?case
    using less.prems unfolding s lex_string.simps(2)
    by (auto simp: put_Some Let_def s split: if_splits list.splits option.splits prod.splits
        dest!: IH)
qed

section \<open>Numbers\<close>

definition is_digit :: "char \<Rightarrow> bool" where
  "is_digit c = (digit_of c \<noteq> None)"

definition is_num_char :: "char \<Rightarrow> bool" where
  "is_num_char c = (is_digit c \<or> c \<in> set ''+-.eE'')"

definition digit_list :: "string \<Rightarrow> int list" where
  "digit_list s = map (\<lambda>c. the (digit_of c)) s"

text \<open>The number of a digit sequence.\<close>

definition of_digits :: "int list \<Rightarrow> int" where
  "of_digits ds = foldl (\<lambda>a d. a * 10 + d) 0 ds"

definition num_exponent :: "string \<Rightarrow> int option" where
  "num_exponent s =
     (case s of
        [] \<Rightarrow> Some 0
      | c # s' \<Rightarrow>
          let neg = (take 1 s' = ''-''); ds = (if take 1 s' = ''-'' \<or> take 1 s' = ''+'' then drop 1 s' else s')
          in if (c = CHR ''e'' \<or> c = CHR ''E'') \<and> ds \<noteq> [] \<and> list_all is_digit ds
             then Some (if neg then - of_digits (digit_list ds) else of_digits (digit_list ds))
             else None)"

text \<open>The grammar of a number literal: sign, integer digits, fraction digits and exponent.\<close>

definition num_parts :: "string \<Rightarrow> (bool \<times> int list \<times> int list \<times> int) option" where
  "num_parts s =
     (let neg = (take 1 s = ''-''); s1 = (if take 1 s = ''-'' then drop 1 s else s);
          ip = takeWhile is_digit s1; s2 = dropWhile is_digit s1;
          dot = (take 1 s2 = ''.'');
          fp = (if dot then takeWhile is_digit (drop 1 s2) else []);
          s3 = (if dot then dropWhile is_digit (drop 1 s2) else s2)
      in if ip = [] \<or> (take 1 ip = ''0'' \<and> length ip > 1) \<or> (dot \<and> fp = []) then None
         else map_option (\<lambda>e. (neg, digit_list ip, digit_list fp, e)) (num_exponent s3))"

text \<open>A decimal without zeros at either end; zero has no digits.\<close>

definition trim_decimal :: "int list \<Rightarrow> int \<Rightarrow> int list \<times> int" where
  "trim_decimal ds dp =
     (let lead = length (takeWhile (\<lambda>d. d = 0) ds); ds' = strip_zeros (drop lead ds)
      in if ds' = [] then ([], 0) else (ds', dp - int lead))"

text \<open>
  The float64 nearest to \<open>num / den\<close>, as \<open>m * 2 ^ e\<close> with \<open>m < 2 ^ 53\<close>; ties go to the even
  \<open>m\<close>. \<open>bits\<close> is the length in binary.
\<close>

function bits :: "int \<Rightarrow> int" where
  "bits n = (if n \<le> 0 then 0 else 1 + bits (n div 2))"
  by pat_completeness auto
termination
  by (relation "measure nat") auto

declare bits.simps [simp del]

definition nearest_float :: "int \<Rightarrow> int \<Rightarrow> int \<times> int" where
  "nearest_float num den =
     (let k = bits num - bits den;
          at = (\<lambda>j. (num * 2 ^ nat (- j), den * 2 ^ nat j));
          e = max (- 1074) (if fst (at k) \<ge> snd (at k) then k - 52 else k - 53);
          (n, d) = at e;
          q = n div d; r = n mod d;
          m = (if 2 * r > d \<or> (2 * r = d \<and> odd q) then q + 1 else q)
      in if m = 2 ^ 53 then (2 ^ 52, e + 1) else (m, e))"

text \<open>
  The shortest decimal that rounds to \<open>m * 2 ^ e\<close>: with \<open>n\<close> digits there are two candidates, the
  exact value cut off and the next one; the first \<open>n\<close> for which one of them lies between the
  neighbouring midpoints gives the result, the nearer one if both do. 17 digits are enough.
\<close>

definition midpoints :: "int \<Rightarrow> int \<Rightarrow> int \<times> int" where
  "midpoints m e = (if m = 2 ^ 52 \<and> e > - 1074 then 4 * m - 1 else 4 * m - 2, 4 * m + 2)"

text \<open>
  \<open>m * up / down\<close> is the value times \<open>10 ^ j\<close>, which has its \<open>n\<close> digits before the point.
\<close>

definition candidate :: "int \<Rightarrow> int \<Rightarrow> int \<Rightarrow> nat \<Rightarrow> bool \<Rightarrow> (int list \<times> int) option" where
  "candidate m e dp n final =
     (let j = int n - dp;
          up = 10 ^ nat j * 2 ^ nat e; down = 10 ^ nat (- j) * 2 ^ nat (- e);
          lo = m * up div down; l = fst (midpoints m e) * up; u = snd (midpoints m e) * up;
          within = (\<lambda>t. if even m then l \<le> 4 * t * down \<and> 4 * t * down \<le> u
                        else l < 4 * t * down \<and> 4 * t * down < u);
          r = 2 * (m * up mod down);
          near = (if r > down \<or> (r = down \<and> odd lo) then lo + 1 else lo);
          out = (\<lambda>t. if t = 10 ^ n then ([1], dp + 1) else (strip_zeros (dec_digits t), dp))
      in if within lo \<and> within (lo + 1) \<or> final then Some (out near)
         else if within lo then Some (out lo)
         else if within (lo + 1) then Some (out (lo + 1))
         else None)"

function shortest :: "int \<Rightarrow> int \<Rightarrow> int \<Rightarrow> nat \<Rightarrow> int list \<times> int" where
  "shortest m e dp n =
     (case candidate m e dp n (n \<ge> 17) of
        Some d \<Rightarrow> d
      | None \<Rightarrow> if n \<ge> 17 then ([], 0) else shortest m e dp (Suc n))"
  by pat_completeness auto
termination
  by (relation "measure (\<lambda>(m, e, dp, n). 17 - n)") auto

declare shortest.simps [simp del]

text \<open>The position of the decimal point of a positive float, searched upwards from \<open>dp\<close>.\<close>

function point_from :: "int \<Rightarrow> int \<Rightarrow> int \<Rightarrow> int" where
  "point_from m e dp =
     (if dp > 400 \<or> m * 2 ^ nat e * 10 ^ nat (- dp) < 10 ^ nat dp * 2 ^ nat (- e) then dp
      else point_from m e (dp + 1))"
  by pat_completeness auto
termination
  by (relation "measure (\<lambda>(m, e, dp). nat (401 - dp))") auto

declare point_from.simps [simp del]

text \<open>A decimal as a float64, printed shortest; \<open>None\<close> where it is out of range.\<close>

definition round_decimal :: "int list \<Rightarrow> int \<Rightarrow> (int list \<times> int) option" where
  "round_decimal ds dp =
     (if ds = [] then Some ([], 0)
      else let j = dp - int (length ds);
               (m, e) = nearest_float (of_digits ds * 10 ^ nat j) (10 ^ nat (- j))
           in if e > 971 then None
              else if m = 0 then Some ([], 0)
              else Some (shortest m e (point_from m e (dp - 1)) 1))"

definition parse_float :: "string \<Rightarrow> gval option" where
  "parse_float s =
     (case num_parts s of
        None \<Rightarrow> None
      | Some (neg, ip, fp, e) \<Rightarrow>
          (case trim_decimal (ip @ fp) (int (length ip) + e) of
             (ds, dp) \<Rightarrow> map_option (\<lambda>(ds', dp'). GNum neg ds' dp') (round_decimal ds dp)))"

section \<open>The scanner\<close>

datatype json_token =
    TLBrace | TRBrace | TLBrack | TRBrack | TColon | TComma
  | TNull | TBool bool | TNum string | TStr string

datatype lexeme = LEnd | LBad | LTok json_token string

definition is_space :: "char \<Rightarrow> bool" where
  "is_space c = (c = CHR '' '' \<or> c = CHR 0x09 \<or> c = CHR 0x0A \<or> c = CHR 0x0D)"

text \<open>
  The token at the head of a text that starts with no blank. A number takes all the bytes a
  number can have; what the grammar of JSON allows behind one is none of them.
\<close>

definition lex_word :: "string \<Rightarrow> lexeme" where
  "lex_word s =
     (if prefix ''true'' s then LTok (TBool True) (drop 4 s)
      else if prefix ''false'' s then LTok (TBool False) (drop 5 s)
      else if prefix ''null'' s then LTok TNull (drop 4 s)
      else LBad)"

definition lex_number :: "string \<Rightarrow> lexeme" where
  "lex_number s =
     (let t = takeWhile is_num_char s
      in if num_parts t = None then LBad else LTok (TNum t) (dropWhile is_num_char s))"

definition punct :: "char \<Rightarrow> json_token option" where
  "punct c =
     (if c = CHR ''{'' then Some TLBrace else if c = CHR ''}'' then Some TRBrace
      else if c = CHR ''['' then Some TLBrack else if c = CHR '']'' then Some TRBrack
      else if c = CHR '':'' then Some TColon else if c = CHR '','' then Some TComma
      else None)"

definition lex_token :: "string \<Rightarrow> lexeme" where
  "lex_token s =
     (case s of
        [] \<Rightarrow> LEnd
      | c # r \<Rightarrow>
          case punct c of
            Some t \<Rightarrow> LTok t r
          | None \<Rightarrow>
          if c = CHR 0x22 then
            (case lex_string r of None \<Rightarrow> LBad | Some (t, r') \<Rightarrow> LTok (TStr t) r')
          else if is_digit c \<or> c = CHR ''-'' then lex_number s
          else lex_word s)"

definition next_token :: "string \<Rightarrow> lexeme" where
  "next_token s = lex_token (dropWhile is_space s)"

datatype jval =
  JNull | JBool bool | JNum string | JStr string | JArr "jval list" | JObj "(string \<times> jval) list"

text \<open>
  Where the scanner is, and the arrays and objects that are open; a member whose value is being
  read has its key with it. At most 10000 may be open.
\<close>

datatype place = P_Value | P_First | P_Members | P_Key | P_Colon | P_After jval

datatype frame =
    F_Arr "jval list" | F_Obj "(string \<times> jval) list" | F_Key "(string \<times> jval) list" string

type_synonym scan = "place \<times> frame list"

definition open_frame :: "place \<Rightarrow> frame \<Rightarrow> frame list \<Rightarrow> scan option" where
  "open_frame p f stk = (if length stk < 10000 then Some (p, f # stk) else None)"

fun begin_value :: "json_token \<Rightarrow> frame list \<Rightarrow> scan option" where
  "begin_value TNull stk = Some (P_After JNull, stk)"
| "begin_value (TBool b) stk = Some (P_After (JBool b), stk)"
| "begin_value (TNum t) stk = Some (P_After (JNum t), stk)"
| "begin_value (TStr t) stk = Some (P_After (JStr t), stk)"
| "begin_value TLBrack stk = open_frame P_First (F_Arr []) stk"
| "begin_value TLBrace stk = open_frame P_Members (F_Obj []) stk"
| "begin_value _ stk = None"

definition read_key :: "json_token \<Rightarrow> frame list \<Rightarrow> scan option" where
  "read_key t stk =
     (case t of
        TStr k \<Rightarrow> (case stk of F_Obj ms # r \<Rightarrow> Some (P_Colon, F_Key ms k # r) | _ \<Rightarrow> None)
      | _ \<Rightarrow> None)"

definition after_value :: "jval \<Rightarrow> json_token \<Rightarrow> frame list \<Rightarrow> scan option" where
  "after_value v t stk =
     (case stk of
        F_Arr vs # r \<Rightarrow>
          (if t = TComma then Some (P_Value, F_Arr (vs @ [v]) # r)
           else if t = TRBrack then Some (P_After (JArr (vs @ [v])), r) else None)
      | F_Key ms k # r \<Rightarrow>
          (if t = TComma then Some (P_Key, F_Obj (ms @ [(k, v)]) # r)
           else if t = TRBrace then Some (P_After (JObj (ms @ [(k, v)])), r) else None)
      | _ \<Rightarrow> None)"

definition scan_step :: "json_token \<Rightarrow> scan \<Rightarrow> scan option" where
  "scan_step t st =
     (case st of (p, stk) \<Rightarrow>
      case p of
        P_Value \<Rightarrow> begin_value t stk
      | P_First \<Rightarrow>
          if t = TRBrack then (case stk of F_Arr vs # r \<Rightarrow> Some (P_After (JArr vs), r) | _ \<Rightarrow> None)
          else begin_value t stk
      | P_Members \<Rightarrow>
          if t = TRBrace then (case stk of F_Obj ms # r \<Rightarrow> Some (P_After (JObj ms), r) | _ \<Rightarrow> None)
          else read_key t stk
      | P_Key \<Rightarrow> read_key t stk
      | P_Colon \<Rightarrow> if t = TColon then Some (P_Value, stk) else None
      | P_After v \<Rightarrow> after_value v t stk)"

fun scan_end :: "scan \<Rightarrow> jval option" where
  "scan_end (P_After v, []) = Some v"
| "scan_end _ = None"

lemma lex_word_shorter: "lex_word s = LTok t r \<Longrightarrow> s \<noteq> [] \<Longrightarrow> length r < length s"
  unfolding lex_word_def by (auto split: if_splits)

lemma lex_number_shorter:
  assumes "lex_number (c # u) = LTok t r" and "is_num_char c"
  shows "length r < length (c # u)"
  using assms length_dropWhile_le [of is_num_char u] by (auto simp: lex_number_def Let_def split: if_splits)

lemma lex_token_shorter:
  assumes "lex_token s = LTok t r"
  shows "length r < length s"
proof (cases s)
  case (Cons c u)
  have "is_num_char c" if "is_digit c \<or> c = CHR ''-''"
    using that by (auto simp: is_num_char_def)
  then show ?thesis
    using assms lex_word_shorter [of s t r] lex_number_shorter [of c u t r] lex_string_shorter [of u]
    unfolding Cons lex_token_def
    by (auto split: if_splits option.splits)
qed (use assms in \<open>simp add: lex_token_def\<close>)

lemma next_token_shorter: "next_token s = LTok t r \<Longrightarrow> length r < length s"
  using lex_token_shorter length_dropWhile_le [of is_space s]
  unfolding next_token_def by fastforce

function parse_from :: "string \<Rightarrow> scan \<Rightarrow> jval option" where
  "parse_from s st =
     (case next_token s of
        LEnd \<Rightarrow> scan_end st
      | LBad \<Rightarrow> None
      | LTok t r \<Rightarrow> (case scan_step t st of None \<Rightarrow> None | Some st' \<Rightarrow> parse_from r st'))"
  by pat_completeness auto
termination
  by (relation "measure (\<lambda>(s, st). length s)") (auto dest: next_token_shorter)

declare parse_from.simps [simp del]

definition json_parse :: "string \<Rightarrow> jval option" where
  "json_parse s = parse_from s (P_Value, [])"

section \<open>Decoding\<close>

text \<open>
  A decoder takes the value that is there and gives the new one and whether everything could be
  stored. Into \<open>interface{}\<close>, only a number out of range cannot: it leaves nil.
\<close>

type_synonym 'a decoder = "jval \<Rightarrow> 'a \<Rightarrow> 'a \<times> bool"

fun to_iface :: "jval \<Rightarrow> gval \<times> bool" where
  "to_iface JNull = (GNil, True)"
| "to_iface (JBool b) = (GBool b, True)"
| "to_iface (JNum t) = (case parse_float t of Some v \<Rightarrow> (v, True) | None \<Rightarrow> (GNil, False))"
| "to_iface (JStr s) = (GStr s, True)"
| "to_iface (JArr vs) = (GList (map (fst \<circ> to_iface) vs), list_all (snd \<circ> to_iface) vs)"
| "to_iface (JObj ms) =
     (GMap (fold (\<lambda>(k, v) m. AList.update k (fst (to_iface v)) m) ms []),
      list_all (\<lambda>(k, v). snd (to_iface v)) ms)"

definition dec_iface :: "gval decoder" where
  "dec_iface v g = to_iface v"

definition dec_string :: "string decoder" where
  "dec_string v s = (case v of JNull \<Rightarrow> (s, True) | JStr t \<Rightarrow> (t, True) | _ \<Rightarrow> (s, False))"

text \<open>A map, nil or not: null makes it nil, the members of an object are added to it.\<close>

fun dec_members :: "'a decoder \<Rightarrow> 'a \<Rightarrow> (string \<times> jval) list \<Rightarrow> 'a gomap \<Rightarrow> 'a gomap \<times> bool" where
  "dec_members dec zero [] m = (m, True)"
| "dec_members dec zero ((k, v) # ms) m =
     (case dec v zero of (a, ok) \<Rightarrow>
      case dec_members dec zero ms (AList.update k a m) of (m', ok') \<Rightarrow> (m', ok \<and> ok'))"

definition dec_map :: "'a decoder \<Rightarrow> 'a \<Rightarrow> 'a gomap option decoder" where
  "dec_map dec zero v m =
     (case v of
        JNull \<Rightarrow> (None, True)
      | JObj ms \<Rightarrow>
          (case dec_members dec zero ms (case m of None \<Rightarrow> [] | Some m' \<Rightarrow> m') of
             (m', ok) \<Rightarrow> (Some m', ok))
      | _ \<Rightarrow> (m, False))"

text \<open>A pointer: null makes it nil, anything else is decoded into what it points to.\<close>

definition dec_ptr :: "'a decoder \<Rightarrow> 'a \<Rightarrow> 'a option decoder" where
  "dec_ptr dec zero v p =
     (if v = JNull then (None, True)
      else case dec v (case p of None \<Rightarrow> zero | Some a \<Rightarrow> a) of (a, ok) \<Rightarrow> (Some a, ok))"

text \<open>
  A slice as the list of its elements, nil or empty alike. The slices decoded here are new ones (a
  member of a map), so no element is there before.
\<close>

definition dec_slice :: "'a decoder \<Rightarrow> 'a \<Rightarrow> 'a list decoder" where
  "dec_slice dec zero v xs =
     (case v of
        JNull \<Rightarrow> ([], True)
      | JArr vs \<Rightarrow> (map (\<lambda>w. fst (dec w zero)) vs, list_all (\<lambda>w. snd (dec w zero)) vs)
      | _ \<Rightarrow> (xs, False))"

text \<open>
  A struct: each member goes to the field its name folds to, if there is one, in the order of the
  text.
\<close>

fun dec_fields :: "(string \<times> 'a decoder) list \<Rightarrow> (string \<times> jval) list \<Rightarrow> 'a \<Rightarrow> 'a \<times> bool" where
  "dec_fields fs [] a = (a, True)"
| "dec_fields fs ((k, v) # ms) a =
     (case find (\<lambda>(name, _). equal_fold k name) fs of
        None \<Rightarrow> dec_fields fs ms a
      | Some (_, dec) \<Rightarrow>
          (case dec v a of (a', ok) \<Rightarrow>
           case dec_fields fs ms a' of (a'', ok') \<Rightarrow> (a'', ok \<and> ok')))"

definition dec_struct :: "(string \<times> 'a decoder) list \<Rightarrow> 'a decoder" where
  "dec_struct fs v a =
     (case v of JNull \<Rightarrow> (a, True) | JObj ms \<Rightarrow> dec_fields fs ms a | _ \<Rightarrow> (a, False))"

text \<open>
  \<open>json.Unmarshal(text, &a)\<close>: what is in \<open>a\<close> afterwards and whether there is no error. A text
  that is not JSON changes nothing.
\<close>

definition unmarshal :: "'a decoder \<Rightarrow> string \<Rightarrow> 'a \<Rightarrow> 'a \<times> bool" where
  "unmarshal dec text a = (case json_parse text of None \<Rightarrow> (a, False) | Some v \<Rightarrow> dec v a)"

end
