(* ===== verification/Client.thy ===== *)
theory Client
  imports Credentials Loops Json
begin

text \<open>
  The Cloud Foundry client (client/client.go): the data it returns, the interface the conduit
  application uses it through, and its methods over the vendored go-cfclient and the \<open>cf\<close>
  command. What those do on the network is a parameter (\<open>cfapi\<close>).
\<close>

section \<open>Data\<close>

record vcap_service =
  vsName :: string
  vsCredentials :: "creds option"
  vsInstanceName :: string

text \<open>A service list holds pointers, which may be nil; the map of services may be nil too.\<close>

type_synonym vcap_services = "vcap_service option list gomap"

record env =
  systemEnv :: "vcap_services option option"

text \<open>
  \<open>systemEnv\<close> is the pointer \<open>Env.SystemEnv\<close> (outer option) with its only field, the map
  \<open>VcapServices\<close> (inner option).
\<close>

record cf_org =
  orgGuid :: string

record cf_space =
  spaceGuid :: string
  spaceName :: string

record cf_app =
  appGuid :: string
  appState :: string

record service_instance =
  siGuid :: string
  siName :: string

record service_binding =
  sbGuid :: string
  sbInstanceGuid :: string

record cf_info =
  infoSSHEndpoint :: string
  infoSSHFingerprint :: string
  infoTokenEndpoint :: string
  infoSSHOauthClient :: string

section \<open>The data as JSON\<close>

text \<open>
  \<open>json.Marshal\<close> of the map of services: its keys are sorted, a nil pointer or map is null. A nil
  list would be null as well; the program marshals the lists of kept instances only, and they
  are not nil.
\<close>

definition vcap_service_json :: "vcap_service option \<Rightarrow> string" where
  "vcap_service_json msi =
     (case msi of
        None \<Rightarrow> ''null''
      | Some si \<Rightarrow> json_object
          [(''name'', json_string (vsName si)),
           (''credentials'', case vsCredentials si of None \<Rightarrow> ''null'' | Some c \<Rightarrow> json_value (GMap c)),
           (''instance_name'', json_string (vsInstanceName si))])"

definition vcap_json :: "vcap_services option \<Rightarrow> string" where
  "vcap_json mm =
     (case mm of
        None \<Rightarrow> ''null''
      | Some m \<Rightarrow> json_object (sort_key fst
          (map (\<lambda>(k, sis). (k, json_array (map vcap_service_json sis))) m)))"

text \<open>The decoders of the struct types, from their tags.\<close>

definition on_field :: "('r \<Rightarrow> 'a) \<Rightarrow> ('a \<Rightarrow> 'r \<Rightarrow> 'r) \<Rightarrow> 'a decoder \<Rightarrow> 'r decoder" where
  "on_field look store dec v r = (case dec v (look r) of (a, ok) \<Rightarrow> (store a r, ok))"

definition dec_creds :: "creds option decoder" where
  "dec_creds = dec_map dec_iface GNil"

definition dec_service :: "vcap_service decoder" where
  "dec_service = dec_struct
     [(''name'', on_field vsName (\<lambda>n s. s\<lparr>vsName := n\<rparr>) dec_string),
      (''credentials'', on_field vsCredentials (\<lambda>c s. s\<lparr>vsCredentials := c\<rparr>) dec_creds),
      (''instance_name'', on_field vsInstanceName (\<lambda>n s. s\<lparr>vsInstanceName := n\<rparr>) dec_string)]"

definition zero_service :: vcap_service where
  "zero_service = \<lparr>vsName = [], vsCredentials = None, vsInstanceName = []\<rparr>"

definition dec_services :: "vcap_services option decoder" where
  "dec_services = dec_map (dec_slice (dec_ptr dec_service zero_service) None) []"

definition dec_system_env :: "vcap_services option decoder" where
  "dec_system_env = dec_struct [(''VCAP_SERVICES'', dec_services)]"

definition dec_env :: "env decoder" where
  "dec_env = dec_struct
     [(''system_env_json'', on_field systemEnv (\<lambda>p e. e\<lparr>systemEnv := p\<rparr>) (dec_ptr dec_system_env None))]"

text \<open>The answer to the creation of a binding.\<close>

definition dec_binding :: "creds option decoder" where
  "dec_binding = dec_struct [(''entity'', dec_struct [(''credentials'', dec_creds)])]"

section \<open>The client interface\<close>

text \<open>
  \<open>Client\<close> of client/client_interface.go, over the state \<open>'s\<close> its methods act on.
  \<open>CreateApp\<close> returns its GUID next to the error, because the caller stores both.
\<close>

record 's client_api =
  RefreshAccessToken :: "('s, unit) act"
  GetAppEnv :: "string \<Rightarrow> ('s, env) act"
  GetSpaceByName :: "string \<Rightarrow> string \<Rightarrow> ('s, cf_space) act"
  GetOrgByName :: "string \<Rightarrow> ('s, cf_org) act"
  GetAppByName :: "string \<Rightarrow> string \<Rightarrow> string \<Rightarrow> ('s, cf_app) act"
  GetServiceBindings :: "string list \<Rightarrow> ('s, service_binding gomap) act"
  GetServiceInstances :: "string list \<Rightarrow> ('s, service_instance gomap) act"
  BindService :: "string \<Rightarrow> string \<Rightarrow> gval \<Rightarrow> ('s, creds option) act"
  UploadStaticAppBits :: "string \<Rightarrow> ('s, unit) act"
  DestroyApp :: "string \<Rightarrow> ('s, unit) act"
  CreateApp :: "string \<Rightarrow> string \<Rightarrow> ('s, string \<times> gerror option) act"
  StartApp :: "string \<Rightarrow> ('s, unit) act"
  PollForAppState :: "string \<Rightarrow> string \<Rightarrow> int \<Rightarrow> ('s, unit) act"
  AppSSHEndpoint :: "'s \<Rightarrow> string"
  AppSSHHostKeyFingerprint :: "'s \<Rightarrow> string"
  SSHCode :: "('s, string) act"

section \<open>go-cfclient and the cf command\<close>

record tls_config =
  tlsInsecureSkipVerify :: bool
  tlsMinVersion :: uint16
  tlsCipherSuites :: "uint16 list"

record cf_config =
  cfgApiAddress :: string
  cfgToken :: string
  cfgSkipSslValidation :: bool
  cfgTls :: tls_config

text \<open>
  What \<open>gocfclient.NewClient\<close> makes of a configuration before it talks to the API (the vendored
  client.go): the default address, trailing slashes dropped, and the transport's
  \<open>InsecureSkipVerify\<close> replaced by \<open>SkipSslValidation\<close>. User name, password and user agent are
  not set by this program and are left out.
\<close>

definition trim_right :: "char \<Rightarrow> string \<Rightarrow> string" where
  "trim_right c s = rev (dropWhile (\<lambda>d. d = c) (rev s))"

definition bootstrap :: "cf_config \<Rightarrow> cf_config" where
  "bootstrap cfg =
     (let addr = (if cfgApiAddress cfg = [] then ''http://api.bosh-lite.com'' else cfgApiAddress cfg)
      in cfg\<lparr>cfgApiAddress := trim_right CHR ''/'' addr,
             cfgTls := (cfgTls cfg)\<lparr>tlsInsecureSkipVerify := cfgSkipSslValidation cfg\<rparr>\<rparr>)"

text \<open>The authorization server's answer to the request for a one time code.\<close>

datatype authorize_answer =
    NoRedirect
  | RequestFailed gerror
  | Redirect "gerror + string list"

text \<open>
  \<open>Redirect\<close> carries the location's \<open>code\<close> parameters, or the error of \<open>resp.Location()\<close>.
  A request answers with an error or with the result of reading the body.
\<close>

datatype http_method = GET | POST | DELETE

record app_create_request =
  acrName :: string
  acrSpaceGuid :: string
  acrEnableSSH :: bool
  acrInstances :: int
  acrMemory :: int
  acrDiskQuota :: int
  acrBuildpack :: string
  acrHealthCheckType :: string
  acrDiego :: bool

record 'w cfapi =
  api_Connect :: "cf_config \<Rightarrow> 'w \<Rightarrow> gerror option \<times> 'w"
  api_GetInfo :: "cf_config \<Rightarrow> 'w \<Rightarrow> (gerror + cf_info) \<times> 'w"
  api_GetToken :: "cf_config \<Rightarrow> 'w \<Rightarrow> (gerror + string) \<times> 'w"
  api_DoRequest :: "cf_config \<Rightarrow> http_method \<Rightarrow> string \<Rightarrow> string \<Rightarrow> 'w \<Rightarrow> (gerror + (gerror + string)) \<times> 'w"
  api_GetSpaceByName :: "cf_config \<Rightarrow> string \<Rightarrow> string \<Rightarrow> 'w \<Rightarrow> (gerror + cf_space) \<times> 'w"
  api_GetOrgByName :: "cf_config \<Rightarrow> string \<Rightarrow> 'w \<Rightarrow> (gerror + cf_org) \<times> 'w"
  api_AppByName :: "cf_config \<Rightarrow> string \<Rightarrow> string \<Rightarrow> string \<Rightarrow> 'w \<Rightarrow> (gerror + cf_app) \<times> 'w"
  api_ListServiceBindings :: "cf_config \<Rightarrow> string list \<Rightarrow> 'w \<Rightarrow> (gerror + service_binding list) \<times> 'w"
  api_ListServiceInstances :: "cf_config \<Rightarrow> string list \<Rightarrow> 'w \<Rightarrow> (gerror + service_instance list) \<times> 'w"
  api_UploadAppBits :: "cf_config \<Rightarrow> (string \<times> string) list \<Rightarrow> string \<Rightarrow> 'w \<Rightarrow> gerror option \<times> 'w"
  api_CreateApp :: "cf_config \<Rightarrow> app_create_request \<Rightarrow> 'w \<Rightarrow> (gerror + cf_app) \<times> 'w"
  api_StartApp :: "cf_config \<Rightarrow> string \<Rightarrow> 'w \<Rightarrow> gerror option \<times> 'w"
  api_GetAppByGuid :: "cf_config \<Rightarrow> string \<Rightarrow> 'w \<Rightarrow> (gerror + cf_app) \<times> 'w"
  api_Authorize :: "tls_config \<Rightarrow> string \<Rightarrow> string \<Rightarrow> 'w \<Rightarrow> authorize_answer \<times> 'w"
  api_ParseURL :: "string \<Rightarrow> gerror + string"
  api_LookPath :: "string \<Rightarrow> 'w \<Rightarrow> string option"
  api_CommandOutput :: "string \<Rightarrow> string list \<Rightarrow> 'w \<Rightarrow> (gerror + string) \<times> 'w"
  api_Sleep :: "int \<Rightarrow> 'w \<Rightarrow> 'w"
  api_JsonError :: "string \<Rightarrow> string"

text \<open>
  \<open>api_ParseURL\<close> gives the scheme and host of a URL as text, \<open>api_JsonError\<close> the text of the error
  that \<open>json.Unmarshal\<close> returns for an answer it cannot decode.
\<close>

section \<open>The client\<close>

record client =
  goCFClient :: cf_config
  apiEndpoint :: string
  insecureSkipVerify :: bool
  cipherSuites :: "uint16 list"
  minTLSVersion :: uint16
  token :: string
  info :: cf_info

type_synonym 'w cst = "client \<times> 'w"

text \<open>A call of the API with the client's current configuration.\<close>

definition on_world :: "('w \<Rightarrow> 'a \<times> 'w) \<Rightarrow> ('w cst, 'a) act" where
  [act_defs]: "on_world f = (\<lambda>(c, w). case f w of (a, w') \<Rightarrow> (Ok a, (c, w')))"

definition with_handle :: "(cf_config \<Rightarrow> 'w \<Rightarrow> (gerror + 'a) \<times> 'w) \<Rightarrow> ('w cst, 'a) act" where
  [act_defs]: "with_handle f = (\<lambda>(c, w). case f (goCFClient c) w of
     (Inl e, w') \<Rightarrow> (Err e, (c, w')) | (Inr a, w') \<Rightarrow> (Ok a, (c, w')))"

definition with_handle_err :: "(cf_config \<Rightarrow> 'w \<Rightarrow> gerror option \<times> 'w) \<Rightarrow> ('w cst, unit) act" where
  [act_defs]: "with_handle_err f = (\<lambda>(c, w). case f (goCFClient c) w of
     (Some e, w') \<Rightarrow> (Err e, (c, w')) | (None, w') \<Rightarrow> (Ok (), (c, w')))"

definition of_sum :: "gerror + 'a \<Rightarrow> ('s, 'a) act" where
  [act_defs]: "of_sum r = (case r of Inl e \<Rightarrow> raise e | Inr a \<Rightarrow> ret a)"

definition client_config :: "client \<Rightarrow> cf_config" where
  "client_config c =
     \<lparr>cfgApiAddress = apiEndpoint c, cfgToken = trim_prefix (token c) ''bearer '',
      cfgSkipSslValidation = False,
      cfgTls = \<lparr>tlsInsecureSkipVerify = insecureSkipVerify c, tlsMinVersion = minTLSVersion c,
                tlsCipherSuites = cipherSuites c\<rparr>\<rparr>"

definition client_init :: "'w cfapi \<Rightarrow> ('w cst, unit) act" where
  "client_init api = (\<lambda>(c, w).
     let cf = bootstrap (client_config c)
     in case api_Connect api cf w of
          (Some err, w1) \<Rightarrow> (Err err, (c, w1))
        | (None, w1) \<Rightarrow>
            (case api_GetInfo api cf w1 of
               (Inl err, w2) \<Rightarrow> (Err err, (c, w2))
             | (Inr i, w2) \<Rightarrow> (Ok (), (c\<lparr>goCFClient := cf, info := i\<rparr>, w2))))"

text \<open>\<open>zeroed\<close> stands for the nil handle and info of a client that is not initialised yet.\<close>

definition NewClient ::
  "'w cfapi \<Rightarrow> cf_config \<Rightarrow> cf_info \<Rightarrow> string \<Rightarrow> string \<Rightarrow> bool \<Rightarrow> uint16 list \<Rightarrow> uint16
     \<Rightarrow> 'w \<Rightarrow> (gerror + client) \<times> 'w" where
  "NewClient api zeroed zeroinfo endpoint tok insecure suites minver w =
     (let c = \<lparr>goCFClient = zeroed, apiEndpoint = endpoint, insecureSkipVerify = insecure,
               cipherSuites = suites, minTLSVersion = minver, token = tok, info = zeroinfo\<rparr>
      in case client_init api (c, w) of
           (Ok _, (c', w')) \<Rightarrow> (Inr c', w')
         | (Err err, (_, w')) \<Rightarrow> (Inl err, w')
         | (Panic p, (_, w')) \<Rightarrow> (Inl (ErrorString p), w'))"

definition client_newCommand :: "'w cfapi \<Rightarrow> ('w cst, string) act" where
  "client_newCommand api = (\<lambda>(c, w).
     case api_LookPath api ''cf'' w of
       None \<Rightarrow> (Err (ErrorString (''cannot find '' @ [CHR 0x27] @ ''cf'' @ [CHR 0x27]
                  @ '' command in PATH'')), (c, w))
     | Some exe \<Rightarrow> (Ok exe, (c, w)))"

definition client_output :: "'w cfapi \<Rightarrow> string list \<Rightarrow> ('w cst, string) act" where
  "client_output api args =
     seq (client_newCommand api) (\<lambda>exe.
     seq (on_world (api_CommandOutput api exe args)) of_sum)"

definition client_RefreshAccessToken :: "'w cfapi \<Rightarrow> ('w cst, unit) act" where
  "client_RefreshAccessToken api =
     seq (client_output api [''oauth-token'']) (\<lambda>tok.
     andthen (upd (\<lambda>(c, w). (c\<lparr>token := tok\<rparr>, w)))
     (client_init api))"

definition client_GetAppEnv :: "'w cfapi \<Rightarrow> string \<Rightarrow> ('w cst, env) act" where
  "client_GetAppEnv api guid =
     seq (with_handle (\<lambda>h. api_DoRequest api h GET (''/v2/apps/'' @ guid @ ''/env'') []))
       (\<lambda>resp. seq (of_sum resp) (\<lambda>body.
          ret (fst (unmarshal dec_env body \<lparr>systemEnv = None\<rparr>))))"

definition client_GetSpaceByName :: "'w cfapi \<Rightarrow> string \<Rightarrow> string \<Rightarrow> ('w cst, cf_space) act" where
  "client_GetSpaceByName api orgG name = with_handle (\<lambda>h. api_GetSpaceByName api h name orgG)"

definition client_GetOrgByName :: "'w cfapi \<Rightarrow> string \<Rightarrow> ('w cst, cf_org) act" where
  "client_GetOrgByName api name = with_handle (\<lambda>h. api_GetOrgByName api h name)"

definition client_GetAppByName :: "'w cfapi \<Rightarrow> string \<Rightarrow> string \<Rightarrow> string \<Rightarrow> ('w cst, cf_app) act" where
  "client_GetAppByName api orgG spaceG name = with_handle (\<lambda>h. api_AppByName api h name spaceG orgG)"

definition client_GetServiceBindings ::
  "'w cfapi \<Rightarrow> string list \<Rightarrow> ('w cst, service_binding gomap) act" where
  "client_GetServiceBindings api filters =
     seq (with_handle (\<lambda>h. api_ListServiceBindings api h filters))
       (\<lambda>bs. ret (fold (\<lambda>b m. AList.update (sbInstanceGuid b) b m) bs []))"

definition client_GetServiceInstances ::
  "'w cfapi \<Rightarrow> string list \<Rightarrow> ('w cst, service_instance gomap) act" where
  "client_GetServiceInstances api filters =
     seq (with_handle (\<lambda>h. api_ListServiceInstances api h filters))
       (\<lambda>is. ret (fold (\<lambda>i m. AList.update (siGuid i) i m) is []))"

definition bind_body :: "string \<Rightarrow> string \<Rightarrow> gval \<Rightarrow> string" where
  "bind_body guid instanceG params =
     json_value (GMap [(''app_guid'', GStr guid), (''service_instance_guid'', GStr instanceG),
                       (''parameters'', params)])"

definition client_BindService ::
  "'w cfapi \<Rightarrow> string \<Rightarrow> string \<Rightarrow> gval \<Rightarrow> ('w cst, creds option) act" where
  "client_BindService api guid instanceG params =
     seq (with_handle (\<lambda>h. api_DoRequest api h POST ''/v2/service_bindings''
            (bind_body guid instanceG params)))
       (\<lambda>resp. seq (of_sum resp) (\<lambda>bytes.
          case unmarshal dec_binding bytes None of
            (c, ok) \<Rightarrow> if ok then ret c else raise (ErrorString (api_JsonError api bytes))))"

text \<open>The archive is written to memory, where writing does not fail; it holds one empty file.\<close>

definition createZeroByteFileInZip :: "(string \<times> string) list \<Rightarrow> string \<Rightarrow> (string \<times> string) list" where
  "createZeroByteFileInZip archive name = archive @ [(name, [])]"

definition client_UploadStaticAppBits :: "'w cfapi \<Rightarrow> string \<Rightarrow> ('w cst, unit) act" where
  "client_UploadStaticAppBits api guid =
     (let buf = createZeroByteFileInZip [] ''Staticfile''
      in with_handle_err (\<lambda>h. api_UploadAppBits api h buf guid))"

definition client_DestroyApp :: "'w cfapi \<Rightarrow> string \<Rightarrow> ('w cst, unit) act" where
  "client_DestroyApp api guid =
     seq (with_handle (\<lambda>h. api_DoRequest api h DELETE (''/v3/apps/'' @ guid) [])) (\<lambda>_. ret ())"

definition client_CreateApp ::
  "'w cfapi \<Rightarrow> string \<Rightarrow> string \<Rightarrow> ('w cst, string \<times> gerror option) act" where
  "client_CreateApp api name spaceG = (\<lambda>(c, w).
     let req = \<lparr>acrName = name, acrSpaceGuid = spaceG, acrEnableSSH = True, acrInstances = 1,
                acrMemory = 64, acrDiskQuota = 256, acrBuildpack = ''staticfile_buildpack'',
                acrHealthCheckType = ''none'', acrDiego = True\<rparr>
     in case api_CreateApp api (goCFClient c) req w of
          (Inl err, w') \<Rightarrow> (Ok ([], Some err), (c, w'))
        | (Inr app, w') \<Rightarrow> (Ok (appGuid app, None), (c, w')))"

definition client_StartApp :: "'w cfapi \<Rightarrow> string \<Rightarrow> ('w cst, unit) act" where
  "client_StartApp api guid = with_handle_err (\<lambda>h. api_StartApp api h guid)"

text \<open>\<open>PollForAppState\<close>: \<open>tries\<close> counts the answers that were not yet the wanted state.\<close>

function poll_loop ::
  "'w cfapi \<Rightarrow> cf_config \<Rightarrow> string \<Rightarrow> string \<Rightarrow> int \<Rightarrow> nat \<Rightarrow> 'w \<Rightarrow> gerror option \<times> 'w" where
  "poll_loop api h guid state maxRetries tries w =
     (case api_GetAppByGuid api h guid w of
        (Inl err, w1) \<Rightarrow> (Some err, w1)
      | (Inr app, w1) \<Rightarrow>
          if appState app = state then (None, w1)
          else if int (Suc tries) > maxRetries
            then (Some (ErrorString (''timeout waiting for GET app '' @ appGuid app @ '' to return ''
                    @ state @ '' state'')), w1)
          else poll_loop api h guid state maxRetries (Suc tries) (api_Sleep api 1000 w1))"
  by pat_completeness auto
termination
  by (relation "measure (\<lambda>(api, h, guid, state, maxRetries, tries, w). nat (maxRetries + 1) - tries)")
    auto

declare poll_loop.simps [simp del]

definition client_PollForAppState ::
  "'w cfapi \<Rightarrow> string \<Rightarrow> string \<Rightarrow> int \<Rightarrow> ('w cst, unit) act" where
  "client_PollForAppState api guid state maxRetries =
     with_handle_err (\<lambda>h. poll_loop api h guid state maxRetries 0)"

section \<open>The one time code\<close>

definition query_escape_char :: "char \<Rightarrow> string" where
  "query_escape_char c =
     (let n = byte c; hex = (\<lambda>d. if d < 10 then char_of (48 + d) else char_of (55 + d))
      in if 48 \<le> n \<and> n \<le> 57 \<or> 65 \<le> n \<and> n \<le> 90 \<or> 97 \<le> n \<and> n \<le> 122 \<or> c \<in> set ''-_.~'' then [c]
         else if c = CHR '' '' then ''+''
         else ''%'' @ [hex (n div 16), hex (n mod 16)])"

definition query_escape :: "string \<Rightarrow> string" where
  "query_escape s = concat (map query_escape_char s)"

text \<open>\<open>values.Encode()\<close> sorts the three parameters by name.\<close>

definition authorize_query :: "string \<Rightarrow> string" where
  "authorize_query oauthClient =
     ''client_id='' @ query_escape oauthClient @
     ''&grant_type=authorization_code&response_type=code''"

definition authorize_url :: "string \<Rightarrow> cf_info \<Rightarrow> string" where
  "authorize_url base i = base @ ''/oauth/authorize?'' @ authorize_query (infoSSHOauthClient i)"

definition client_authorize ::
  "'w cfapi \<Rightarrow> string \<Rightarrow> string \<Rightarrow> ('w cst, authorize_answer) act" where
  "client_authorize api url tok = (\<lambda>(c, w).
     case api_Authorize api
       \<lparr>tlsInsecureSkipVerify = insecureSkipVerify c, tlsMinVersion = minTLSVersion c,
        tlsCipherSuites = cipherSuites c\<rparr> url tok w of
       (a, w') \<Rightarrow> (Ok a, (c, w')))"

definition pick_code :: "authorize_answer \<Rightarrow> ('s, string) act" where
  "pick_code answer =
     (case answer of
        NoRedirect \<Rightarrow>
          raise (ErrorString ''Authorization server did not redirect with one time code'')
      | RequestFailed err \<Rightarrow>
          raise (ErrorString (''Error requesting one time code from server: '' @ error_text err))
      | Redirect (Inl err) \<Rightarrow>
          raise (ErrorString (''Error getting the redirected location: '' @ error_text err))
      | Redirect (Inr codes) \<Rightarrow>
          (case codes of
             [code] \<Rightarrow> ret code
           | _ \<Rightarrow> raise (ErrorString
                ''Unable to acquire one time code from authorization response'')))"

definition client_SSHCode :: "'w cfapi \<Rightarrow> ('w cst, string) act" where
  "client_SSHCode api =
     seq (with_handle (api_GetInfo api)) (\<lambda>i.
     seq (of_sum (api_ParseURL api (infoTokenEndpoint i))) (\<lambda>base.
     seq (with_handle (api_GetToken api)) (\<lambda>tok.
     seq (client_authorize api (authorize_url base i) tok)
     pick_code)))"

definition client_impl :: "'w cfapi \<Rightarrow> 'w cst client_api" where
  "client_impl api =
     \<lparr>RefreshAccessToken = client_RefreshAccessToken api,
      GetAppEnv = client_GetAppEnv api,
      GetSpaceByName = client_GetSpaceByName api,
      GetOrgByName = client_GetOrgByName api,
      GetAppByName = client_GetAppByName api,
      GetServiceBindings = client_GetServiceBindings api,
      GetServiceInstances = client_GetServiceInstances api,
      BindService = client_BindService api,
      UploadStaticAppBits = client_UploadStaticAppBits api,
      DestroyApp = client_DestroyApp api,
      CreateApp = client_CreateApp api,
      StartApp = client_StartApp api,
      PollForAppState = client_PollForAppState api,
      AppSSHEndpoint = (\<lambda>(c, w). infoSSHEndpoint (info c)),
      AppSSHHostKeyFingerprint = (\<lambda>(c, w). infoSSHFingerprint (info c)),
      SSHCode = client_SSHCode api\<rparr>"

section \<open>What the application relies on\<close>

text \<open>
  The contract of the client interface: the methods report failure by an error and do not
  panic, and a failed \<open>CreateApp\<close> names no app.
\<close>

locale cf_client =
  fixes api :: "'s client_api"
  assumes create_outcome: "\<exists>r s'. CreateApp api n sp s = (Ok r, s')"
    and create_failed: "CreateApp api n sp s = (Ok (g, Some e), s') \<Longrightarrow> g = []"
    and calm_refresh: "no_panic (RefreshAccessToken api)"
    and calm_env: "no_panic (GetAppEnv api g)"
    and calm_space: "no_panic (GetSpaceByName api og sn)"
    and calm_org: "no_panic (GetOrgByName api on)"
    and calm_app: "no_panic (GetAppByName api og sg an)"
    and calm_bindings: "no_panic (GetServiceBindings api fs)"
    and calm_instances: "no_panic (GetServiceInstances api fs)"
    and calm_bind: "no_panic (BindService api g ig params)"
    and calm_upload: "no_panic (UploadStaticAppBits api g)"
    and calm_destroy: "no_panic (DestroyApp api g)"
    and calm_start: "no_panic (StartApp api g)"
    and calm_poll: "no_panic (PollForAppState api g st mr)"
    and calm_code: "no_panic (SSHCode api)"
begin

lemmas calm_client = calm_refresh calm_env calm_space calm_org calm_app calm_bindings
  calm_instances calm_bind calm_upload calm_destroy calm_start calm_poll calm_code

end

lemma calm_on_world [calm]: "no_panic (on_world f)"
  and calm_with_handle [calm]: "no_panic (with_handle g)"
  and calm_with_handle_err [calm]: "no_panic (with_handle_err h)"
  and calm_of_sum [calm]: "no_panic (of_sum r)"
  by (auto simp: no_panic_def act_defs split: prod.splits sum.splits option.splits)

lemma calm_client_init [calm]: "no_panic (client_init capi)"
  by (auto simp: no_panic_def client_init_def Let_def split: prod.splits sum.splits option.splits)

lemma calm_newCommand [calm]: "no_panic (client_newCommand capi)"
  by (auto simp: no_panic_def client_newCommand_def split: option.splits)

lemma calm_SSHCode [calm]: "no_panic (client_SSHCode capi)"
  unfolding client_SSHCode_def
  by (intro calm) (auto simp: no_panic_def client_authorize_def pick_code_def act_defs
      split: prod.splits authorize_answer.splits sum.splits list.splits)

interpretation cf: cf_client "client_impl capi" for capi
proof unfold_locales
  show "\<exists>r s'. CreateApp (client_impl capi) n sp s = (Ok r, s')" for n sp s
    by (auto simp: client_impl_def client_CreateApp_def Let_def split: prod.splits sum.splits)
  show "CreateApp (client_impl capi) n sp s = (Ok (g, Some e), s') \<Longrightarrow> g = []" for n sp s g e s'
    by (auto simp: client_impl_def client_CreateApp_def Let_def split: prod.splits sum.splits)
qed (auto simp: client_impl_def client_RefreshAccessToken_def client_output_def
    client_GetAppEnv_def client_GetSpaceByName_def client_GetOrgByName_def client_GetAppByName_def
    client_GetServiceBindings_def client_GetServiceInstances_def client_BindService_def
    client_UploadStaticAppBits_def client_DestroyApp_def client_StartApp_def
    client_PollForAppState_def Let_def intro!: calm)

section \<open>Properties\<close>

text \<open>The interface of bounded attempts, for the polling loop.\<close>

definition poll_attempt ::
  "'w cfapi \<Rightarrow> cf_config \<Rightarrow> string \<Rightarrow> string \<Rightarrow> int \<Rightarrow> nat \<Rightarrow> 'w \<Rightarrow> gerror option option \<times> 'w" where
  "poll_attempt api h guid state maxRetries n w =
     (case api_GetAppByGuid api h guid w of
        (Inl err, w1) \<Rightarrow> (Some (Some err), w1)
      | (Inr app, w1) \<Rightarrow>
          if appState app = state then (Some None, w1)
          else if int n \<ge> maxRetries
            then (Some (Some (ErrorString (''timeout waiting for GET app '' @ appGuid app
                    @ '' to return '' @ state @ '' state''))), w1)
          else (None, api_Sleep api 1000 w1))"

interpretation polling: bounded_attempts "poll_attempt capi h guid state maxRetries"
    "poll_loop capi h guid state maxRetries" "nat maxRetries"
  for capi h guid state maxRetries
  by unfold_locales
    (auto simp: poll_attempt_def poll_loop.simps [of capi h guid state maxRetries]
      split: prod.splits sum.splits)

text \<open>
  Property C33: \<open>PollForAppState\<close> always returns after at most \<open>maxRetries + 1\<close> lookups, a second
  apart: nil at the first lookup that shows the wanted state, the error of the first lookup that
  fails, and a timeout naming the app if the last lookup still shows another state.
\<close>

theorem PollForAppState_result:
  "\<exists>k w'. k \<le> nat maxRetries
     \<and> undecided (poll_attempt capi (goCFClient c) guid state maxRetries) 0 k w = Some w'
     \<and> (case api_GetAppByGuid capi (goCFClient c) guid w' of
          (Inl err, w1) \<Rightarrow>
            client_PollForAppState capi guid state maxRetries (c, w) = (Err err, (c, w1))
        | (Inr app, w1) \<Rightarrow>
            if appState app = state
            then client_PollForAppState capi guid state maxRetries (c, w) = (Ok (), (c, w1))
            else k = nat maxRetries
              \<and> client_PollForAppState capi guid state maxRetries (c, w)
                = (Err (ErrorString (''timeout waiting for GET app '' @ appGuid app @ '' to return ''
                      @ state @ '' state'')), (c, w1)))"
proof -
  let ?att = "poll_attempt capi (goCFClient c) guid state maxRetries"
  obtain k w' r w'' where k: "k \<le> nat maxRetries" "undecided ?att 0 k w = Some w'"
    and a: "?att k w' = (Some r, w'')"
    and l: "poll_loop capi (goCFClient c) guid state maxRetries 0 w = (r, w'')"
    using polling.first_decision [of 0 maxRetries capi "goCFClient c" guid state w] by auto
  have p: "client_PollForAppState capi guid state maxRetries (c, w)
      = (case r of Some e \<Rightarrow> (Err e, (c, w'')) | None \<Rightarrow> (Ok (), (c, w'')))"
    by (simp add: client_PollForAppState_def with_handle_err_def l)
  obtain x w1 where g: "api_GetAppByGuid capi (goCFClient c) guid w' = (x, w1)" by fastforce
  show ?thesis
  proof (cases x)
    case (Inl err)
    with a g p k show ?thesis by (auto simp: poll_attempt_def intro!: exI [of _ k])
  next
    case (Inr app)
    with a g p k show ?thesis
      by (auto simp: poll_attempt_def intro!: exI [of _ k] split: if_splits)
  qed
qed

text \<open>
  Property C35: whatever the caller asked for, the handle of a client that \<open>NewClient\<close> returned
  verifies certificates: the configuration leaves \<open>SkipSslValidation\<close> false, and go-cfclient
  overwrites the transport's \<open>InsecureSkipVerify\<close> with it.
\<close>

theorem NewClient_ignores_insecure:
  assumes "NewClient capi zeroed zeroinfo endpoint tok insecure suites minver w = (Inr c, w')"
  shows "insecureSkipVerify c = insecure
    \<and> \<not> tlsInsecureSkipVerify (cfgTls (goCFClient c))
    \<and> tlsMinVersion (cfgTls (goCFClient c)) = minver
    \<and> tlsCipherSuites (cfgTls (goCFClient c)) = suites"
  using assms
  by (auto simp: NewClient_def client_init_def bootstrap_def client_config_def Let_def
      split: prod.splits sum.splits option.splits outcome.splits)

text \<open>
  Property C36: after a successful \<open>RefreshAccessToken\<close> the handle uses the output of
  \<open>cf oauth-token\<close> as the command printed it, less a leading \<open>bearer\<close> and blank: nothing is
  trimmed at its end, so a final newline of the output becomes part of the token.
\<close>

theorem RefreshAccessToken_token:
  assumes "api_LookPath capi ''cf'' w = Some exe"
    and "api_CommandOutput capi exe [''oauth-token''] w = (Inr (''bearer '' @ out), w1)"
    and "client_RefreshAccessToken capi (c, w) = (Ok (), (c', w'))"
  shows "cfgToken (goCFClient c') = out \<and> token c' = ''bearer '' @ out"
  using assms
  by (auto simp: client_RefreshAccessToken_def client_output_def client_newCommand_def act_defs
      client_init_def bootstrap_def client_config_def trim_prefix_def Let_def
      split: prod.splits sum.splits option.splits outcome.splits)

text \<open>A world for the witnesses: a service that accepts everything and changes nothing.\<close>

definition demo_info :: cf_info where
  "demo_info = \<lparr>infoSSHEndpoint = ''ssh.example:2222'', infoSSHFingerprint = ''aa:bb'',
     infoTokenEndpoint = ''https://uaa.example'', infoSSHOauthClient = ''ssh-proxy''\<rparr>"

text \<open>Its answers: the environment of the app, and the credentials of a new binding.\<close>

definition env_json :: "env \<Rightarrow> string" where
  "env_json e = json_object (case systemEnv e of None \<Rightarrow> []
     | Some m \<Rightarrow> [(''system_env_json'', json_object [(''VCAP_SERVICES'', vcap_json m)])])"

definition demo_binding :: string where
  "demo_binding = json_object [(''entity'', json_object [(''credentials'',
     json_value (GMap [(''host'', GStr ''10.0.0.1''), (''port'', GStr ''5432'')]))])]"

definition demo_api :: "env \<Rightarrow> service_instance list \<Rightarrow> string list \<Rightarrow> nat cfapi" where
  "demo_api e instances states =
     \<lparr>api_Connect = (\<lambda>h w. (None, w)),
      api_GetInfo = (\<lambda>h w. (Inr demo_info, w)),
      api_GetToken = (\<lambda>h w. (Inr (''bearer '' @ cfgToken h), w)),
      api_DoRequest = (\<lambda>h m p b w. (Inr (Inr (if m = GET then env_json e else demo_binding)), w)),
      api_GetSpaceByName = (\<lambda>h n og w. (Inr \<lparr>spaceGuid = ''space-guid'', spaceName = n\<rparr>, w)),
      api_GetOrgByName = (\<lambda>h n w. (Inr \<lparr>orgGuid = ''org-guid''\<rparr>, w)),
      api_AppByName = (\<lambda>h n sg og w. (Inr \<lparr>appGuid = ''app-guid'', appState = ''STARTED''\<rparr>, w)),
      api_ListServiceBindings =
        (\<lambda>h fs w. (Inr (map (\<lambda>i. \<lparr>sbGuid = ''b'', sbInstanceGuid = siGuid i\<rparr>) instances), w)),
      api_ListServiceInstances = (\<lambda>h fs w. (Inr instances, w)),
      api_UploadAppBits = (\<lambda>h z g w. (None, w)),
      api_CreateApp = (\<lambda>h r w. (Inr \<lparr>appGuid = ''app-guid'', appState = ''STOPPED''\<rparr>, w)),
      api_StartApp = (\<lambda>h g w. (None, w)),
      api_GetAppByGuid = (\<lambda>h g w. (Inr \<lparr>appGuid = g,
          appState = (if w < length states then states ! w else ''STARTED'')\<rparr>, Suc w)),
      api_Authorize = (\<lambda>t u k w. (Redirect (Inr [''code-1'']), w)),
      api_ParseURL = (\<lambda>u. Inr u),
      api_LookPath = (\<lambda>p w. Some p),
      api_CommandOutput = (\<lambda>p args w. (Inr (''bearer abc'' @ nl), w)),
      api_Sleep = (\<lambda>t w. w),
      api_JsonError = (\<lambda>b. ''invalid'')\<rparr>"

definition demo_config :: cf_config where
  "demo_config = \<lparr>cfgApiAddress = ''https://api.example'', cfgToken = ''abc'',
     cfgSkipSslValidation = False,
     cfgTls = \<lparr>tlsInsecureSkipVerify = False, tlsMinVersion = 0x0303, tlsCipherSuites = []\<rparr>\<rparr>"

definition demo_client :: client where
  "demo_client = \<lparr>goCFClient = demo_config, apiEndpoint = ''https://api.example'',
     insecureSkipVerify = True, cipherSuites = [], minTLSVersion = 0x0303, token = ''bearer abc'',
     info = demo_info\<rparr>"

abbreviation empty_env :: env where
  "empty_env \<equiv> \<lparr>systemEnv = Some (Some [])\<rparr>"

theorem NewClient_ignores_insecure_witness:
  "\<exists>c. NewClient (demo_api empty_env [] []) demo_config demo_info ''https://api.example''
        ''bearer abc'' True [] 0x0303 0 = (Inr c, 0)
     \<and> insecureSkipVerify c \<and> \<not> tlsInsecureSkipVerify (cfgTls (goCFClient c))"
proof -
  obtain c where c: "NewClient (demo_api empty_env [] []) demo_config demo_info
      ''https://api.example'' ''bearer abc'' True [] 0x0303 0 = (Inr c, 0)"
    by (simp add: NewClient_def client_init_def demo_api_def Let_def)
  from NewClient_ignores_insecure [OF c] c show ?thesis by blast
qed

theorem RefreshAccessToken_token_witness:
  "\<exists>c'. client_RefreshAccessToken (demo_api empty_env [] []) (demo_client, 0) = (Ok (), (c', 0))
     \<and> cfgToken (goCFClient c') = ''abc'' @ nl"
proof -
  let ?api = "demo_api empty_env [] []"
  obtain c' where c': "client_RefreshAccessToken ?api (demo_client, 0) = (Ok (), (c', 0))"
    by (simp add: client_RefreshAccessToken_def client_output_def client_newCommand_def act_defs
        client_init_def demo_api_def Let_def)
  have "api_LookPath ?api ''cf'' 0 = Some ''cf''"
    "api_CommandOutput ?api ''cf'' [''oauth-token''] 0 = (Inr (''bearer '' @ ''abc'' @ nl), 0)"
    by (simp_all add: demo_api_def)
  from RefreshAccessToken_token [OF this c'] c' show ?thesis by blast
qed

text \<open>
  The instances are listed under their GUIDs, the last of those with one GUID
  winning, and a failed request gives the error alone.
\<close>

theorem GetServiceInstances_map:
  "client_GetServiceInstances capi filters (c, w) =
     (case api_ListServiceInstances capi (goCFClient c) filters w of
        (Inl e, w') \<Rightarrow> (Err e, (c, w'))
      | (Inr is, w') \<Rightarrow> (Ok (fold (\<lambda>i m. AList.update (siGuid i) i m) is []), (c, w')))
   \<and> wf_map (fold (\<lambda>i m. AList.update (siGuid i) i m) is [])
   \<and> map_of (fold (\<lambda>i m. AList.update (siGuid i) i m) is []) g
       = find (\<lambda>i. siGuid i = g) (rev is)"
proof -
  have "wf_map (fold (\<lambda>i m. AList.update (siGuid i) i m) is [])"
    by (rule wf_fold_update) (simp add: wf_map_def)
  moreover have "map_of (fold (\<lambda>i m. AList.update (siGuid i) i m) is []) g
       = find (\<lambda>i. siGuid i = g) (rev is)"
    by (simp only: map_of_fold_update) (simp split: option.split)
  ultimately show ?thesis
    by (simp add: client_GetServiceInstances_def act_defs split: prod.split sum.split)
qed

text \<open>
  Property C34: \<open>SSHCode\<close> returns a code only when the authorization server redirected with
  exactly one code, and then returns that code.
\<close>

theorem SSHCode_exactly_one:
  assumes "client_SSHCode capi (c, w) = (Ok code, s')"
  shows "\<exists>base tok i w3 w4. api_Authorize capi
      \<lparr>tlsInsecureSkipVerify = insecureSkipVerify c, tlsMinVersion = minTLSVersion c,
       tlsCipherSuites = cipherSuites c\<rparr> (authorize_url base i) tok w3
    = (Redirect (Inr [code]), w4)"
proof -
  obtain i s1 base s2 tok s3 answer s4 where
    st: "with_handle (api_GetInfo capi) (c, w) = (Ok i, s1)"
      "of_sum (api_ParseURL capi (infoTokenEndpoint i)) s1 = (Ok base, s2)"
      "with_handle (api_GetToken capi) s2 = (Ok tok, s3)" and
    req: "client_authorize capi (authorize_url base i) tok s3 = (Ok answer, s4)" and
    ans: "pick_code answer s4 = (Ok code, s')"
    using assms unfolding client_SSHCode_def by (elim seq_OkE)
  from st have "fst s3 = c"
    by (auto simp: act_defs split: prod.splits sum.splits)
  moreover from ans have "answer = Redirect (Inr [code])"
    by (auto simp: pick_code_def act_defs split: authorize_answer.splits sum.splits list.splits)
  ultimately have "api_Authorize capi
      \<lparr>tlsInsecureSkipVerify = insecureSkipVerify c, tlsMinVersion = minTLSVersion c,
       tlsCipherSuites = cipherSuites c\<rparr> (authorize_url base i) tok (snd s3)
    = (Redirect (Inr [code]), snd s4)"
    using req by (cases s3; cases s4) (auto simp: client_authorize_def split: prod.splits)
  then show ?thesis by blast
qed

theorem SSHCode_exactly_one_witness:
  "client_SSHCode (demo_api empty_env [] []) (demo_client, 0) = (Ok ''code-1'', (demo_client, 0))
   \<and> (\<exists>q t. api_Authorize (demo_api empty_env [] [])
         \<lparr>tlsInsecureSkipVerify = True, tlsMinVersion = 0x0303, tlsCipherSuites = []\<rparr> q t 0
       = (Redirect (Inr [''code-1'']), 0))"
proof -
  have r: "client_SSHCode (demo_api empty_env [] []) (demo_client, 0)
      = (Ok ''code-1'', (demo_client, 0))"
    by (simp add: client_SSHCode_def client_authorize_def pick_code_def act_defs demo_api_def)
  from SSHCode_exactly_one [OF r] r show ?thesis
    by (auto simp: demo_client_def demo_api_def)
qed

end
