(* ===== verification/Services.thy ===== *)
theory Services
  imports Client Machine
begin

text \<open>
  The service providers (service/*.go): which client programs each one knows, how it prepares the
  environment of such a program, the arguments it adds, and its clean-up; and the interface
  \<open>conduit.ServiceProvider\<close> as a choice between the four, with the contract the application
  relies on.
\<close>

section \<open>Environment of the command\<close>

text \<open>
  A provider's method works on the provider, the environment map and the machine.
\<close>

type_synonym 'p svc = "'p \<times> string gomap \<times> machine"

definition setenv :: "string \<Rightarrow> string \<Rightarrow> ('p svc, unit) act" where
  "setenv k v = upd (\<lambda>(p, e, m). (p, AList.update k v e, m))"

definition on_prov :: "('p \<Rightarrow> 'p) \<Rightarrow> ('p svc, unit) act" where
  "on_prov f = upd (\<lambda>(p, e, m). (f p, e, m))"

definition on_mach :: "(machine, 'a) act \<Rightarrow> ('p svc, 'a) act" where
  "on_mach f = (\<lambda>(p, e, m). case f m of (r, m') \<Rightarrow> (r, (p, e, m')))"

text \<open>An error wrapped into a message.\<close>

definition wrap_err :: "string \<Rightarrow> ('s, 'a) act \<Rightarrow> ('s, 'a) act" where
  "wrap_err msg f = (\<lambda>s. case f s of
     (Err e, s') \<Rightarrow> (Err (ErrorString (msg @ error_text e)), s') | (r, s') \<Rightarrow> (r, s'))"

section \<open>MySQL\<close>

record mysql =
  workDir :: string
  myServiceCnt :: int

definition mycnf :: "creds \<Rightarrow> string" where
  "mycnf c =
     (let account = ''user = '' @ Username c @ nl @ ''password = '' @ Password c @ nl
                    @ ''host = '' @ Host c @ nl @ ''port = '' @ itoa64 (Port c) @ nl
      in ''[mysql]'' @ nl @ account @ ''database = '' @ Database c @ nl
         @ ''[mysqldump]'' @ nl @ account)"

text \<open>A failed \<open>TempDir\<close> returns the empty name, which is stored as well.\<close>

definition mysql_tempdir :: "(mysql svc, string) act" where
  "mysql_tempdir = (\<lambda>s. case on_mach (TempDir ''conduit'') s of
     (Ok d, s1) \<Rightarrow> andthen (on_prov (\<lambda>p. p\<lparr>workDir := d\<rparr>)) (ret d) s1
   | (Err e, s1) \<Rightarrow> andthen (on_prov (\<lambda>p. p\<lparr>workDir := []\<rparr>)) (raise e) s1
   | (Panic q, s1) \<Rightarrow> (Panic q, s1))"

definition mysql_InitEnv :: "creds \<Rightarrow> (mysql svc, unit) act" where
  "mysql_InitEnv c =
     seq (get_st (\<lambda>(p, e, m). myServiceCnt p > 0)) (\<lambda>configured.
       if configured then ret ()
       else seq mysql_tempdir (\<lambda>d.
         andthen (wrap_err ''failed to create temporary mysql config: ''
                    (on_mach (WriteFile (path_join d ''my.cnf'') (mycnf c))))
         (andthen (setenv ''MYSQL_HOME'' d)
         (on_prov (\<lambda>p. p\<lparr>myServiceCnt := myServiceCnt p + 1\<rparr>)))))"

definition mysql_Teardown :: "mysql \<Rightarrow> (machine, unit) act" where
  "mysql_Teardown p = (if workDir p \<noteq> [] then RemoveAll (workDir p) else ret ())"

definition mysql_known :: "string list" where
  "mysql_known = [''mysql'', ''mysqldump'']"

section \<open>Postgres\<close>

record postgres =
  pgServiceCnt :: int

definition postgres_InitEnv :: "creds \<Rightarrow> (postgres svc, unit) act" where
  "postgres_InitEnv c =
     seq (get_st (\<lambda>(p, e, m). pgServiceCnt p > 0)) (\<lambda>configured.
       if configured then ret ()
       else andthen (setenv ''PGDATABASE'' (Database c))
           (andthen (setenv ''PGHOST'' (Host c))
           (andthen (setenv ''PGPORT'' (itoa64 (Port c)))
           (andthen (setenv ''PGUSER'' (Username c))
           (andthen (setenv ''PGPASSWORD'' (Password c))
           (on_prov (\<lambda>p. p\<lparr>pgServiceCnt := pgServiceCnt p + 1\<rparr>)))))))"

definition postgres_known :: "string list" where
  "postgres_known = [''psql'', ''pg_dump'']"

section \<open>Redis\<close>

definition redis_IsTLSEnabled :: "creds \<Rightarrow> bool" where
  "redis_IsTLSEnabled c = (IsTLSEnabled c \<or> has_prefix (URI c) ''rediss'')"

definition redis_InitEnv :: "creds \<Rightarrow> (unit svc, unit) act" where
  "redis_InitEnv c = ret ()"

definition redis_clients :: "string list" where
  "redis_clients = [''redis-cli'']"

text \<open>The arguments come from the first instance; a nil instance is dereferenced.\<close>

definition redis_args :: "vcap_service option list \<Rightarrow> string list outcome" where
  "redis_args sis =
     (case sis of
        [] \<Rightarrow> Ok []
      | None # _ \<Rightarrow> Panic nil_deref
      | Some si # _ \<Rightarrow>
          let c = entries (vsCredentials si)
          in Ok [''-h'', Host c, ''-p'', itoa64 (Port c), ''-a'', Password c])"

section \<open>InfluxDB\<close>

definition influx_InitEnv :: "creds \<Rightarrow> (unit svc, unit) act" where
  "influx_InitEnv c =
     andthen (setenv ''INFLUX_USERNAME'' (Username c)) (setenv ''INFLUX_PASSWORD'' (Password c))"

definition influx_known :: "string list" where
  "influx_known = [''influx'', ''chronograf'', ''telegraf'', ''influx_inspect'', ''inch'']"

definition influx_args :: "vcap_service option list \<Rightarrow> string list outcome" where
  "influx_args sis =
     (case sis of
        [] \<Rightarrow> Ok []
      | None # _ \<Rightarrow> Panic nil_deref
      | Some si # _ \<Rightarrow>
          let c = entries (vsCredentials si)
          in Ok [''-host'', Host c, ''-port'', itoa64 (Port c), ''-database'', Database c,
                 ''-ssl'', ''-unsafeSsl''])"

section \<open>The interface\<close>

datatype provider = MySQL mysql | Postgres postgres | Redis | InfluxDB

definition sp_IsTLSEnabled :: "provider \<Rightarrow> creds \<Rightarrow> bool" where
  "sp_IsTLSEnabled p c =
     (case p of MySQL _ \<Rightarrow> IsTLSEnabled c | Postgres _ \<Rightarrow> IsTLSEnabled c
      | Redis \<Rightarrow> redis_IsTLSEnabled c | InfluxDB \<Rightarrow> False)"

definition sp_GetNonTLSClients :: "provider \<Rightarrow> string list" where
  "sp_GetNonTLSClients p =
     (case p of MySQL _ \<Rightarrow> [] | Postgres _ \<Rightarrow> [] | Redis \<Rightarrow> redis_clients | InfluxDB \<Rightarrow> [])"

definition sp_GetKnownClients :: "provider \<Rightarrow> string list" where
  "sp_GetKnownClients p =
     (case p of MySQL _ \<Rightarrow> mysql_known | Postgres _ \<Rightarrow> postgres_known
      | Redis \<Rightarrow> redis_clients | InfluxDB \<Rightarrow> influx_known)"

definition as_provider :: "('p \<Rightarrow> provider) \<Rightarrow> ('p svc, unit) act \<Rightarrow> 'p \<Rightarrow> string gomap \<Rightarrow> machine
    \<Rightarrow> unit outcome \<times> provider svc" where
  "as_provider con f p e m = (case f (p, e, m) of (r, (p', e', m')) \<Rightarrow> (r, (con p', e', m')))"

definition sp_InitEnv :: "creds \<Rightarrow> (provider svc, unit) act" where
  "sp_InitEnv c = (\<lambda>(sp, e, m).
     case sp of
       MySQL p \<Rightarrow> as_provider MySQL (mysql_InitEnv c) p e m
     | Postgres p \<Rightarrow> as_provider Postgres (postgres_InitEnv c) p e m
     | Redis \<Rightarrow> as_provider (\<lambda>_. Redis) (redis_InitEnv c) () e m
     | InfluxDB \<Rightarrow> as_provider (\<lambda>_. InfluxDB) (influx_InitEnv c) () e m)"

definition sp_Teardown :: "provider \<Rightarrow> (machine, unit) act" where
  "sp_Teardown sp = (case sp of MySQL p \<Rightarrow> mysql_Teardown p | _ \<Rightarrow> ret ())"

definition sp_AdditionalProgramArgs :: "provider \<Rightarrow> vcap_service option list \<Rightarrow> string list outcome" where
  "sp_AdditionalProgramArgs sp sis =
     (case sp of MySQL _ \<Rightarrow> Ok [] | Postgres _ \<Rightarrow> Ok []
      | Redis \<Rightarrow> redis_args sis | InfluxDB \<Rightarrow> influx_args sis)"

section \<open>The contract\<close>

text \<open>
  What the application relies on, stated for one provider: it names every program it treats as
  unable to speak TLS among those it knows, \<open>InitEnv\<close> writes its own variables only, never
  \<open>VCAP_SERVICES\<close>, writes none of them when it fails, does not panic and leaves the network
  alone, and without instances there are no further arguments.
\<close>

locale service_provider =
  fixes known nontls :: "string list"
    and owned :: "string list"
    and init :: "creds \<Rightarrow> ('p svc, unit) act"
    and args :: "vcap_service option list \<Rightarrow> string list outcome"
  assumes nontls_known: "set nontls \<subseteq> set known"
    and vcap_foreign: "''VCAP_SERVICES'' \<notin> set owned"
    and init_frame: "init c (p, e, m) = (r, (p', e', m')) \<Longrightarrow> k \<notin> set owned \<Longrightarrow> map_of e' k = map_of e k"
    and init_wf: "init c (p, e, m) = (r, (p', e', m')) \<Longrightarrow> wf_map e \<Longrightarrow> wf_map e'"
    and init_failed: "init c (p, e, m) = (Err err, (p', e', m')) \<Longrightarrow> e' = e"
    and init_calm: "no_panic (init c)"
    and init_net: "init c (p, e, m) = (r, (p', e', m')) \<Longrightarrow>
      listening m' = listening m \<and> foreign m' = foreign m"
    and args_none: "args [] = Ok []"
    and args_some: "args (Some si # sis) \<noteq> Panic q"
begin

lemma init_vcap: "init c (p, e, m) = (r, (p', e', m')) \<Longrightarrow>
    map_of e' ''VCAP_SERVICES'' = map_of e ''VCAP_SERVICES''"
  using vcap_foreign by (simp add: init_frame)

lemma init_returns: "fst (init c s) = Ok () \<or> (\<exists>err. fst (init c s) = Err err)"
  using init_calm [of c] unfolding no_panic_def by (cases "fst (init c s)") (simp, simp, blast)

lemma args_calm: "sis = [] \<or> hd sis \<noteq> None \<Longrightarrow> args sis \<noteq> Panic q"
  using args_none args_some by (cases sis) auto

end

lemmas svc_defs = setenv_def on_prov_def on_mach_def wrap_err_def act_defs

lemma map_of_update_other [simp]:
  "k \<noteq> k' \<Longrightarrow> map_of (AList.update k' v e) k = map_of e k"
  "map_of (AList.update k v e) k = Some v"
  by (simp_all add: update_conv')

text \<open>How each \<open>InitEnv\<close> runs.\<close>

lemma mysql_InitEnv_run:
  "mysql_InitEnv c (p, e, m) =
     (if myServiceCnt p > 0 then (Ok (), (p, e, m))
      else case TempDir ''conduit'' m of
        (Ok d, m1) \<Rightarrow>
          (case WriteFile (path_join d ''my.cnf'') (mycnf c) m1 of
             (Ok _, m2) \<Rightarrow> (Ok (), (p\<lparr>workDir := d, myServiceCnt := myServiceCnt p + 1\<rparr>,
                               AList.update ''MYSQL_HOME'' d e, m2))
           | (Err err, m2) \<Rightarrow> (Err (ErrorString (''failed to create temporary mysql config: ''
                                 @ error_text err)), (p\<lparr>workDir := d\<rparr>, e, m2))
           | (Panic q, m2) \<Rightarrow> (Panic q, (p\<lparr>workDir := d\<rparr>, e, m2)))
      | (Err err, m1) \<Rightarrow> (Err err, (p\<lparr>workDir := []\<rparr>, e, m1))
      | (Panic q, m1) \<Rightarrow> (Panic q, (p, e, m1)))"
  by (simp add: mysql_InitEnv_def mysql_tempdir_def svc_defs split: prod.split outcome.split)

lemma postgres_InitEnv_run:
  "postgres_InitEnv c (p, e, m) =
     (Ok (), if pgServiceCnt p > 0 then (p, e, m)
       else (p\<lparr>pgServiceCnt := pgServiceCnt p + 1\<rparr>,
             AList.update ''PGPASSWORD'' (Password c) (AList.update ''PGUSER'' (Username c)
               (AList.update ''PGPORT'' (itoa64 (Port c)) (AList.update ''PGHOST'' (Host c)
                 (AList.update ''PGDATABASE'' (Database c) e)))), m))"
  by (simp add: postgres_InitEnv_def svc_defs)

lemma influx_InitEnv_run:
  "influx_InitEnv c (p, e, m) =
     (Ok (), (p, AList.update ''INFLUX_PASSWORD'' (Password c)
                   (AList.update ''INFLUX_USERNAME'' (Username c) e), m))"
  by (simp add: influx_InitEnv_def svc_defs)

lemma file_net:
  "TempDir pat m = (r, m') \<Longrightarrow> listening m' = listening m \<and> foreign m' = foreign m"
  "WriteFile f t m = (r', m') \<Longrightarrow> listening m' = listening m \<and> foreign m' = foreign m"
  "RemoveAll d m = (r', m') \<Longrightarrow> listening m' = listening m \<and> foreign m' = foreign m"
  by (auto simp: TempDir_def WriteFile_def RemoveAll_def faulty_def Let_def
      split: option.splits if_splits)

abbreviation mysql_owned :: "string list" where
  "mysql_owned \<equiv> [''MYSQL_HOME'']"

abbreviation postgres_owned :: "string list" where
  "postgres_owned \<equiv> [''PGDATABASE'', ''PGHOST'', ''PGPORT'', ''PGUSER'', ''PGPASSWORD'']"

abbreviation influx_owned :: "string list" where
  "influx_owned \<equiv> [''INFLUX_USERNAME'', ''INFLUX_PASSWORD'']"

lemma calm_mysql: "no_panic (mysql_InitEnv c)"
proof -
  have "fst (mysql_InitEnv c (p, e, m)) \<noteq> Panic q" for p e m q
    by (auto simp: mysql_InitEnv_run no_panicD [OF calm_files(1)] no_panicD [OF calm_files(2)]
        split: prod.split outcome.split)
  then show ?thesis by (auto simp: no_panic_def)
qed

interpretation mysql: service_provider mysql_known "[]" mysql_owned mysql_InitEnv "\<lambda>_. Ok []"
  by unfold_locales
    (auto simp: mysql_InitEnv_run calm_mysql dest!: file_net split: if_splits prod.splits outcome.splits)

interpretation postgres: service_provider postgres_known "[]" postgres_owned postgres_InitEnv "\<lambda>_. Ok []"
  by unfold_locales
    (auto simp: postgres_InitEnv_run no_panic_def intro!: wf_map_update split: if_splits)

interpretation redis: service_provider redis_clients redis_clients "[]" redis_InitEnv redis_args
  by unfold_locales
    (auto simp: redis_InitEnv_def redis_args_def Let_def act_defs no_panic_def)

interpretation influx: service_provider influx_known "[]" influx_owned influx_InitEnv influx_args
  by unfold_locales
    (auto simp: influx_InitEnv_run influx_args_def Let_def no_panic_def intro!: wf_map_update)

text \<open>The four together, as the application sees them.\<close>

abbreviation provider_owned :: "string list" where
  "provider_owned \<equiv> mysql_owned @ postgres_owned @ influx_owned"

lemma sp_InitEnv_cases:
  assumes "sp_InitEnv c (sp, e, m) = (r, (sp', e', m'))"
  obtains (my) p p' where "sp = MySQL p" "sp' = MySQL p'" "mysql_InitEnv c (p, e, m) = (r, (p', e', m'))"
    | (pg) p p' where "sp = Postgres p" "sp' = Postgres p'"
        "postgres_InitEnv c (p, e, m) = (r, (p', e', m'))"
    | (re) "sp = Redis" "sp' = Redis" "redis_InitEnv c ((), e, m) = (r, ((), e', m'))"
    | (inf) "sp = InfluxDB" "sp' = InfluxDB" "influx_InitEnv c ((), e, m) = (r, ((), e', m'))"
  using assms
  by (auto simp: sp_InitEnv_def as_provider_def split: provider.splits prod.splits)

lemma calm_sp_InitEnv [calm]: "no_panic (sp_InitEnv c)"
proof -
  have "fst (sp_InitEnv c (sp, e, m)) \<noteq> Panic q" for sp e m q
  proof
    assume a: "fst (sp_InitEnv c (sp, e, m)) = Panic q"
    then obtain sp' e' m' where "sp_InitEnv c (sp, e, m) = (Panic q, (sp', e', m'))"
      by (metis prod.collapse)
    then show False
      using mysql.init_calm [of c] postgres.init_calm [of c] redis.init_calm [of c]
        influx.init_calm [of c]
      by (cases rule: sp_InitEnv_cases) (auto dest: no_panicD)
  qed
  then show ?thesis by (auto simp: no_panic_def)
qed

interpretation provider: service_provider "sp_GetKnownClients sp" "sp_GetNonTLSClients sp"
  provider_owned sp_InitEnv "sp_AdditionalProgramArgs sp" for sp
proof unfold_locales
  show "set (sp_GetNonTLSClients sp) \<subseteq> set (sp_GetKnownClients sp)"
    by (simp add: sp_GetNonTLSClients_def sp_GetKnownClients_def split: provider.split)
  show "''VCAP_SERVICES'' \<notin> set provider_owned" by simp
  show "sp_AdditionalProgramArgs sp [] = Ok []"
    by (simp add: sp_AdditionalProgramArgs_def redis_args_def influx_args_def split: provider.split)
  show "sp_AdditionalProgramArgs sp (Some si # sis) \<noteq> Panic q" for si sis q
    by (simp add: sp_AdditionalProgramArgs_def redis_args_def influx_args_def Let_def
        split: provider.split)
  show "no_panic (sp_InitEnv c)" for c by (rule calm_sp_InitEnv)
  fix c q e m r q' e' m' and k
  assume run: "sp_InitEnv c (q, e, m) = (r, (q', e', m'))"
  show "listening m' = listening m \<and> foreign m' = foreign m"
    using run by (cases rule: sp_InitEnv_cases)
      (auto dest: mysql.init_net postgres.init_net redis.init_net influx.init_net)
  show "map_of e' k = map_of e k" if "k \<notin> set provider_owned"
    using run that by (cases rule: sp_InitEnv_cases)
      (auto dest: mysql.init_frame postgres.init_frame redis.init_frame influx.init_frame)
  show "wf_map e'" if "wf_map e"
    using run that by (cases rule: sp_InitEnv_cases)
      (auto dest: mysql.init_wf postgres.init_wf redis.init_wf influx.init_wf)
next
  fix c q e m err q' e' m'
  assume "sp_InitEnv c (q, e, m) = (Err err, (q', e', m'))"
  then show "e' = e"
    by (cases rule: sp_InitEnv_cases)
      (auto dest: mysql.init_failed postgres.init_failed redis.init_failed influx.init_failed)
qed

section \<open>Properties\<close>

lemma below_join [simp]: "below d (path_join d f)"
  by (simp add: below_def path_join_def)

lemma map_of_filter_keys:
  "map_of (filter (\<lambda>(k, _). \<not> P k) m) k = (if P k then None else map_of m k)"
  by (induction m) auto

lemma RemoveAll_Ok:
  assumes "RemoveAll d m = (Ok u, m')"
  shows "map_of (files m') f = (if below d f then None else map_of (files m) f)"
    "dirs m' = filter (\<lambda>p. \<not> below d p) (dirs m)"
  using assms
  by (auto simp: RemoveAll_def faulty_def Let_def map_of_filter_keys split: option.splits)

lemma TempDir_Ok:
  assumes "TempDir pat m = (Ok d, m')"
  shows "files m' = files m" "dirs m' = dirs m @ [d]" "d \<noteq> []" "d \<notin> set (dirs m)"
  using assms by (auto simp: TempDir_def faulty_def Let_def split: option.splits if_splits)

lemma TempDir_Err:
  assumes "TempDir pat m = (Err err, m')"
  shows "files m' = files m" "dirs m' = dirs m"
  using assms by (auto simp: TempDir_def faulty_def Let_def split: option.splits if_splits)

lemma WriteFile_effect:
  assumes "WriteFile f txt m = (r, m')"
  shows "dirs m' = dirs m" "r = Ok u \<Longrightarrow> files m' = AList.update f txt (files m)"
    "r = Err err \<Longrightarrow> files m' = files m" "r \<noteq> Panic q"
  using assms by (auto simp: WriteFile_def faulty_def Let_def split: option.splits)

text \<open>The files a first \<open>InitEnv\<close> leaves behind: at most \<open>my.cnf\<close> in the working directory.\<close>

lemma mysql_InitEnv_files:
  assumes "mysql_InitEnv c (p, e, m) = (r, (p', e', m'))" and "myServiceCnt p \<le> 0"
  shows "if workDir p' = [] then files m' = files m \<and> dirs m' = dirs m
    else workDir p' \<notin> set (dirs m) \<and> dirs m' = dirs m @ [workDir p']
      \<and> (r = Ok () \<longrightarrow> map_of e' ''MYSQL_HOME'' = Some (workDir p')
            \<and> map_of (files m') (path_join (workDir p') ''my.cnf'') = Some (mycnf c))
      \<and> (\<forall>f. \<not> below (workDir p') f \<longrightarrow> map_of (files m') f = map_of (files m) f)"
proof -
  obtain r1 m1 where t: "TempDir ''conduit'' m = (r1, m1)" by fastforce
  show ?thesis
  proof (cases r1)
    case (Ok d)
    obtain r2 m2 where w: "WriteFile (path_join d ''my.cnf'') (mycnf c) m1 = (r2, m2)" by fastforce
    have f: "f \<noteq> path_join d ''my.cnf''" if "\<not> below d f" for f using that by auto
    show ?thesis
      using assms t w Ok TempDir_Ok [of "''conduit''" m d m1] WriteFile_effect [OF w] f
      by (cases r2) (auto simp: mysql_InitEnv_run)
  next
    case (Err err)
    with assms t TempDir_Err [of "''conduit''" m err m1] show ?thesis
      by (auto simp: mysql_InitEnv_run)
  next
    case (Panic q)
    with t show ?thesis by (simp add: no_panicD [OF calm_files(1)])
  qed
qed

text \<open>
  Property C32: the MySQL password file exists while the command runs and is gone afterwards. A
  first \<open>InitEnv\<close> that succeeds points \<open>MYSQL_HOME\<close> at a directory whose \<open>my.cnf\<close> holds the
  account; whether it succeeded or not, a \<open>Teardown\<close> that succeeds then leaves the files
  and directories as they were before, apart from anything that already was below that directory.
\<close>

theorem mysql_cleanup:
  assumes "mysql_InitEnv c (p, e, m) = (r, (p', e', m'))" and "myServiceCnt p \<le> 0"
    and "mysql_Teardown p' m' = (Ok (), m'')"
  shows "(r = Ok () \<longrightarrow> map_of e' ''MYSQL_HOME'' = Some (workDir p')
        \<and> map_of (files m') (path_join (workDir p') ''my.cnf'') = Some (mycnf c))
    \<and> map_of (files m'') f
        = (if workDir p' \<noteq> [] \<and> below (workDir p') f then None else map_of (files m) f)
    \<and> dirs m'' = (if workDir p' = [] then dirs m
                   else filter (\<lambda>d. \<not> below (workDir p') d) (dirs m))"
proof (cases "workDir p' = []")
  case True
  have "m'' = m'" using assms(3) True by (simp add: mysql_Teardown_def ret_def)
  moreover have "r \<noteq> Ok ()"
    using assms True by (auto simp: mysql_InitEnv_run dest: TempDir_Ok
        split: if_splits prod.splits outcome.splits)
  ultimately show ?thesis using mysql_InitEnv_files [OF assms(1,2)] True by simp
next
  case False
  then have rem: "RemoveAll (workDir p') m' = (Ok (), m'')"
    using assms(3) by (simp add: mysql_Teardown_def)
  have "below (workDir p') (workDir p')" by (simp add: below_def)
  then show ?thesis
    using mysql_InitEnv_files [OF assms(1,2)] RemoveAll_Ok [OF rem] False by simp
qed

theorem mysql_cleanup_witness:
  "\<exists>p' e' m' m''. mysql_InitEnv [(''user'', GStr ''u'')] (\<lparr>workDir = [], myServiceCnt = 0\<rparr>, [], demo_machine)
       = (Ok (), (p', e', m'))
     \<and> map_of (files m') (path_join (workDir p') ''my.cnf'') = Some (mycnf [(''user'', GStr ''u'')])
     \<and> mysql_Teardown p' m' = (Ok (), m'') \<and> dirs m'' = []"
proof -
  let ?c = "[(''user'', GStr ''u'')]" and ?p = "\<lparr>workDir = [], myServiceCnt = 0\<rparr>"
  obtain p' e' m' where r: "mysql_InitEnv ?c (?p, [], demo_machine) = (Ok (), (p', e', m'))"
    and o: "outage m' = (\<lambda>_. None)"
    by (simp add: mysql_InitEnv_run TempDir_def WriteFile_def faulty_def demo_machine_def Let_def)
  have "\<exists>m''. mysql_Teardown p' m' = (Ok (), m'')"
    using o by (simp add: mysql_Teardown_def RemoveAll_def faulty_def ret_def Let_def)
  then obtain m'' where d: "mysql_Teardown p' m' = (Ok (), m'')" by blast
  from mysql_cleanup [OF r _ d] r d show ?thesis by (fastforce simp: demo_machine_def)
qed

text \<open>
  \<open>psql\<close> and \<open>pg_dump\<close> are sent to the local end of the tunnel, with the account
  of the first service: after the address was replaced, the first \<open>InitEnv\<close> exports exactly
  that host and port, and a later call for another service changes nothing.
\<close>

theorem postgres_connects_locally:
  assumes "SetAddress (Some c) host port = Ok c'" and "\<exists>k \<in> set (keys c). is_host_key k"
    and "pgServiceCnt p = 0" and "postgres_InitEnv c' (p, e, m) = (r, (p', e', m'))"
  shows "r = Ok () \<and> map_of e' ''PGHOST'' = Some host \<and> map_of e' ''PGPORT'' = Some (itoa64 port)
    \<and> map_of e' ''PGUSER'' = Some (Username c') \<and> map_of e' ''PGPASSWORD'' = Some (Password c')
    \<and> map_of e' ''PGDATABASE'' = Some (Database c')
    \<and> postgres_InitEnv d (p', e', m') = (Ok (), (p', e', m'))"
  using assms(3,4) SetAddress_Host [OF assms(1,2)] SetAddress_Port [OF assms(1)]
  by (auto simp: postgres_InitEnv_run)

theorem postgres_connects_locally_witness:
  "\<exists>c' p' e' m'. postgres_InitEnv c' (\<lparr>pgServiceCnt = 0\<rparr>, [], demo_machine) = (Ok (), (p', e', m'))
     \<and> map_of e' ''PGHOST'' = Some ''127.0.0.1'' \<and> map_of e' ''PGPORT'' = Some (itoa64 7080)"
proof -
  let ?c = "[(''host'', GStr ''db.internal''), (''port'', GStr ''5432'')]"
  obtain c' where c': "SetAddress (Some ?c) ''127.0.0.1'' 7080 = Ok c'"
    using SetAddress_ok_iff [of "Some ?c"] by auto
  have h: "\<exists>k \<in> set (keys ?c). is_host_key k"
  proof -
    have "is_host_key ''host''" by code_simp
    then show ?thesis by simp
  qed
  obtain p' e' m' where r: "postgres_InitEnv c' (\<lparr>pgServiceCnt = 0\<rparr>, [], demo_machine) = (Ok (), (p', e', m'))"
    by (simp add: postgres_InitEnv_run)
  from postgres_connects_locally [OF c' h _ r] r show ?thesis by auto
qed

text \<open>
  The arguments added for \<open>redis-cli\<close> and the InfluxDB tools name the local end of
  the first service's tunnel once its address was replaced.
\<close>

theorem program_args_local:
  assumes "SetAddress (Some c) host port = Ok c'" and "\<exists>k \<in> set (keys c). is_host_key k"
    and "vsCredentials si = Some c'"
  shows "sp_AdditionalProgramArgs Redis (Some si # sis)
      = Ok [''-h'', host, ''-p'', itoa64 port, ''-a'', Password c']
    \<and> sp_AdditionalProgramArgs InfluxDB (Some si # sis)
      = Ok [''-host'', host, ''-port'', itoa64 port, ''-database'', Database c', ''-ssl'', ''-unsafeSsl'']"
  using SetAddress_Host [OF assms(1,2)] SetAddress_Port [OF assms(1)] assms(3)
  by (simp add: sp_AdditionalProgramArgs_def redis_args_def influx_args_def entries_def)

theorem program_args_local_witness:
  "\<exists>c'. sp_AdditionalProgramArgs Redis
       [Some \<lparr>vsName = ''cache'', vsCredentials = Some c', vsInstanceName = ''cache''\<rparr>]
     = Ok [''-h'', ''127.0.0.1'', ''-p'', itoa64 7081, ''-a'', Password c']"
proof -
  let ?c = "[(''host'', GStr ''db.internal''), (''port'', GStr ''6379'')]"
  obtain c' where c': "SetAddress (Some ?c) ''127.0.0.1'' 7081 = Ok c'"
    using SetAddress_ok_iff [of "Some ?c"] by auto
  have h: "\<exists>k \<in> set (keys ?c). is_host_key k"
  proof -
    have "is_host_key ''host''" by code_simp
    then show ?thesis by simp
  qed
  from program_args_local [OF c' h, of "\<lparr>vsName = ''cache'', vsCredentials = Some c',
    vsInstanceName = ''cache''\<rparr>" "[]"]
  show ?thesis by auto
qed

text \<open>
  Preparing the environment for a program returns (with or without an error),
  touches no variable but the provider's own, in particular not \<open>VCAP_SERVICES\<close>, and leaves the
  environment as it was when it fails.
\<close>

theorem InitEnv_frame:
  "case sp_InitEnv c (sp, e, m) of (r, (sp', e', m')) \<Rightarrow>
     map_of e' ''VCAP_SERVICES'' = map_of e ''VCAP_SERVICES''
   \<and> (k \<in> set provider_owned \<or> map_of e' k = map_of e k)
   \<and> (r = Ok () \<or> (\<exists>err. r = Err err) \<and> e' = e)"
proof -
  obtain r sp' e' m' where run: "sp_InitEnv c (sp, e, m) = (r, (sp', e', m'))"
    by (metis prod.exhaust)
  then show ?thesis
    using provider.init_returns [of c "(sp, e, m)"] provider.init_vcap [OF run]
      provider.init_frame [OF run, of k] provider.init_failed [of c sp e m _ sp' e' m']
    by auto
qed

end
