(* ===== verification/App.thy ===== *)
theory App
  imports Client Services SshTunnel TlsTunnel Status
begin

text \<open>
  The application (conduit/app.go): its state, construction, targeting, deployment of the helper
  app, binding of the services, use of an existing app and destruction of the helper app.
\<close>

section \<open>State\<close>

text \<open>
  \<open>App\<close>, in two parts: the part the set-up of the bindings works on, and the rest. The objects
  its pointers refer to are part of the state: the machine, the status line and the state
  behind the client. \<open>nil\<close> is \<open>None\<close>.
\<close>

record app_core =
  nextPort :: int64
  appName :: string
  program :: string
  serviceInstanceNames :: "string list"
  appEnv :: "env option"
  serviceProviders :: "provider gomap"
  runEnv :: "string gomap"
  forwardAddrs :: "forward list"
  mach :: machine

record 'c app = app_core +
  cfClient :: 'c
  appStatus :: status
  targetOrg :: string
  targetSpace :: string
  bindParameters :: gval
  deleteApp :: bool
  runArgs :: "string list"
  org :: "cf_org option"
  space :: "cf_space option"
  appGUID :: string
  tunnel :: "ssh_tunnel option"
  tlsTunnels :: "tls_tunnel list"
  appTlsInsecure :: bool
  appTlsCipherSuites :: "uint16 list"
  appTlsMinVersion :: uint16

definition NewApp ::
  "'c \<Rightarrow> status \<Rightarrow> machine \<Rightarrow> int64 \<Rightarrow> string \<Rightarrow> string \<Rightarrow> string \<Rightarrow> bool \<Rightarrow> string list \<Rightarrow> string list
     \<Rightarrow> gval \<Rightarrow> bool \<Rightarrow> uint16 list \<Rightarrow> uint16 \<Rightarrow> 'c app" where
  "NewApp c st m localPort orgN spaceN appN del names args params insec suites minver =
     \<lparr>nextPort = localPort, appName = appN,
      program = (if length args > 0 then args ! 0 else []),
      serviceInstanceNames = names, appEnv = None, serviceProviders = [], runEnv = [],
      forwardAddrs = [], mach = m, cfClient = c, appStatus = st, targetOrg = orgN, targetSpace = spaceN,
      bindParameters = params, deleteApp = del, runArgs = args, org = None, space = None,
      appGUID = [], tunnel = None, tlsTunnels = [], appTlsInsecure = insec,
      appTlsCipherSuites = suites, appTlsMinVersion = minver\<rparr>"

definition RegisterServiceProvider :: "string \<Rightarrow> provider \<Rightarrow> 'c app \<Rightarrow> 'c app" where
  "RegisterServiceProvider name sp a = a\<lparr>serviceProviders := AList.update name sp (serviceProviders a)\<rparr>"

section \<open>Building blocks\<close>

text \<open>An action that looks at the state it starts in.\<close>

definition with_st :: "('s \<Rightarrow> ('s, 'a) act) \<Rightarrow> ('s, 'a) act" where
  [act_defs]: "with_st f = (\<lambda>s. f s s)"

text \<open>\<open>if err != nil\<close> with something else to do than to return the error.\<close>

definition on_err :: "('s, 'a) act \<Rightarrow> (gerror \<Rightarrow> ('s, 'a) act) \<Rightarrow> ('s, 'a) act" where
  [act_defs]: "on_err m h = (\<lambda>s. case m s of (Err e, s') \<Rightarrow> h e s' | (r, s') \<Rightarrow> (r, s'))"

definition on_cf :: "('c, 'a) act \<Rightarrow> ('c app, 'a) act" where
  [act_defs]: "on_cf f = (\<lambda>a. case f (cfClient a) of (r, c) \<Rightarrow> (r, a\<lparr>cfClient := c\<rparr>))"

definition on_machine :: "(machine, 'a) act \<Rightarrow> ('c app, 'a) act" where
  [act_defs]: "on_machine f = (\<lambda>a. case f (mach a) of (r, m) \<Rightarrow> (r, a\<lparr>mach := m\<rparr>))"

definition status_text :: "string list \<Rightarrow> ('c app, unit) act" where
  "status_text args = upd (\<lambda>a. a\<lparr>appStatus := Text args (appStatus a)\<rparr>)"

definition deref :: "'a option \<Rightarrow> ('s, 'a) act" where
  [act_defs]: "deref p = (case p of None \<Rightarrow> panic nil_deref | Some x \<Rightarrow> ret x)"

lemma calm_with_st [calm]: "(\<And>s. no_panic (f s)) \<Longrightarrow> no_panic (with_st f)"
  by (simp add: no_panic_def with_st_def)

lemma calm_on_err [calm]: "no_panic m \<Longrightarrow> (\<And>e. no_panic (h e)) \<Longrightarrow> no_panic (on_err m h)"
  unfolding no_panic_def on_err_def by (auto split: prod.splits outcome.splits) (metis fst_conv)

lemma calm_on_cf [calm]: "no_panic f \<Longrightarrow> no_panic (on_cf f)"
  unfolding no_panic_def on_cf_def by (auto split: prod.splits) (metis fst_conv)

lemma calm_on_machine [calm]: "no_panic f \<Longrightarrow> no_panic (on_machine f)"
  unfolding no_panic_def on_machine_def by (auto split: prod.splits) (metis fst_conv)

lemma calm_status_text [calm]: "no_panic (status_text args)"
  unfolding status_text_def by (rule calm)

section \<open>Targeting and deploying\<close>

definition app_Init :: "'c client_api \<Rightarrow> ('c app, unit) act" where
  "app_Init api = with_st (\<lambda>a.
     andthen (status_text [''Targeting org'', targetOrg a])
     (seq (on_err (on_cf (GetOrgByName api (targetOrg a)))
             (\<lambda>e. andthen (upd (\<lambda>a. a\<lparr>org := None\<rparr>)) (raise e))) (\<lambda>o'.
     andthen (upd (\<lambda>a. a\<lparr>org := Some o'\<rparr>))
     (andthen (status_text [''Targeting space'', targetSpace a])
     (seq (on_err (on_cf (GetSpaceByName api (orgGuid o') (targetSpace a)))
             (\<lambda>e. andthen (upd (\<lambda>a. a\<lparr>space := None\<rparr>)) (raise e))) (\<lambda>sp.
     upd (\<lambda>a. a\<lparr>space := Some sp\<rparr>)))))))"

definition deployApp :: "'c client_api \<Rightarrow> ('c app, unit) act" where
  "deployApp api = with_st (\<lambda>a.
     andthen (status_text [''Deploying'', appName a])
     (seq (deref (space a)) (\<lambda>sp.
     seq (on_cf (CreateApp api (appName a) (spaceGuid sp))) (\<lambda>(guid, err).
     andthen (upd (\<lambda>a. a\<lparr>appGUID := guid\<rparr>))
     (case err of
        Some e \<Rightarrow> raise e
      | None \<Rightarrow>
          andthen (status_text [''Uploading'', appName a, ''bits''])
          (andthen (on_cf (UploadStaticAppBits api guid))
          (andthen (status_text [''Starting'', appName a])
          (andthen (on_cf (StartApp api guid))
          (andthen (status_text [''Waiting for conduit app to become available''])
          (on_cf (PollForAppState api guid ''STARTED'' 15)))))))))))"

text \<open>
  \<open>bindServices\<close> goes through all instances for each wanted name; every instance of that name is
  bound, and the credentials returned must have a host and a port.
\<close>

fun bind_instances ::
  "'c client_api \<Rightarrow> string \<Rightarrow> (string \<times> service_instance) list \<Rightarrow> bool \<Rightarrow> ('c app, bool) act" where
  "bind_instances api name [] bound = ret bound"
| "bind_instances api name ((guid, i) # rest) bound =
     (if name \<noteq> siName i then bind_instances api name rest bound
      else andthen (status_text [''Binding'', siName i]) (with_st (\<lambda>a.
        seq (on_cf (BindService api (appGUID a) guid (bindParameters a))) (\<lambda>c.
        if Host (entries c) = [] \<or> Port (entries c) = 0
          then raise (ErrorString (name @ '' service is missing host, hostname or port''))
        else bind_instances api name rest True))))"

definition quoted :: "string \<Rightarrow> string" where
  "quoted s = [CHR 0x27] @ s @ [CHR 0x27]"

definition bind_name :: "'c client_api \<Rightarrow> cf_space \<Rightarrow> service_instance gomap \<Rightarrow> string \<Rightarrow> ('c app, unit) act" where
  "bind_name api sp instances name =
     seq (bind_instances api name instances False) (\<lambda>bound.
     if bound then ret ()
     else raise (ErrorString (''failed to bind service: '' @ quoted name
            @ '' was not found in space '' @ quoted (spaceName sp))))"

definition bindServices :: "'c client_api \<Rightarrow> ('c app, unit) act" where
  "bindServices api = with_st (\<lambda>a.
     andthen (status_text [''Fetching service infomation''])
     (seq (deref (space a)) (\<lambda>sp.
     seq (on_cf (GetServiceInstances api [''space_guid:'' @ spaceGuid sp])) (\<lambda>instances.
     for_each (bind_name api sp instances) (serviceInstanceNames a)))))"

definition DeployApp :: "'c client_api \<Rightarrow> ('c app, unit) act" where
  "DeployApp api = andthen (deployApp api) (bindServices api)"

section \<open>An existing app\<close>

definition check_bound ::
  "cf_space \<Rightarrow> service_instance gomap \<Rightarrow> service_binding gomap \<Rightarrow> string \<Rightarrow> ('c app, unit) act" where
  "check_bound sp instances bindings name = with_st (\<lambda>a.
     let guid = (case find (\<lambda>(g, i). siName i = name) instances of None \<Rightarrow> [] | Some (g, _) \<Rightarrow> g)
     in if guid = []
          then raise (ErrorString (''Service '' @ quoted name @ '' was not found in space ''
                 @ quoted (spaceName sp) @ nl))
        else if map_of bindings guid = None
          then raise (ErrorString (''App '' @ quoted (appName a) @ '' doesn'' @ [CHR 0x27]
                 @ ''t appear to be bound to service '' @ quoted name
                 @ ''. Using an existing app requires the app to have an existing binding to the desired service(s).'' @ nl))
        else ret ())"

definition PrepareForExistingApp :: "'c client_api \<Rightarrow> ('c app, unit) act" where
  "PrepareForExistingApp api = with_st (\<lambda>a.
     andthen (status_text [''Fetching information about app'', appName a])
     (seq (deref (org a)) (\<lambda>o'.
     seq (deref (space a)) (\<lambda>sp.
     seq (on_cf (GetAppByName api (orgGuid o') (spaceGuid sp) (appName a))) (\<lambda>app.
     andthen (upd (\<lambda>a. a\<lparr>appGUID := appGuid app\<rparr>))
     (andthen (status_text [''Fetching service infomation''])
     (seq (on_cf (GetServiceInstances api [''space_guid:'' @ spaceGuid sp])) (\<lambda>instances.
     andthen (status_text [''Fetching binding infomation''])
     (seq (on_cf (GetServiceBindings api [''app_guid:'' @ appGuid app])) (\<lambda>bindings.
     for_each (check_bound sp instances bindings) (serviceInstanceNames a)))))))))))"

section \<open>Destroying the helper app\<close>

definition destroyApp :: "'c client_api \<Rightarrow> ('c app, unit) act" where
  "destroyApp api = with_st (\<lambda>a.
     let manually = raise (ErrorString (''failed to delete '' @ appName a
                       @ '' app, please delete it manually'' @ nl))
     in on_err (on_cf (DestroyApp api (appGUID a))) (\<lambda>_.
          andthen (on_err (on_cf (RefreshAccessToken api)) (\<lambda>_. manually))
          (on_err (on_cf (DestroyApp api (appGUID a))) (\<lambda>_. manually))))"

end
