(* ===== verification/Deployment.thy ===== *)
theory Deployment
  imports App
begin

text \<open>
  Properties of targeting, deploying, binding, using an existing app and destroying
  (conduit/app.go), stated over the sequence of calls made through the client interface. The
  sequence is recorded by a client that passes every call on.
\<close>

section \<open>A client that records its calls\<close>

datatype cf_call =
    C_Refresh | C_Env string | C_Space string string | C_Org string | C_App string string string
  | C_Bindings "string list" | C_Instances "string list" | C_Bind string string gval
  | C_Upload string | C_Destroy string | C_Create string string | C_Start string
  | C_Poll string string int | C_SSHCode

definition log_call :: "cf_call \<Rightarrow> ('c, 'a) act \<Rightarrow> ('c \<times> cf_call list, 'a) act" where
  "log_call x f = (\<lambda>(c, l). case f c of (r, c') \<Rightarrow> (r, (c', l @ [x])))"

definition logged :: "'c client_api \<Rightarrow> ('c \<times> cf_call list) client_api" where
  "logged api =
     \<lparr>RefreshAccessToken = log_call C_Refresh (RefreshAccessToken api),
      GetAppEnv = (\<lambda>g. log_call (C_Env g) (GetAppEnv api g)),
      GetSpaceByName = (\<lambda>og n. log_call (C_Space og n) (GetSpaceByName api og n)),
      GetOrgByName = (\<lambda>n. log_call (C_Org n) (GetOrgByName api n)),
      GetAppByName = (\<lambda>og sg n. log_call (C_App og sg n) (GetAppByName api og sg n)),
      GetServiceBindings = (\<lambda>fs. log_call (C_Bindings fs) (GetServiceBindings api fs)),
      GetServiceInstances = (\<lambda>fs. log_call (C_Instances fs) (GetServiceInstances api fs)),
      BindService = (\<lambda>g ig ps. log_call (C_Bind g ig ps) (BindService api g ig ps)),
      UploadStaticAppBits = (\<lambda>g. log_call (C_Upload g) (UploadStaticAppBits api g)),
      DestroyApp = (\<lambda>g. log_call (C_Destroy g) (DestroyApp api g)),
      CreateApp = (\<lambda>n sg. log_call (C_Create n sg) (CreateApp api n sg)),
      StartApp = (\<lambda>g. log_call (C_Start g) (StartApp api g)),
      PollForAppState = (\<lambda>g st n. log_call (C_Poll g st n) (PollForAppState api g st n)),
      AppSSHEndpoint = (\<lambda>(c, l). AppSSHEndpoint api c),
      AppSSHHostKeyFingerprint = (\<lambda>(c, l). AppSSHHostKeyFingerprint api c),
      SSHCode = log_call C_SSHCode (SSHCode api)\<rparr>"

abbreviation call_log :: "('c \<times> cf_call list) app \<Rightarrow> cf_call list" where
  "call_log a \<equiv> snd (cfClient a)"

lemma calm_log_call [calm]: "no_panic f \<Longrightarrow> no_panic (log_call x f)"
  unfolding no_panic_def log_call_def by (auto split: prod.splits) (metis fst_conv)

lemma log_call_log: "log_call x f (c, l) = (r, (c', l')) \<Longrightarrow> l' = l @ [x]"
  by (auto simp: log_call_def split: prod.splits)

interpretation recorded: cf_client "logged (client_impl capi)" for capi
proof unfold_locales
  fix n sp s g e s'
  show "\<exists>r s'. CreateApp (logged (client_impl capi)) n sp s = (Ok r, s')"
    using cf.create_outcome [of capi n sp "fst s"]
    by (cases s) (auto simp: logged_def log_call_def split: prod.split)
  show "CreateApp (logged (client_impl capi)) n sp s = (Ok (g, Some e), s') \<Longrightarrow> g = []"
    using cf.create_failed [of capi n sp "fst s" g e]
    by (cases s) (auto simp: logged_def log_call_def split: prod.splits)
qed (simp_all add: logged_def calm_log_call cf.calm_client)

text \<open>A recorded call of the application.\<close>

lemma on_cf_log:
  "on_cf (log_call x f) a = (case f (fst (cfClient a)) of
     (r, c) \<Rightarrow> (r, a\<lparr>cfClient := (c, call_log a @ [x])\<rparr>))"
  by (cases "cfClient a") (simp add: on_cf_def log_call_def split: prod.split)

lemmas app_run = seq_def upd_def with_st_def on_err_def raise_def ret_def status_text_def deref_def panic_def

section \<open>Deploying\<close>

definition deploy_calls :: "string \<Rightarrow> string \<Rightarrow> string \<Rightarrow> cf_call list" where
  "deploy_calls name sg guid =
     [C_Create name sg, C_Upload guid, C_Start guid, C_Poll guid ''STARTED'' 15]"

definition deploy_rest :: "'c client_api \<Rightarrow> string \<Rightarrow> string \<Rightarrow> ('c app, unit) act" where
  "deploy_rest api name guid =
     andthen (status_text [''Uploading'', name, ''bits''])
          (andthen (on_cf (UploadStaticAppBits api guid))
          (andthen (status_text [''Starting'', name])
          (andthen (on_cf (StartApp api guid))
          (andthen (status_text [''Waiting for conduit app to become available''])
          (on_cf (PollForAppState api guid ''STARTED'' 15))))))"

lemma deployApp_eq:
  "deployApp api = with_st (\<lambda>a.
     andthen (status_text [''Deploying'', appName a])
     (seq (deref (space a)) (\<lambda>sp.
     seq (on_cf (CreateApp api (appName a) (spaceGuid sp))) (\<lambda>(guid, err).
     andthen (upd (\<lambda>a. a\<lparr>appGUID := guid\<rparr>))
     (case err of Some e \<Rightarrow> raise e | None \<Rightarrow> deploy_rest api (appName a) guid)))))"
  unfolding deployApp_def deploy_rest_def ..

lemma deploy_rest_calls:
  assumes "deploy_rest (logged api) name guid a = (r, a')"
  shows "\<exists>k. call_log a' = call_log a @ take k [C_Upload guid, C_Start guid, C_Poll guid ''STARTED'' 15]
    \<and> appGUID a' = appGUID a \<and> 1 \<le> k \<and> (r = Ok () \<longrightarrow> k = 3)"
proof -
  obtain r1 c1 where 1: "UploadStaticAppBits api guid (fst (cfClient a)) = (r1, c1)" by fastforce
  obtain r2 c2 where 2: "StartApp api guid c1 = (r2, c2)" by fastforce
  obtain r3 c3 where 3: "PollForAppState api guid ''STARTED'' 15 c2 = (r3, c3)" by fastforce
  have run: "deploy_rest (logged api) name guid a = (r, a')" by (rule assms)
  show ?thesis
  proof (cases r1)
    case r1: (Ok u)
    show ?thesis
    proof (cases r2)
      case (Ok v)
      then show ?thesis
        using run r1 1 2 3
        by (intro exI [of _ 3]) (auto simp: deploy_rest_def app_run logged_def on_cf_log)
    qed (use run r1 1 2 in \<open>auto simp: deploy_rest_def app_run logged_def on_cf_log intro!: exI [of _ 2]\<close>)
  qed (use run 1 in \<open>auto simp: deploy_rest_def app_run logged_def on_cf_log intro!: exI [of _ 1]\<close>)
qed


definition demo_target :: "service_instance list \<Rightarrow> string list \<Rightarrow> (nat cst \<times> cf_call list) app" where
  "demo_target instances names = (NewApp ((demo_client, 0), []) (NewStatus True False ''OK'') demo_machine 7080
     ''org'' ''space'' ''app'' True names [] (GMap []) False [] 0x0303)
     \<lparr>org := Some \<lparr>orgGuid = ''org-guid''\<rparr>, space := Some \<lparr>spaceGuid = ''space-guid'', spaceName = ''space''\<rparr>\<rparr>"

abbreviation demo_logged :: "service_instance list \<Rightarrow> string list \<Rightarrow> (nat cst \<times> cf_call list) client_api" where
  "demo_logged instances states \<equiv> logged (client_impl (demo_api empty_env instances states))"

lemma demo_deploys:
  "let (r, a) = deployApp (demo_logged [] []) (demo_target [] [''db'']) in
     is_ok r \<and> appGUID a = ''app-guid'' \<and> map (\<lambda>x. case x of C_Create _ _ \<Rightarrow> True | _ \<Rightarrow> False) (call_log a)
       = [True, False, False, False]"
  by code_simp


section \<open>Destroying\<close>

lemma destroyApp_run:
  "case destroyApp (logged (client_impl capi)) a of (r, a') \<Rightarrow>
     (\<exists>k. call_log a' = call_log a @ take k [C_Destroy (appGUID a), C_Refresh, C_Destroy (appGUID a)]
        \<and> (k = 1 \<and> r = Ok ()
           \<or> k \<in> {2, 3} \<and> r = Err (ErrorString (''failed to delete '' @ appName a
               @ '' app, please delete it manually'' @ nl))
           \<or> k = 3 \<and> r = Ok ()))"
proof -
  let ?api = "client_impl capi"
  obtain r1 c1 where 1: "DestroyApp ?api (appGUID a) (fst (cfClient a)) = (r1, c1)"
    by (metis prod.exhaust)
  obtain r2 c2 where 2: "RefreshAccessToken ?api c1 = (r2, c2)" by (metis prod.exhaust)
  obtain r3 c3 where 3: "DestroyApp ?api (appGUID a) c2 = (r3, c3)"
    by (metis prod.exhaust)
  have np: "r1 \<noteq> Panic p" "r2 \<noteq> Panic p" "r3 \<noteq> Panic p" for p
    using no_panicD [OF cf.calm_destroy] no_panicD [OF cf.calm_refresh] 1 2 3 by metis+
  show ?thesis
  proof (cases r1)
    case r1: (Err e)
    show ?thesis
    proof (cases r2)
      case r2: (Ok u)
      show ?thesis
        using 1 2 3 r1 r2 np(3)
        by (cases r3) (auto simp: destroyApp_def app_run logged_def on_cf_log Let_def
            intro!: exI [of _ 3])
    qed (use 1 2 r1 np in \<open>auto simp: destroyApp_def app_run logged_def on_cf_log Let_def
          intro!: exI [of _ 2]\<close>)
  qed (use 1 np in \<open>auto simp: destroyApp_def app_run logged_def on_cf_log Let_def
        intro!: exI [of _ 1]\<close>)
qed


text \<open>
  An app that could not be created leaves no GUID, so that the later clean-up does
  not try to destroy it.
\<close>

theorem failed_create_leaves_no_guid:
  assumes "space a = Some sp"
    and "api_CreateApp capi (goCFClient (fst (cfClient a)))
        \<lparr>acrName = appName a, acrSpaceGuid = spaceGuid sp, acrEnableSSH = True, acrInstances = 1,
         acrMemory = 64, acrDiskQuota = 256, acrBuildpack = ''staticfile_buildpack'',
         acrHealthCheckType = ''none'', acrDiego = True\<rparr> (snd (cfClient a)) = (Inl e, w)"
  shows "\<exists>a'. deployApp (client_impl capi) a = (Err e, a') \<and> appGUID a' = []"
  using assms
  by (cases "cfClient a")
    (simp add: deployApp_eq app_run on_cf_def client_impl_def client_CreateApp_def Let_def)

theorem failed_create_leaves_no_guid_witness:
  "\<exists>a'. deployApp (client_impl ((demo_api empty_env [] [])\<lparr>api_CreateApp := (\<lambda>h r w. (Inl (ErrorString ''quota''), w))\<rparr>))
       ((NewApp (demo_client, 0) (NewStatus True False ''OK'') demo_machine 7080
     ''org'' ''space'' ''app'' True [] [] (GMap []) False [] 0x0303)\<lparr>space := Some \<lparr>spaceGuid = ''g'', spaceName = ''space''\<rparr>\<rparr>)
     = (Err (ErrorString ''quota''), a') \<and> appGUID a' = []"
  by (rule failed_create_leaves_no_guid [where sp = "\<lparr>spaceGuid = ''g'', spaceName = ''space''\<rparr>" and w = 0])
    (simp_all add: NewApp_def)

section \<open>Binding the services\<close>

text \<open>The calls that bind every instance of the wanted names.\<close>

definition bind_calls :: "string \<Rightarrow> gval \<Rightarrow> service_instance gomap \<Rightarrow> string list \<Rightarrow> cf_call list" where
  "bind_calls guid params instances names =
     concat (map (\<lambda>name. map (\<lambda>(g, i). C_Bind guid g params)
       (filter (\<lambda>(g, i). siName i = name) instances)) names)"

lemma bind_instances_calls:
  assumes "bind_instances (logged api) name is bound a = (Ok b, a')"
  shows "call_log a' = call_log a @ bind_calls (appGUID a) (bindParameters a) is [name]
    \<and> b = (bound \<or> (\<exists>(g, i) \<in> set is. siName i = name))
    \<and> appGUID a' = appGUID a \<and> bindParameters a' = bindParameters a"
  using assms
proof (induction "logged api" name "is" bound arbitrary: a rule: bind_instances.induct)
  case (1 name bound)
  then show ?case by (simp add: ret_def bind_calls_def)
next
  case (2 name guid i rest bound)
  show ?case
  proof (cases "name = siName i")
    case False
    with 2 show ?thesis by (simp add: bind_calls_def)
  next
    case True
    let ?a1 = "a\<lparr>appStatus := Text [''Binding'', siName i] (appStatus a)\<rparr>"
    obtain x c1 where x: "BindService api (appGUID a) guid (bindParameters a) (fst (cfClient a)) = (x, c1)"
      by fastforce
    let ?a2 = "?a1\<lparr>cfClient := (c1, call_log a @ [C_Bind (appGUID a) guid (bindParameters a)])\<rparr>"
    have call: "on_cf (BindService (logged api) (appGUID a) guid (bindParameters a)) ?a1 = (x, ?a2)"
      using x by (simp add: logged_def on_cf_log)
    obtain c where c: "x = Ok c" "\<not> (Host (entries c) = [] \<or> Port (entries c) = 0)"
      and rest: "bind_instances (logged api) name rest True ?a2 = (Ok b, a')"
    proof (cases x)
      case (Ok c)
      with 2(3) True call that show ?thesis
        by (simp add: app_run split: if_splits)
    qed (use 2(3) True call in \<open>simp_all add: app_run\<close>)
    from 2(2) [OF _ c(2) rest] True show ?thesis by (simp add: bind_calls_def)
  qed
qed

lemma bind_names_calls:
  assumes "for_each (bind_name (logged api) sp is) names a = (Ok (), a')"
  shows "call_log a' = call_log a @ bind_calls (appGUID a) (bindParameters a) is names
    \<and> (\<forall>name \<in> set names. \<exists>(g, i) \<in> set is. siName i = name)"
  using assms
proof (induction names arbitrary: a)
  case Nil
  then show ?case by (simp add: ret_def bind_calls_def)
next
  case (Cons name names)
  from Cons.prems obtain u a1 where one: "bind_name (logged api) sp is name a = (Ok u, a1)"
    and rest: "for_each (bind_name (logged api) sp is) names a1 = (Ok (), a')"
    by (auto elim: seq_OkE)
  from one obtain b where b: "bind_instances (logged api) name is False a = (Ok b, a1)" "b"
    by (auto simp: bind_name_def app_run split: prod.splits outcome.splits if_splits)
  from bind_instances_calls [OF b(1)] b(2) Cons.IH [OF rest] show ?case
    by (auto simp: bind_calls_def)
qed

text \<open>
  Property C21: when binding succeeds, the instances of the space were listed once, every wanted
  name has an instance there, and each instance with a wanted name was bound to the app exactly
  as often as its name is wanted, in that order; no other call was made.
\<close>

theorem bindServices_calls:
  assumes "bindServices (logged api) a = (Ok (), a')" and "space a = Some sp"
  shows "\<exists>is c. GetServiceInstances api [''space_guid:'' @ spaceGuid sp] (fst (cfClient a)) = (Ok is, c)
    \<and> call_log a' = call_log a @ C_Instances [''space_guid:'' @ spaceGuid sp]
        # bind_calls (appGUID a) (bindParameters a) is (serviceInstanceNames a)
    \<and> (\<forall>name \<in> set (serviceInstanceNames a). \<exists>(g, i) \<in> set is. siName i = name)"
proof -
  let ?q = "[''space_guid:'' @ spaceGuid sp]"
  obtain x c where x: "GetServiceInstances api ?q (fst (cfClient a)) = (x, c)" by fastforce
  let ?a1 = "a\<lparr>appStatus := Text [''Fetching service infomation''] (appStatus a),
    cfClient := (c, call_log a @ [C_Instances ?q])\<rparr>"
  have run: "bindServices (logged api) a = (case x of
      Ok is \<Rightarrow> for_each (bind_name (logged api) sp is) (serviceInstanceNames a) ?a1
    | Err e \<Rightarrow> (Err e, ?a1) | Panic p \<Rightarrow> (Panic p, ?a1))"
    using x assms(2)
    by (simp add: bindServices_def app_run logged_def on_cf_log split: outcome.split)
  then obtain "is" where i: "x = Ok is"
    and rest: "for_each (bind_name (logged api) sp is) (serviceInstanceNames a) ?a1 = (Ok (), a')"
    using assms(1) by (cases x) auto
  from bind_names_calls [OF rest] x i show ?thesis by simp
qed

lemma demo_binds:
  "is_ok (fst (bindServices (demo_logged [\<lparr>siGuid = ''g1'', siName = ''db''\<rparr>] []) (demo_target [] [''db''])))"
  by code_simp

theorem bindServices_calls_witness:
  "\<exists>a'. bindServices (demo_logged [\<lparr>siGuid = ''g1'', siName = ''db''\<rparr>] []) (demo_target [] [''db'']) = (Ok (), a')
     \<and> call_log a' = [C_Instances [''space_guid:space-guid''], C_Bind [] ''g1'' (GMap [])]"
proof -
  let ?api = "client_impl (demo_api empty_env [\<lparr>siGuid = ''g1'', siName = ''db''\<rparr>] [])"
  let ?a = "demo_target [] [''db'']"
  obtain a' where run: "bindServices (logged ?api) ?a = (Ok (), a')"
    using demo_binds by (cases "bindServices (logged ?api) ?a") (auto elim: is_okE)
  have sp: "space ?a = Some \<lparr>spaceGuid = ''space-guid'', spaceName = ''space''\<rparr>"
    "appGUID ?a = []" "call_log ?a = []" "cfClient ?a = ((demo_client, 0), [])"
    "bindParameters ?a = GMap []" "serviceInstanceNames ?a = [''db'']"
    by (simp_all add: demo_target_def NewApp_def)
  have i: "fst (GetServiceInstances ?api q (demo_client, 0)) = Ok [(''g1'', \<lparr>siGuid = ''g1'', siName = ''db''\<rparr>)]" for q
    by (simp add: client_impl_def client_GetServiceInstances_def act_defs demo_api_def)
  from bindServices_calls [OF run sp(1)] sp show ?thesis
    using run i [of "[''space_guid:space-guid'']"] by (auto simp: bind_calls_def)
qed

section \<open>Using an existing app\<close>

lemma check_bound_ok:
  "check_bound sp is bs name a = (Ok (), a') \<longleftrightarrow>
     a' = a \<and> (\<exists>g i. find (\<lambda>(g, i). siName i = name) is = Some (g, i) \<and> g \<noteq> [] \<and> map_of bs g \<noteq> None)"
  by (auto simp: check_bound_def app_run Let_def split: option.splits if_splits)

lemma find_found: "find P xs = Some x \<Longrightarrow> x \<in> set xs \<and> P x"
  by (auto simp: find_Some_iff)

lemma check_all_bound:
  "for_each (check_bound sp is bs) names a = (Ok (), a') \<Longrightarrow>
     a' = a \<and> (\<forall>name \<in> set names. \<exists>g i. (g, i) \<in> set is \<and> siName i = name \<and> g \<noteq> [] \<and> map_of bs g \<noteq> None)"
proof (induction names arbitrary: a)
  case Nil
  then show ?case by (simp add: ret_def)
next
  case (Cons name names)
  from Cons.prems obtain u a1 where "check_bound sp is bs name a = (Ok u, a1)"
    and rest: "for_each (check_bound sp is bs) names a1 = (Ok (), a')" by (auto elim: seq_OkE)
  then have one: "a1 = a" "\<exists>g i. find (\<lambda>(g, i). siName i = name) is = Some (g, i) \<and> g \<noteq> [] \<and> map_of bs g \<noteq> None"
    by (auto simp: check_bound_ok)
  then have "\<exists>g i. (g, i) \<in> set is \<and> siName i = name \<and> g \<noteq> [] \<and> map_of bs g \<noteq> None"
    using find_found by fastforce
  with Cons.IH [OF rest] one(1) show ?case by auto
qed

text \<open>
  Property C22: preparing for an existing app changes nothing on the platform: it makes three
  queries. If it succeeds, the app's GUID is the one found by name, and every wanted service has
  an instance in the space that the app is bound to.
\<close>

theorem PrepareForExistingApp_checks:
  assumes "PrepareForExistingApp (logged api) a = (Ok (), a')"
    and "org a = Some o'" and "space a = Some sp"
  shows "call_log a' = call_log a @ [C_App (orgGuid o') (spaceGuid sp) (appName a),
      C_Instances [''space_guid:'' @ spaceGuid sp], C_Bindings [''app_guid:'' @ appGUID a']]
    \<and> (\<exists>c app c1 is c2 bs c3. GetAppByName api (orgGuid o') (spaceGuid sp) (appName a) c = (Ok app, c1)
        \<and> appGUID a' = appGuid app
        \<and> GetServiceInstances api [''space_guid:'' @ spaceGuid sp] c1 = (Ok is, c2)
        \<and> GetServiceBindings api [''app_guid:'' @ appGuid app] c2 = (Ok bs, c3)
        \<and> (\<forall>name \<in> set (serviceInstanceNames a). \<exists>g i. (g, i) \<in> set is \<and> siName i = name
              \<and> g \<noteq> [] \<and> map_of bs g \<noteq> None))"
proof -
  let ?q = "[''space_guid:'' @ spaceGuid sp]"
  obtain x1 c1 where 1: "GetAppByName api (orgGuid o') (spaceGuid sp) (appName a) (fst (cfClient a)) = (x1, c1)"
    by fastforce
  then obtain app where app: "x1 = Ok app"
    using assms by (cases x1) (auto simp: PrepareForExistingApp_def app_run logged_def on_cf_log)
  obtain x2 c2 where 2: "GetServiceInstances api ?q c1 = (x2, c2)" by fastforce
  then obtain "is" where "is": "x2 = Ok is"
    using assms 1 app by (cases x2) (auto simp: PrepareForExistingApp_def app_run logged_def on_cf_log)
  obtain x3 c3 where 3: "GetServiceBindings api [''app_guid:'' @ appGuid app] c2 = (x3, c3)" by fastforce
  then obtain bs where bs: "x3 = Ok bs"
    using assms 1 app 2 "is"
    by (cases x3) (auto simp: PrepareForExistingApp_def app_run logged_def on_cf_log)
  obtain a1 where a1: "for_each (check_bound sp is bs) (serviceInstanceNames a) a1 = (Ok (), a')"
    "call_log a1 = call_log a @ [C_App (orgGuid o') (spaceGuid sp) (appName a), C_Instances ?q,
      C_Bindings [''app_guid:'' @ appGuid app]]" "appGUID a1 = appGuid app"
  proof -
    let ?a1 = "a\<lparr>appGUID := appGuid app, appStatus := Text [''Fetching binding infomation'']
        (Text [''Fetching service infomation''] (Text [''Fetching information about app'', appName a] (appStatus a))),
      cfClient := (c3, call_log a @ [C_App (orgGuid o') (spaceGuid sp) (appName a), C_Instances ?q,
      C_Bindings [''app_guid:'' @ appGuid app]])\<rparr>"
    have "for_each (check_bound sp is bs) (serviceInstanceNames a) ?a1 = (Ok (), a')"
      using assms 1 app 2 "is" 3 bs
      by (simp add: PrepareForExistingApp_def app_run logged_def on_cf_log)
    then show thesis by (rule that) simp_all
  qed
  from check_all_bound [OF a1(1)] have "a' = a1" and
    all: "\<forall>name \<in> set (serviceInstanceNames a). \<exists>g i. (g, i) \<in> set is \<and> siName i = name \<and> g \<noteq> [] \<and> map_of bs g \<noteq> None"
    by blast+
  then show ?thesis using a1 1 2 3 app "is" bs by metis
qed

lemma demo_prepares:
  "is_ok (fst (PrepareForExistingApp (demo_logged [\<lparr>siGuid = ''g1'', siName = ''db''\<rparr>] []) (demo_target [] [''db''])))"
  by code_simp

theorem PrepareForExistingApp_checks_witness:
  "\<exists>a'. PrepareForExistingApp (demo_logged [\<lparr>siGuid = ''g1'', siName = ''db''\<rparr>] []) (demo_target [] [''db'']) = (Ok (), a')
     \<and> length (call_log a') = 3"
proof -
  let ?api = "client_impl (demo_api empty_env [\<lparr>siGuid = ''g1'', siName = ''db''\<rparr>] [])"
  let ?a = "demo_target [] [''db'']"
  obtain a' where run: "PrepareForExistingApp (logged ?api) ?a = (Ok (), a')"
    using demo_prepares by (cases "PrepareForExistingApp (logged ?api) ?a") (auto elim: is_okE)
  have sp: "org ?a = Some \<lparr>orgGuid = ''org-guid''\<rparr>"
    "space ?a = Some \<lparr>spaceGuid = ''space-guid'', spaceName = ''space''\<rparr>" "call_log ?a = []"
    by (simp_all add: demo_target_def NewApp_def)
  from PrepareForExistingApp_checks [OF run sp(1,2)] run sp(3) show ?thesis by auto
qed

end
