(* ===== verification/Bindings.thy ===== *)
theory Bindings
  imports App
begin

text \<open>
  \<open>initServiceBindings\<close> (conduit/app.go): choosing the service instances that were asked for,
  planning a tunnel for each, pointing their credentials at the tunnels, preparing the
  environment of the program and publishing \<open>VCAP_SERVICES\<close>. All but the last steps work on
  the core part of the application's state.
\<close>

section \<open>VCAP_SERVICES\<close>

text \<open>\<open>a.appEnv.SystemEnv.VcapServices\<close>, through two pointers that may be nil.\<close>

definition get_services :: "('m app_core_scheme, vcap_services option) act" where
  "get_services = with_st (\<lambda>a. seq (deref (appEnv a)) (\<lambda>e. deref (systemEnv e)))"

definition services_of :: "'m app_core_scheme \<Rightarrow> vcap_services" where
  "services_of a = (case appEnv a of
     Some e \<Rightarrow> (case systemEnv e of Some (Some m) \<Rightarrow> m | _ \<Rightarrow> []) | None \<Rightarrow> [])"

definition put_services :: "vcap_services \<Rightarrow> ('m app_core_scheme, unit) act" where
  "put_services m = upd (\<lambda>a. a\<lparr>appEnv := Some \<lparr>systemEnv = Some (Some m)\<rparr>\<rparr>)"

text \<open>The list of instances under a service name, empty if there is none.\<close>

definition instances_of :: "vcap_services \<Rightarrow> string \<Rightarrow> vcap_service option list" where
  "instances_of m k = (case map_of m k of None \<Rightarrow> [] | Some sis \<Rightarrow> sis)"

section \<open>One instance\<close>

text \<open>
  The instances are pointers, so a change of the credentials shows in the map at once. The
  program's provider prepares the environment; its error is not looked at.
\<close>

definition put_instance :: "string \<Rightarrow> nat \<Rightarrow> vcap_service \<Rightarrow> ('m app_core_scheme, unit) act" where
  "put_instance k i si = with_st (\<lambda>a.
     let m = services_of a
     in put_services (AList.update k ((instances_of m k)[i := Some si]) m))"

definition init_program_env :: "string \<Rightarrow> provider \<Rightarrow> creds \<Rightarrow> ('m app_core_scheme, unit) act" where
  "init_program_env serviceName sp c = (\<lambda>a.
     case sp_InitEnv c (sp, runEnv a, mach a) of
       (r, (sp', e, m)) \<Rightarrow>
         ((case r of Panic p \<Rightarrow> Panic p | _ \<Rightarrow> Ok ()),
          a\<lparr>serviceProviders := AList.update serviceName sp' (serviceProviders a),
            runEnv := e, mach := m\<rparr>))"

text \<open>The local variables: unsatisfied names, whether the program has its service, instances kept.\<close>

type_synonym locals = "string list \<times> bool \<times> vcap_service option list"

definition wants_tls :: "string \<Rightarrow> string \<Rightarrow> provider \<Rightarrow> creds \<Rightarrow> bool" where
  "wants_tls prog serviceName sp c =
     (let createTLSTunnel = prog \<in> set (sp_GetNonTLSClients sp)
      in serviceName = ''redis'' \<and> sp_IsTLSEnabled sp c \<and> createTLSTunnel)"

definition plan_forward :: "string \<Rightarrow> int64 \<Rightarrow> string \<Rightarrow> provider \<Rightarrow> creds \<Rightarrow> forward" where
  "plan_forward prog port serviceName sp c =
     \<lparr>LocalPort = port,
      TLSTunnelPort = (if wants_tls prog serviceName sp c then port + 1 else 0),
      RemoteAddr = addr_text (Host c) (Port c)\<rparr>"

definition ports_used :: "string \<Rightarrow> string \<Rightarrow> provider \<Rightarrow> creds \<Rightarrow> int64" where
  "ports_used prog serviceName sp c = (if wants_tls prog serviceName sp c then 2 else 1)"

definition scan_instance ::
  "string \<Rightarrow> nat \<Rightarrow> vcap_service option \<Rightarrow> locals \<Rightarrow> ('m app_core_scheme, locals) act" where
  "scan_instance serviceName i msi = (\<lambda>(unsatisfied, satisfied, kept).
     seq (deref msi) (\<lambda>si.
     if vsInstanceName si \<notin> set unsatisfied then ret (unsatisfied, satisfied, kept)
     else with_st (\<lambda>a.
       case map_of (serviceProviders a) serviceName of
         None \<Rightarrow> raise (ErrorString (''App '' @ appName a @ '': service instance '' @ vsInstanceName si
                   @ '' is of unknown type '' @ serviceName
                   @ '', don'' @ [CHR 0x27] @ ''t know how to handle its credentials''))
       | Some sp \<Rightarrow>
           let fwd = plan_forward (program a) (nextPort a) serviceName sp (entries (vsCredentials si));
               used = ports_used (program a) serviceName sp (entries (vsCredentials si))
           in andthen (upd (\<lambda>a. a\<lparr>nextPort := nextPort a + used, forwardAddrs := forwardAddrs a @ [fwd]\<rparr>))
             (case SetAddress (vsCredentials si) ''127.0.0.1'' (ConnectPort fwd) of
                Panic p \<Rightarrow> panic p
              | Err e \<Rightarrow> raise e
              | Ok c' \<Rightarrow>
                  let si' = si\<lparr>vsCredentials := Some c'\<rparr>
                  in andthen (put_instance serviceName i si')
                    (if \<not> satisfied \<and> program a \<in> set (sp_GetKnownClients sp)
                     then andthen (init_program_env serviceName sp c')
                            (ret (filter (\<lambda>n. n \<noteq> vsInstanceName si) unsatisfied, True, kept @ [Some si']))
                     else ret (filter (\<lambda>n. n \<noteq> vsInstanceName si) unsatisfied, satisfied, kept @ [Some si']))))))"

section \<open>All instances\<close>

fun scan_instances ::
  "string \<Rightarrow> nat \<Rightarrow> vcap_service option list \<Rightarrow> locals \<Rightarrow> ('m app_core_scheme, locals) act" where
  "scan_instances serviceName i [] loc = ret loc"
| "scan_instances serviceName i (msi # rest) loc =
     seq (scan_instance serviceName i msi loc) (scan_instances serviceName (Suc i) rest)"

definition scan_service ::
  "string \<Rightarrow> string list \<Rightarrow> bool \<Rightarrow> ('m app_core_scheme, string list \<times> bool) act" where
  "scan_service k unsatisfied satisfied = with_st (\<lambda>a.
     seq (scan_instances k 0 (instances_of (services_of a) k) (unsatisfied, satisfied, []))
       (\<lambda>(unsatisfied', satisfied', kept). with_st (\<lambda>a'.
     andthen (put_services (if kept = [] then AList.delete k (services_of a')
                            else AList.update k kept (services_of a')))
       (ret (unsatisfied', satisfied')))))"

fun scan_services ::
  "string list \<Rightarrow> string list \<Rightarrow> bool \<Rightarrow> ('m app_core_scheme, string list \<times> bool) act" where
  "scan_services [] unsatisfied satisfied = ret (unsatisfied, satisfied)"
| "scan_services (k # ks) unsatisfied satisfied =
     seq (scan_service k unsatisfied satisfied) (\<lambda>(unsatisfied', satisfied').
       scan_services ks unsatisfied' satisfied')"

definition getAllValidServiceTypesForProgram :: "provider gomap \<Rightarrow> string \<Rightarrow> string list" where
  "getAllValidServiceTypesForProgram providers prog =
     concat (map (\<lambda>(serviceType, sp).
       map (\<lambda>_. serviceType) (filter (\<lambda>client. client = prog) (sp_GetKnownClients sp))) providers)"

section \<open>After the loop\<close>

definition check_satisfied :: "string list \<Rightarrow> bool \<Rightarrow> ('m app_core_scheme, unit) act" where
  "check_satisfied unsatisfied satisfied = with_st (\<lambda>a.
     if unsatisfied \<noteq> []
     then raise (ErrorString (''App '' @ appName a
            @ '': can'' @ [CHR 0x27] @ ''t find binding information for services: '' @ join '', '' unsatisfied))
     else if program a \<noteq> [] \<and> \<not> satisfied
     then (let types = getAllValidServiceTypesForProgram (serviceProviders a) (program a)
           in if types = []
              then raise (ErrorString (''Unknown program '' @ program a
                     @ '': can'' @ [CHR 0x27] @ ''t determine what service types it expects''))
              else raise (ErrorString (program a
                     @ '' program expects one of the following service types: '' @ join '', '' types)))
     else ret ())"

definition publish_services :: "('m app_core_scheme, unit) act" where
  "publish_services =
     seq get_services (\<lambda>m.
     upd (\<lambda>a. a\<lparr>runEnv := AList.update ''VCAP_SERVICES'' (vcap_json m) (runEnv a)\<rparr>))"

text \<open>Everything after the environment was fetched.\<close>

definition bind_environment :: "('m app_core_scheme, unit) act" where
  "bind_environment =
     seq get_services (\<lambda>m. with_st (\<lambda>a.
     seq (scan_services (sort (keys (case m of None \<Rightarrow> [] | Some s \<Rightarrow> s)))
            (set_of_names (serviceInstanceNames a)) False) (\<lambda>(unsatisfied, satisfied).
     andthen (check_satisfied unsatisfied satisfied)
     publish_services)))"

definition initServiceBindings :: "'c client_api \<Rightarrow> ('c app, unit) act" where
  "initServiceBindings api =
     andthen (status_text [''Fetching environment''])
     (with_st (\<lambda>a.
     seq (on_cf (GetAppEnv api (appGUID a))) (\<lambda>e.
     andthen (upd (\<lambda>a. a\<lparr>appEnv := Some e\<rparr>))
     bind_environment)))"

end
