(* ===== verification/BindingPlan.thy ===== *)
theory BindingPlan
  imports Bindings
begin

text \<open>
  An abstract specification of \<open>initServiceBindings\<close>: the plan, a pure function of the service
  list, the wanted names, the program and the first port; and the proof that the loop of the
  program carries it out.
\<close>

section \<open>The plan\<close>

text \<open>What the plan needs of a provider does not depend on the provider's state.\<close>

definition blank :: "provider \<Rightarrow> provider" where
  "blank sp = (case sp of MySQL _ \<Rightarrow> MySQL \<lparr>workDir = [], myServiceCnt = 0\<rparr>
     | Postgres _ \<Rightarrow> Postgres \<lparr>pgServiceCnt = 0\<rparr> | Redis \<Rightarrow> Redis | InfluxDB \<Rightarrow> InfluxDB)"

definition kinds :: "provider gomap \<Rightarrow> string \<Rightarrow> provider option" where
  "kinds provs k = map_option blank (map_of provs k)"

lemma blank_simps [simp]:
  "sp_IsTLSEnabled (blank sp) c = sp_IsTLSEnabled sp c"
  "sp_GetNonTLSClients (blank sp) = sp_GetNonTLSClients sp"
  "sp_GetKnownClients (blank sp) = sp_GetKnownClients sp"
  "blank (blank sp) = blank sp"
  by (simp_all add: blank_def sp_IsTLSEnabled_def sp_GetNonTLSClients_def sp_GetKnownClients_def
      split: provider.split)

lemma blank_plan [simp]:
  "plan_forward prog p k (blank sp) c = plan_forward prog p k sp c"
  "ports_used prog k (blank sp) c = ports_used prog k sp c"
  by (simp_all add: plan_forward_def ports_used_def wants_tls_def)

record planned =
  plService :: string
  plOld :: vcap_service
  plForward :: forward
  plUsed :: int64
  plNew :: vcap_service

definition repoint :: "vcap_service \<Rightarrow> int64 \<Rightarrow> vcap_service option" where
  "repoint si port = (case SetAddress (vsCredentials si) ''127.0.0.1'' port of
     Ok c' \<Rightarrow> Some (si\<lparr>vsCredentials := Some c'\<rparr>) | _ \<Rightarrow> None)"

fun plan ::
  "string \<Rightarrow> (string \<Rightarrow> provider option) \<Rightarrow> int64 \<Rightarrow> string list \<Rightarrow> (string \<times> vcap_service option) list
     \<Rightarrow> planned list" where
  "plan prog kd p wanted [] = []"
| "plan prog kd p wanted ((k, None) # rest) = plan prog kd p wanted rest"
| "plan prog kd p wanted ((k, Some si) # rest) =
     (if vsInstanceName si \<notin> set wanted then plan prog kd p wanted rest
      else case kd k of
        None \<Rightarrow> plan prog kd p wanted rest
      | Some sp \<Rightarrow>
          let c = entries (vsCredentials si);
              fwd = plan_forward prog p k sp c
          in case repoint si (ConnectPort fwd) of
               None \<Rightarrow> plan prog kd p wanted rest
             | Some si' \<Rightarrow>
                 \<lparr>plService = k, plOld = si, plForward = fwd,
                  plUsed = ports_used prog k sp c, plNew = si'\<rparr>
                 # plan prog kd (p + ports_used prog k sp c)
                     (filter (\<lambda>n. n \<noteq> vsInstanceName si) wanted) rest)"

text \<open>
  An instance that cannot be handled (an unknown type, no credentials) makes the program stop; the
  plan passes over it.
\<close>

definition plan_used :: "planned list \<Rightarrow> int64" where
  "plan_used pl = sum_list (map plUsed pl)"

definition plan_names :: "planned list \<Rightarrow> string list" where
  "plan_names pl = map (vsInstanceName \<circ> plOld) pl"

definition serves_program :: "string \<Rightarrow> (string \<Rightarrow> provider option) \<Rightarrow> string \<Rightarrow> bool" where
  "serves_program prog kd k =
     (case kd k of None \<Rightarrow> False | Some sp \<Rightarrow> prog \<in> set (sp_GetKnownClients sp))"

definition items :: "vcap_services \<Rightarrow> string list \<Rightarrow> (string \<times> vcap_service option) list" where
  "items m ks = concat (map (\<lambda>k. map (Pair k) (instances_of m k)) ks)"

section \<open>The frame of the loop\<close>

text \<open>What every step leaves alone.\<close>

definition same_frame :: "'m app_core_scheme \<Rightarrow> 'm app_core_scheme \<Rightarrow> bool" where
  "same_frame a a' = (program a' = program a \<and> appName a' = appName a
     \<and> serviceInstanceNames a' = serviceInstanceNames a
     \<and> kinds (serviceProviders a') = kinds (serviceProviders a)
     \<and> listening (mach a') = listening (mach a)
     \<and> app_core.more a' = app_core.more a)"

lemma same_frame_refl [simp]: "same_frame a a"
  by (simp add: same_frame_def)

lemma same_frame_trans: "same_frame a b \<Longrightarrow> same_frame b c \<Longrightarrow> same_frame a c"
  by (simp add: same_frame_def)

lemma put_services_run:
  "put_services m a = (Ok (), a\<lparr>appEnv := Some \<lparr>systemEnv = Some (Some m)\<rparr>\<rparr>)"
  by (simp add: put_services_def upd_def)

lemma services_of_put [simp]: "services_of (a\<lparr>appEnv := Some \<lparr>systemEnv = Some (Some m)\<rparr>\<rparr>) = m"
  by (simp add: services_of_def)

lemma sp_InitEnv_blank: "sp_InitEnv c (sp, e, m) = (r, (sp', e', m')) \<Longrightarrow> blank sp' = blank sp"
  by (erule sp_InitEnv_cases) (simp_all add: blank_def)

lemma init_program_env_run:
  assumes "map_of (serviceProviders a) k = Some sp"
  shows "\<exists>a'. init_program_env k sp c a = (Ok (), a') \<and> same_frame a a'
    \<and> nextPort a' = nextPort a \<and> forwardAddrs a' = forwardAddrs a \<and> appEnv a' = appEnv a
    \<and> map_of (runEnv a') ''VCAP_SERVICES'' = map_of (runEnv a) ''VCAP_SERVICES''"
proof -
  obtain r sp' e m where run: "sp_InitEnv c (sp, runEnv a, mach a) = (r, (sp', e, m))"
    by (metis prod.exhaust)
  have "(case r of Panic p \<Rightarrow> Panic p | _ \<Rightarrow> Ok ()) = Ok ()"
    using calm_sp_InitEnv [of c] run by (cases r) (auto dest: no_panicD)
  moreover have "kinds (AList.update k sp' (serviceProviders a)) = kinds (serviceProviders a)"
    using sp_InitEnv_blank [OF run] assms by (auto simp: kinds_def update_conv' fun_eq_iff)
  ultimately show ?thesis
    using run provider.init_net [OF run] provider.init_vcap [OF run]
    by (simp add: init_program_env_def same_frame_def)
qed

text \<open>One instance, case by case.\<close>

lemma scan_instance_nil: "scan_instance k i None (u, s, kept) a = (Panic nil_deref, a)"
  by (simp add: scan_instance_def act_defs)

lemma scan_instance_other:
  "vsInstanceName si \<notin> set u \<Longrightarrow> scan_instance k i (Some si) (u, s, kept) a = (Ok (u, s, kept), a)"
  by (simp add: scan_instance_def act_defs)

lemma scan_instance_unknown:
  "vsInstanceName si \<in> set u \<Longrightarrow> map_of (serviceProviders a) k = None
    \<Longrightarrow> \<exists>t. scan_instance k i (Some si) (u, s, kept) a = (Err (ErrorString t), a)"
  by (simp add: scan_instance_def act_defs)

definition planned_forward :: "'m app_core_scheme \<Rightarrow> string \<Rightarrow> provider \<Rightarrow> vcap_service \<Rightarrow> forward" where
  "planned_forward a k sp si =
     plan_forward (program a) (nextPort a) k sp (entries (vsCredentials si))"

definition after_forward :: "'m app_core_scheme \<Rightarrow> string \<Rightarrow> provider \<Rightarrow> vcap_service \<Rightarrow> 'm app_core_scheme" where
  "after_forward a k sp si =
     a\<lparr>nextPort := nextPort a + ports_used (program a) k sp (entries (vsCredentials si)),
       forwardAddrs := forwardAddrs a @ [planned_forward a k sp si]\<rparr>"

lemma after_forward_simps [simp]:
  "nextPort (after_forward a k sp si)
     = nextPort a + ports_used (program a) k sp (entries (vsCredentials si))"
  "forwardAddrs (after_forward a k sp si) = forwardAddrs a @ [planned_forward a k sp si]"
  "services_of (after_forward a k sp si) = services_of a"
  "appEnv (after_forward a k sp si) = appEnv a"
  "serviceProviders (after_forward a k sp si) = serviceProviders a"
  "program (after_forward a k sp si) = program a"
  "runEnv (after_forward a k sp si) = runEnv a"
  "same_frame a (after_forward a k sp si)"
  by (simp_all add: after_forward_def services_of_def same_frame_def)

lemma scan_instance_wanted:
  assumes "vsInstanceName si \<in> set u" and "map_of (serviceProviders a) k = Some sp"
  shows "scan_instance k i (Some si) (u, s, kept) a =
    (case SetAddress (vsCredentials si) ''127.0.0.1'' (ConnectPort (planned_forward a k sp si)) of
       Panic p \<Rightarrow> (Panic p, after_forward a k sp si)
     | Err e \<Rightarrow> (Err e, after_forward a k sp si)
     | Ok c' \<Rightarrow>
         let si' = si\<lparr>vsCredentials := Some c'\<rparr>;
             u' = filter (\<lambda>n. n \<noteq> vsInstanceName si) u
         in andthen (put_instance k i si')
              (if \<not> s \<and> program a \<in> set (sp_GetKnownClients sp)
               then andthen (init_program_env k sp c') (ret (u', True, kept @ [Some si']))
               else ret (u', s, kept @ [Some si'])) (after_forward a k sp si))"
  unfolding scan_instance_def after_forward_def planned_forward_def
  using assms by (simp add: seq_def deref_def ret_def with_st_def upd_def panic_def raise_def Let_def
      split: outcome.split)

lemma put_instance_run:
  "\<exists>a'. put_instance k i si a = (Ok (), a')
     \<and> services_of a' = AList.update k ((instances_of (services_of a) k)[i := Some si]) (services_of a)
     \<and> same_frame a a' \<and> nextPort a' = nextPort a \<and> forwardAddrs a' = forwardAddrs a
     \<and> serviceProviders a' = serviceProviders a \<and> program a' = program a
     \<and> runEnv a' = runEnv a"
  by (simp add: put_instance_def with_st_def put_services_run same_frame_def Let_def)

lemma scan_instance_kept:
  assumes "vsInstanceName si \<in> set u" and "map_of (serviceProviders a) k = Some sp"
    and "repoint si (ConnectPort (planned_forward a k sp si)) = Some si'"
  shows "\<exists>a'. scan_instance k i (Some si) (u, s, kept) a
      = (Ok (filter (\<lambda>n. n \<noteq> vsInstanceName si) u, s \<or> program a \<in> set (sp_GetKnownClients sp),
             kept @ [Some si']), a')
    \<and> services_of a' = AList.update k ((instances_of (services_of a) k)[i := Some si']) (services_of a)
    \<and> same_frame a a'
    \<and> nextPort a' = nextPort a + ports_used (program a) k sp (entries (vsCredentials si))
    \<and> forwardAddrs a' = forwardAddrs a @ [planned_forward a k sp si]
    \<and> map_of (runEnv a') ''VCAP_SERVICES'' = map_of (runEnv a) ''VCAP_SERVICES''"
proof -
  obtain c' where c': "SetAddress (vsCredentials si) ''127.0.0.1'' (ConnectPort (planned_forward a k sp si)) = Ok c'"
    and si': "si' = si\<lparr>vsCredentials := Some c'\<rparr>"
    using assms(3) by (auto simp: repoint_def split: outcome.splits)
  obtain a2 where a2: "put_instance k i si' (after_forward a k sp si) = (Ok (), a2)"
    "services_of a2 = AList.update k ((instances_of (services_of a) k)[i := Some si']) (services_of a)"
    "same_frame (after_forward a k sp si) a2"
    "nextPort a2 = nextPort (after_forward a k sp si)"
    "forwardAddrs a2 = forwardAddrs (after_forward a k sp si)"
    "serviceProviders a2 = serviceProviders a" "program a2 = program a" "runEnv a2 = runEnv a"
    using put_instance_run [of k i si' "after_forward a k sp si"] by auto
  have fr: "same_frame a a2" using a2(3) by (rule same_frame_trans [OF after_forward_simps(8)])
  show ?thesis
  proof (cases "\<not> s \<and> program a \<in> set (sp_GetKnownClients sp)")
    case True
    obtain a3 where a3: "init_program_env k sp c' a2 = (Ok (), a3)" "same_frame a2 a3"
      "nextPort a3 = nextPort a2" "forwardAddrs a3 = forwardAddrs a2" "appEnv a3 = appEnv a2"
      "map_of (runEnv a3) ''VCAP_SERVICES'' = map_of (runEnv a2) ''VCAP_SERVICES''"
      using init_program_env_run [of a2 k sp c'] assms(2) a2(6) by auto
    have "services_of a3 = services_of a2" using a3(5) by (simp add: services_of_def)
    with True a2 a3 same_frame_trans [OF fr a3(2)] show ?thesis
      unfolding scan_instance_wanted [OF assms(1,2)] c' si' [symmetric] outcome.case Let_def
      by (simp add: seq_def ret_def)
  next
    case False
    with a2 fr show ?thesis
      unfolding scan_instance_wanted [OF assms(1,2)] c' si' [symmetric] outcome.case Let_def
      by (auto simp: seq_def ret_def)
  qed
qed

lemma scan_instance_unfit:
  assumes "vsInstanceName si \<in> set u" and "map_of (serviceProviders a) k = Some sp"
    and "repoint si (ConnectPort (planned_forward a k sp si)) = None"
  shows "\<not> is_ok (fst (scan_instance k i (Some si) (u, s, kept) a))"
  using assms(3) unfolding scan_instance_wanted [OF assms(1,2)]
  by (auto simp: repoint_def split: outcome.splits)

lemma scan_instance_run:
  assumes run: "scan_instance k i msi (u, s, kept) a = (Ok (u', s', kept'), a')"
  shows "\<exists>si. msi = Some si \<and>
    (if vsInstanceName si \<notin> set u then u' = u \<and> s' = s \<and> kept' = kept \<and> a' = a
     else \<exists>sp si'. map_of (serviceProviders a) k = Some sp
      \<and> repoint si (ConnectPort (planned_forward a k sp si)) = Some si'
      \<and> u' = filter (\<lambda>n. n \<noteq> vsInstanceName si) u \<and> kept' = kept @ [Some si']
      \<and> s' = (s \<or> program a \<in> set (sp_GetKnownClients sp))
      \<and> services_of a' = AList.update k ((instances_of (services_of a) k)[i := Some si']) (services_of a)
      \<and> same_frame a a'
      \<and> nextPort a' = nextPort a + ports_used (program a) k sp (entries (vsCredentials si))
      \<and> forwardAddrs a' = forwardAddrs a @ [planned_forward a k sp si]
      \<and> map_of (runEnv a') ''VCAP_SERVICES'' = map_of (runEnv a) ''VCAP_SERVICES'')"
proof (cases msi)
  case None
  show ?thesis using run unfolding None scan_instance_nil by simp
next
  case (Some si)
  show ?thesis
  proof (cases "vsInstanceName si \<in> set u")
    case False
    show ?thesis using run False unfolding Some scan_instance_other [OF False] by simp
  next
    case True
    have ok: "is_ok (fst (scan_instance k i (Some si) (u, s, kept) a))" using run Some by simp
    have "map_of (serviceProviders a) k \<noteq> None"
    proof
      assume n: "map_of (serviceProviders a) k = None"
      from scan_instance_unknown [OF True n, of i s kept] ok show False by (elim exE) simp
    qed
    then obtain sp where sp: "map_of (serviceProviders a) k = Some sp" by blast
    have "repoint si (ConnectPort (planned_forward a k sp si)) \<noteq> None"
      using scan_instance_unfit [OF True sp, of i s kept] ok by blast
    then obtain si' where re: "repoint si (ConnectPort (planned_forward a k sp si)) = Some si'" by blast
    from scan_instance_kept [OF True sp re, of i s kept] run [unfolded Some] True Some sp re
    show ?thesis by (elim exE conjE) simp
  qed
qed

section \<open>The loop carries out the plan\<close>

lemma plan_used_simps [simp]:
  "plan_used [] = 0" "plan_used (x # pl) = plUsed x + plan_used pl"
  "plan_used (pl @ pl') = plan_used pl + plan_used pl'"
  by (simp_all add: plan_used_def)

lemma plan_names_simps [simp]:
  "plan_names [] = []" "plan_names (x # pl) = vsInstanceName (plOld x) # plan_names pl"
  "plan_names (pl @ pl') = plan_names pl @ plan_names pl'"
  by (simp_all add: plan_names_def)

lemma plan_append:
  "plan prog kd p u (xs @ ys) =
     (let pl = plan prog kd p u xs
      in pl @ plan prog kd (p + plan_used pl) (filter (\<lambda>n. n \<notin> set (plan_names pl)) u) ys)"
proof (induction prog kd p u xs rule: plan.induct)
  case (3 prog kd p u k si rest)
  show ?case
  proof (cases "vsInstanceName si \<in> set u")
    case True
    show ?thesis
    proof (cases "kd k")
      case None
      with True 3 show ?thesis by (simp add: Let_def)
    next
      case (Some sp)
      let ?fwd = "plan_forward prog p k sp (entries (vsCredentials si))"
      show ?thesis
      proof (cases "repoint si (ConnectPort ?fwd)")
        case None
        with True Some 3 show ?thesis by (simp add: Let_def)
      next
        case (Some si')
        with True \<open>kd k = Some sp\<close> 3 show ?thesis
          by (simp add: Let_def filter_filter conj_commute add.assoc)
      qed
    qed
  next
    case False
    with 3 show ?thesis by (simp add: Let_def)
  qed
qed (simp_all add: Let_def)

text \<open>What a run of the loop has done, in terms of the plan.\<close>

definition carried_out ::
  "'m app_core_scheme \<Rightarrow> string list \<Rightarrow> bool \<Rightarrow> planned list
     \<Rightarrow> 'm app_core_scheme \<Rightarrow> string list \<Rightarrow> bool \<Rightarrow> bool" where
  "carried_out a u s pl a' u' s' =
     (forwardAddrs a' = forwardAddrs a @ map plForward pl
      \<and> nextPort a' = nextPort a + plan_used pl
      \<and> u' = filter (\<lambda>n. n \<notin> set (plan_names pl)) u
      \<and> s' = (s \<or> (\<exists>x \<in> set pl. serves_program (program a) (kinds (serviceProviders a)) (plService x)))
      \<and> same_frame a a'
      \<and> map_of (runEnv a') ''VCAP_SERVICES'' = map_of (runEnv a) ''VCAP_SERVICES'')"

lemma carried_out_refl [simp]: "carried_out a u s [] a u s"
  by (simp add: carried_out_def)

lemma carried_out_trans:
  assumes "carried_out a u s pl a1 u1 s1" and "carried_out a1 u1 s1 pl' a2 u2 s2"
  shows "carried_out a u s (pl @ pl') a2 u2 s2"
  using assms by (auto simp: carried_out_def same_frame_def)

lemma same_frame_plan:
  "same_frame a a' \<Longrightarrow> program a' = program a \<and> kinds (serviceProviders a') = kinds (serviceProviders a)"
  by (simp add: same_frame_def)

lemma scan_instance_plan:
  assumes "scan_instance k i msi (u, s, kept) a = (Ok (u', s', kept'), a')"
  shows "\<exists>pl. pl = plan (program a) (kinds (serviceProviders a)) (nextPort a) u [(k, msi)]
    \<and> kept' = kept @ map (Some \<circ> plNew) pl \<and> carried_out a u s pl a' u' s'
    \<and> (\<forall>k'. k' \<noteq> k \<longrightarrow> map_of (services_of a') k' = map_of (services_of a) k')"
proof -
  from scan_instance_run [OF assms] obtain si where si: "msi = Some si" and
    c: "if vsInstanceName si \<notin> set u then u' = u \<and> s' = s \<and> kept' = kept \<and> a' = a
     else \<exists>sp si'. map_of (serviceProviders a) k = Some sp
      \<and> repoint si (ConnectPort (planned_forward a k sp si)) = Some si'
      \<and> u' = filter (\<lambda>n. n \<noteq> vsInstanceName si) u \<and> kept' = kept @ [Some si']
      \<and> s' = (s \<or> program a \<in> set (sp_GetKnownClients sp))
      \<and> services_of a' = AList.update k ((instances_of (services_of a) k)[i := Some si']) (services_of a)
      \<and> same_frame a a'
      \<and> nextPort a' = nextPort a + ports_used (program a) k sp (entries (vsCredentials si))
      \<and> forwardAddrs a' = forwardAddrs a @ [planned_forward a k sp si]
      \<and> map_of (runEnv a') ''VCAP_SERVICES'' = map_of (runEnv a) ''VCAP_SERVICES''"
    by blast
  show ?thesis
  proof (cases "vsInstanceName si \<in> set u")
    case False
    with c si show ?thesis by simp
  next
    case True
    with c obtain sp si' where r: "map_of (serviceProviders a) k = Some sp"
      "repoint si (ConnectPort (planned_forward a k sp si)) = Some si'"
      "u' = filter (\<lambda>n. n \<noteq> vsInstanceName si) u" "kept' = kept @ [Some si']"
      "s' = (s \<or> program a \<in> set (sp_GetKnownClients sp))"
      "services_of a' = AList.update k ((instances_of (services_of a) k)[i := Some si']) (services_of a)"
      "same_frame a a'"
      "nextPort a' = nextPort a + ports_used (program a) k sp (entries (vsCredentials si))"
      "forwardAddrs a' = forwardAddrs a @ [planned_forward a k sp si]"
      "map_of (runEnv a') ''VCAP_SERVICES'' = map_of (runEnv a) ''VCAP_SERVICES''"
      by auto
    have kd: "kinds (serviceProviders a) k = Some (blank sp)" using r(1) by (simp add: kinds_def)
    let ?pl = "[\<lparr>plService = k, plOld = si, plForward = planned_forward a k sp si,
        plUsed = ports_used (program a) k sp (entries (vsCredentials si)), plNew = si'\<rparr>]"
    have "plan (program a) (kinds (serviceProviders a)) (nextPort a) u [(k, msi)] = ?pl"
      using si True kd r(2) by (simp add: planned_forward_def Let_def)
    moreover have "carried_out a u s ?pl a' u' s'"
      using r(3,5,7-10) kd by (simp add: carried_out_def serves_program_def)
    ultimately show ?thesis using r(4,6) by simp
  qed
qed

lemma scan_instances_plan:
  assumes "scan_instances k i msis (u, s, kept) a = (Ok (u', s', kept'), a')"
  shows "\<exists>pl. pl = plan (program a) (kinds (serviceProviders a)) (nextPort a) u (map (Pair k) msis)
    \<and> kept' = kept @ map (Some \<circ> plNew) pl \<and> carried_out a u s pl a' u' s'
    \<and> (\<forall>k'. k' \<noteq> k \<longrightarrow> map_of (services_of a') k' = map_of (services_of a) k')"
  using assms
proof (induction msis arbitrary: i u s kept a)
  case Nil
  then show ?case by (simp add: ret_def)
next
  case (Cons msi msis)
  from Cons.prems obtain loc a1 where "scan_instance k i msi (u, s, kept) a = (Ok loc, a1)"
    and "scan_instances k (Suc i) msis loc a1 = (Ok (u', s', kept'), a')"
    by (auto elim: seq_OkE)
  then obtain u1 s1 kept1 where one: "scan_instance k i msi (u, s, kept) a = (Ok (u1, s1, kept1), a1)"
    and rest: "scan_instances k (Suc i) msis (u1, s1, kept1) a1 = (Ok (u', s', kept'), a')"
    by (cases loc) auto
  from scan_instance_plan [OF one] obtain pl1 where
    p1: "pl1 = plan (program a) (kinds (serviceProviders a)) (nextPort a) u [(k, msi)]"
    "kept1 = kept @ map (Some \<circ> plNew) pl1" "carried_out a u s pl1 a1 u1 s1"
    "\<forall>k'. k' \<noteq> k \<longrightarrow> map_of (services_of a1) k' = map_of (services_of a) k'" by blast
  from Cons.IH [OF rest] obtain pl2 where
    p2: "pl2 = plan (program a1) (kinds (serviceProviders a1)) (nextPort a1) u1 (map (Pair k) msis)"
    "kept' = kept1 @ map (Some \<circ> plNew) pl2" "carried_out a1 u1 s1 pl2 a' u' s'"
    "\<forall>k'. k' \<noteq> k \<longrightarrow> map_of (services_of a') k' = map_of (services_of a1) k'" by blast
  have st: "nextPort a1 = nextPort a + plan_used pl1" "u1 = filter (\<lambda>n. n \<notin> set (plan_names pl1)) u"
    "same_frame a a1" using p1(3) by (simp_all add: carried_out_def)
  have "pl1 @ pl2 = plan (program a) (kinds (serviceProviders a)) (nextPort a) u ([(k, msi)] @ map (Pair k) msis)"
    unfolding plan_append Let_def p1(1) [symmetric]
    using p2(1) st same_frame_plan [OF st(3)] by simp
  moreover have "kept' = kept @ map (Some \<circ> plNew) (pl1 @ pl2)" using p1(2) p2(2) by simp
  moreover have "carried_out a u s (pl1 @ pl2) a' u' s'" using p1(3) p2(3) by (rule carried_out_trans)
  ultimately show ?case using p1(4) p2(4) by (intro exI [of _ "pl1 @ pl2"]) simp
qed

lemma plan_elem:
  assumes "x \<in> set (plan prog kd p u its)"
  shows "(plService x, Some (plOld x)) \<in> set its \<and> vsInstanceName (plOld x) \<in> set u
    \<and> (\<exists>sp q. kd (plService x) = Some sp
        \<and> plForward x = plan_forward prog q (plService x) sp (entries (vsCredentials (plOld x)))
        \<and> plUsed x = ports_used prog (plService x) sp (entries (vsCredentials (plOld x)))
        \<and> repoint (plOld x) (ConnectPort (plForward x)) = Some (plNew x))"
  using assms
proof (induction its arbitrary: p u)
  case (Cons it its)
  obtain k msi where it: "it = (k, msi)" by fastforce
  show ?case
  proof (cases "x \<in> set (plan prog kd p u its)")
    case True
    then show ?thesis using Cons.IH [of p u] by simp
  next
    case False
    obtain si sp where si: "msi = Some si" "vsInstanceName si \<in> set u" "kd k = Some sp"
      using Cons.prems False it by (cases msi) (auto split: if_splits option.splits)
    let ?c = "entries (vsCredentials si)"
    let ?fwd = "plan_forward prog p k sp ?c"
    obtain si' where re: "repoint si (ConnectPort ?fwd) = Some si'"
      using Cons.prems False it si by (cases "repoint si (ConnectPort ?fwd)") (auto simp: Let_def)
    let ?x = "\<lparr>plService = k, plOld = si, plForward = ?fwd, plUsed = ports_used prog k sp ?c, plNew = si'\<rparr>"
    let ?rest = "plan prog kd (p + ports_used prog k sp ?c) (filter (\<lambda>n. n \<noteq> vsInstanceName si) u) its"
    have "plan prog kd p u (it # its) = ?x # ?rest" using it si re by (simp add: Let_def)
    with Cons.prems consider "x = ?x" | "x \<in> set ?rest" by auto
    then show ?thesis
    proof cases
      case 1
      then show ?thesis using it si re by auto
    next
      case 2
      then show ?thesis using Cons.IH by fastforce
    qed
  qed
qed simp

lemma scan_service_plan:
  assumes "scan_service k u s a = (Ok (u', s'), a')"
  shows "\<exists>pl. pl = plan (program a) (kinds (serviceProviders a)) (nextPort a) u
        (map (Pair k) (instances_of (services_of a) k))
    \<and> carried_out a u s pl a' u' s'
    \<and> (\<forall>k'. map_of (services_of a') k' =
         (if k' \<noteq> k then map_of (services_of a) k'
          else if pl = [] then None else Some (map (Some \<circ> plNew) pl)))"
proof -
  from assms obtain loc a1 where
    "scan_instances k 0 (instances_of (services_of a) k) (u, s, []) a = (Ok loc, a1)"
    and fin: "(case loc of (unsatisfied', satisfied', kept) \<Rightarrow> with_st (\<lambda>a'.
       andthen (put_services (if kept = [] then AList.delete k (services_of a')
                              else AList.update k kept (services_of a')))
         (ret (unsatisfied', satisfied')))) a1 = (Ok (u', s'), a')"
    by (auto simp: scan_service_def with_st_def elim: seq_OkE)
  then obtain u1 s1 kept where
    r: "scan_instances k 0 (instances_of (services_of a) k) (u, s, []) a = (Ok (u1, s1, kept), a1)"
    and l: "loc = (u1, s1, kept)" by (cases loc) auto
  let ?m = "if kept = [] then AList.delete k (services_of a1) else AList.update k kept (services_of a1)"
  have e: "u' = u1" "s' = s1" "a' = a1\<lparr>appEnv := Some \<lparr>systemEnv = Some (Some ?m)\<rparr>\<rparr>"
    using fin unfolding l by (simp_all add: with_st_def seq_def put_services_run ret_def)
  from scan_instances_plan [OF r] obtain pl where
    p: "pl = plan (program a) (kinds (serviceProviders a)) (nextPort a) u
          (map (Pair k) (instances_of (services_of a) k))"
    "kept = map (Some \<circ> plNew) pl" "carried_out a u s pl a1 u1 s1"
    "\<forall>k'. k' \<noteq> k \<longrightarrow> map_of (services_of a1) k' = map_of (services_of a) k'" by auto
  have "services_of a' = ?m" using e(3) by simp
  then have "map_of (services_of a') k' =
      (if k' \<noteq> k then map_of (services_of a) k' else if pl = [] then None
       else Some (map (Some \<circ> plNew) pl))" for k'
    using p(2,4) by (auto simp: update_conv' delete_conv')
  moreover have "carried_out a u s pl a' u' s'"
    using p(3) e by (simp add: carried_out_def same_frame_def)
  ultimately show ?thesis using p(1) by blast
qed

lemma items_simps [simp]:
  "items m [] = []" "items m (k # ks) = map (Pair k) (instances_of m k) @ items m ks"
  by (simp_all add: items_def)

lemma items_cong: "(\<And>k. k \<in> set ks \<Longrightarrow> map_of m k = map_of m' k) \<Longrightarrow> items m ks = items m' ks"
  by (induction ks) (simp_all add: instances_of_def)

lemma items_service: "it \<in> set (items m ks) \<Longrightarrow> fst it \<in> set ks"
  by (auto simp: items_def)

lemma filter_all: "(\<And>x. x \<in> set xs \<Longrightarrow> P x) \<Longrightarrow> filter P xs = xs"
  and filter_none: "(\<And>x. x \<in> set xs \<Longrightarrow> \<not> P x) \<Longrightarrow> filter P xs = []"
  by (induction xs) simp_all

definition kept_for :: "string \<Rightarrow> planned list \<Rightarrow> vcap_service option list option" where
  "kept_for k pl =
     (let mine = filter (\<lambda>x. plService x = k) pl
      in if mine = [] then None else Some (map (Some \<circ> plNew) mine))"

lemma scan_services_plan:
  assumes "scan_services ks u s a = (Ok (u', s'), a')" and "distinct ks"
  shows "\<exists>pl. pl = plan (program a) (kinds (serviceProviders a)) (nextPort a) u (items (services_of a) ks)
    \<and> carried_out a u s pl a' u' s'
    \<and> (\<forall>k'. map_of (services_of a') k' =
         (if k' \<in> set ks then kept_for k' pl else map_of (services_of a) k'))"
  using assms
proof (induction ks arbitrary: u s a)
  case Nil
  then show ?case by (simp add: ret_def)
next
  case (Cons k ks)
  from Cons.prems obtain r a1 where "scan_service k u s a = (Ok r, a1)"
    and "(case r of (u1, s1) \<Rightarrow> scan_services ks u1 s1) a1 = (Ok (u', s'), a')"
    by (auto elim: seq_OkE)
  then obtain u1 s1 where one: "scan_service k u s a = (Ok (u1, s1), a1)"
    and rest: "scan_services ks u1 s1 a1 = (Ok (u', s'), a')" by (cases r) auto
  from scan_service_plan [OF one] obtain pl1 where
    p1: "pl1 = plan (program a) (kinds (serviceProviders a)) (nextPort a) u
          (map (Pair k) (instances_of (services_of a) k))"
    "carried_out a u s pl1 a1 u1 s1" and
    m1: "\<And>k'. map_of (services_of a1) k' =
         (if k' \<noteq> k then map_of (services_of a) k'
          else if pl1 = [] then None else Some (map (Some \<circ> plNew) pl1))" by blast
  have "distinct ks" using Cons.prems(2) by simp
  from Cons.IH [OF rest this] obtain pl2 where
    p2: "pl2 = plan (program a1) (kinds (serviceProviders a1)) (nextPort a1) u1 (items (services_of a1) ks)"
    "carried_out a1 u1 s1 pl2 a' u' s'" and
    m2: "\<And>k'. map_of (services_of a') k' =
         (if k' \<in> set ks then kept_for k' pl2 else map_of (services_of a1) k')" by blast
  have st: "nextPort a1 = nextPort a + plan_used pl1" "u1 = filter (\<lambda>n. n \<notin> set (plan_names pl1)) u"
    "same_frame a a1" using p1(2) by (simp_all add: carried_out_def)
  have it: "items (services_of a1) ks = items (services_of a) ks"
    using Cons.prems(2) by (intro items_cong) (auto simp: m1)
  have eq: "pl1 @ pl2 = plan (program a) (kinds (serviceProviders a)) (nextPort a) u
      (items (services_of a) (k # ks))"
    unfolding items_simps plan_append Let_def p1(1) [symmetric]
    using p2(1) st it same_frame_plan [OF st(3)] by simp
  have s1: "plService x = k" if "x \<in> set pl1" for x
    using plan_elem [of x] that p1(1) by fastforce
  have s2: "plService x \<in> set ks" if "x \<in> set pl2" for x
    using plan_elem [of x] that p2(1) items_service [of _ "services_of a1" ks] by fastforce
  have kk: "k \<notin> set ks" using Cons.prems(2) by simp
  have 1: "filter (\<lambda>x. plService x = k) (pl1 @ pl2) = pl1"
    using s1 s2 kk by (auto simp: filter_empty_conv intro: filter_all)
  have 2: "filter (\<lambda>x. plService x = k') (pl1 @ pl2) = filter (\<lambda>x. plService x = k') pl2"
    if "k' \<noteq> k" for k' using s1 that by (auto simp: filter_empty_conv)
  have "map_of (services_of a') k' =
      (if k' \<in> set (k # ks) then kept_for k' (pl1 @ pl2) else map_of (services_of a) k')" for k'
  proof (cases "k' = k")
    case True
    then show ?thesis using kk m1 [of k] m2 [of k] 1 by (simp add: kept_for_def)
  next
    case False
    then show ?thesis using m1 [of k'] m2 [of k'] 2 [OF False] by (simp add: kept_for_def)
  qed
  moreover have "carried_out a u s (pl1 @ pl2) a' u' s'" using p1(2) p2(2) by (rule carried_out_trans)
  ultimately show ?case using eq by blast
qed

section \<open>Facts about plans\<close>

definition forward_ports :: "forward \<Rightarrow> int64 list" where
  "forward_ports f = LocalPort f # (if TLSTunnelPort f \<noteq> 0 then [TLSTunnelPort f] else [])"

lemma plan_names_wanted:
  "set (plan_names (plan prog kd p u its)) \<subseteq> set u \<and> distinct (plan_names (plan prog kd p u its))"
proof (induction its arbitrary: p u)
  case (Cons it its)
  obtain k msi where it: "it = (k, msi)" by fastforce
  show ?case
  proof (cases "\<exists>si sp si'. msi = Some si \<and> vsInstanceName si \<in> set u \<and> kd k = Some sp
      \<and> repoint si (ConnectPort (plan_forward prog p k sp (entries (vsCredentials si)))) = Some si'")
    case True
    then obtain si sp si' where si: "msi = Some si" "vsInstanceName si \<in> set u" "kd k = Some sp"
      "repoint si (ConnectPort (plan_forward prog p k sp (entries (vsCredentials si)))) = Some si'"
      by blast
    from Cons.IH [of "p + ports_used prog k sp (entries (vsCredentials si))"
        "filter (\<lambda>n. n \<noteq> vsInstanceName si) u"] si it
    show ?thesis by (auto simp: Let_def)
  next
    case False
    then have "plan prog kd p u (it # its) = plan prog kd p u its"
      using it by (cases msi) (auto simp: Let_def split: option.split)
    with Cons.IH [of p u] show ?thesis by simp
  qed
qed simp

lemma plan_length: "length (plan prog kd p u its) \<le> length its"
proof (induction its arbitrary: p u)
  case (Cons it its)
  obtain k msi where it: "it = (k, msi)" by fastforce
  have le: "length (plan prog kd p u its) \<le> Suc (length its)" for p u
    using Cons.IH [of p u] by simp
  show ?case
    using it le Cons.IH by (cases msi) (auto simp: Let_def split: option.split)
qed simp

text \<open>Ports are handed out one after the other, as long as the port number does not wrap to 0.\<close>

lemma forward_ports_plan:
  assumes "unat p + 1 < 2 ^ 64" and "0 < unat p"
  shows "forward_ports (plan_forward prog p k sp c)
    = map (\<lambda>i. p + of_nat i) [0..<unat (ports_used prog k sp c)]"
    "unat (ports_used prog k sp c) \<le> 2"
proof -
  have "p + 1 \<noteq> 0"
  proof
    assume "p + 1 = 0"
    then have "unat (p + 1) = 0" by simp
    moreover have "unat (p + 1) = unat p + 1"
      using assms(1) by (simp add: unat_word_ariths)
    ultimately show False by simp
  qed
  moreover have "unat (2 :: int64) = 2" "unat (1 :: int64) = 1" "[0..<2] = [0, 1]" "[0..<1] = [0]"
    by (simp_all add: upt_rec)
  ultimately show "forward_ports (plan_forward prog p k sp c)
      = map (\<lambda>i. p + of_nat i) [0..<unat (ports_used prog k sp c)]"
    unfolding ports_used_def
    by (cases "wants_tls prog k sp c") (simp_all add: forward_ports_def plan_forward_def)
  show "unat (ports_used prog k sp c) \<le> 2"
    by (simp add: ports_used_def)
qed

lemma unat_add_small:
  assumes "unat (p :: int64) + unat q < 2 ^ 64"
  shows "unat (p + q) = unat p + unat q"
  using assms by (simp add: unat_word_ariths)

lemma unat_of_small: "m < 2 ^ 64 \<Longrightarrow> unat (of_nat m :: int64) = m"
  by (simp add: unat_of_nat)

lemma unat_back: "of_nat (unat (q :: int64)) = q"
  by simp

lemma plan_ports_consecutive:
  assumes "unat p + 2 * length its < 2 ^ 64" and "0 < unat p"
  shows "\<exists>n. n \<le> 2 * length its
    \<and> concat (map (forward_ports \<circ> plForward) (plan prog kd p u its)) = map (\<lambda>i. p + of_nat i) [0..<n]
    \<and> plan_used (plan prog kd p u its) = of_nat n"
  using assms
proof (induction its arbitrary: p u)
  case Nil
  then show ?case by simp
next
  case (Cons it its)
  obtain k msi where it: "it = (k, msi)" by fastforce
  show ?case
  proof (cases "\<exists>si sp si'. msi = Some si \<and> vsInstanceName si \<in> set u \<and> kd k = Some sp
      \<and> repoint si (ConnectPort (plan_forward prog p k sp (entries (vsCredentials si)))) = Some si'")
    case True
    then obtain si sp si' where si: "msi = Some si" "vsInstanceName si \<in> set u" "kd k = Some sp"
      "repoint si (ConnectPort (plan_forward prog p k sp (entries (vsCredentials si)))) = Some si'"
      by blast
    let ?c = "entries (vsCredentials si)"
    let ?q = "ports_used prog k sp ?c"
    let ?m = "unat ?q"
    let ?u = "filter (\<lambda>n. n \<noteq> vsInstanceName si) u"
    have q: "forward_ports (plan_forward prog p k sp ?c) = map (\<lambda>i. p + of_nat i) [0..<?m]" "?m \<le> 2"
      using forward_ports_plan [of p prog k sp ?c] Cons.prems by simp_all
    have up: "unat (p + ?q) = unat p + ?m"
    proof (rule unat_add_small)
      have "unat p + ?m \<le> unat p + 2 * length (it # its)" using q(2) by simp
      then show "unat p + ?m < 2 ^ 64" using Cons.prems(1) by (rule le_less_trans)
    qed
    have small: "unat (p + ?q) + 2 * length its < 2 ^ 64" "0 < unat (p + ?q)"
    proof -
      have "unat p + ?m + 2 * length its \<le> unat p + 2 * length (it # its)" using q(2) by simp
      then show "unat (p + ?q) + 2 * length its < 2 ^ 64"
        unfolding up using Cons.prems(1) by (rule le_less_trans)
      show "0 < unat (p + ?q)" unfolding up using Cons.prems(2) by simp
    qed
    obtain n where n: "n \<le> 2 * length its"
      "concat (map (forward_ports \<circ> plForward) (plan prog kd (p + ?q) ?u its))
        = map (\<lambda>i. p + ?q + of_nat i) [0..<n]"
      "plan_used (plan prog kd (p + ?q) ?u its) = of_nat n"
      using Cons.IH [OF small, of ?u] by blast
    have upt: "map (\<lambda>i. p + of_nat i) [0..<?m + n]
        = map (\<lambda>i. p + of_nat i) [0..<?m] @ map (\<lambda>i. p + ?q + of_nat i) [0..<n]"
    proof -
      have "[0..<?m + n] = [0..<?m] @ map (\<lambda>i. i + ?m) [0..<n]"
        using upt_add_eq_append [of 0 ?m n] by (simp add: map_add_upt add.commute)
      moreover have "p + of_nat (i + ?m) = p + ?q + of_nat i" for i
        by (simp add: add.assoc add.commute)
      ultimately show ?thesis by (simp only: map_append map_map comp_def)
    qed
    have eq: "plan prog kd p u (it # its) =
        \<lparr>plService = k, plOld = si, plForward = plan_forward prog p k sp ?c, plUsed = ?q, plNew = si'\<rparr>
        # plan prog kd (p + ?q) ?u its"
      using it si by (simp add: Let_def)
    have "concat (map (forward_ports \<circ> plForward) (plan prog kd p u (it # its)))
        = forward_ports (plan_forward prog p k sp ?c)
          @ concat (map (forward_ports \<circ> plForward) (plan prog kd (p + ?q) ?u its))"
      unfolding eq by simp
    also have "\<dots> = map (\<lambda>i. p + of_nat i) [0..<?m + n]" unfolding q(1) n(2) upt ..
    finally have 1: "concat (map (forward_ports \<circ> plForward) (plan prog kd p u (it # its)))
        = map (\<lambda>i. p + of_nat i) [0..<?m + n]" .
    have "plan_used (plan prog kd p u (it # its)) = ?q + plan_used (plan prog kd (p + ?q) ?u its)"
      unfolding eq by simp
    also have "\<dots> = of_nat (?m + n)" unfolding n(3) by simp
    finally have 2: "plan_used (plan prog kd p u (it # its)) = of_nat (?m + n)" .
    have "?m + n \<le> 2 * length (it # its)" using q(2) n(1) by simp
    with 1 2 show ?thesis by blast
  next
    case False
    then have "plan prog kd p u (it # its) = plan prog kd p u its"
      using it by (cases msi) (auto simp: Let_def split: option.split)
    moreover obtain n where "n \<le> 2 * length its"
      "concat (map (forward_ports \<circ> plForward) (plan prog kd p u its)) = map (\<lambda>i. p + of_nat i) [0..<n]"
      "plan_used (plan prog kd p u its) = of_nat n"
    proof -
      have "unat p + 2 * length its \<le> unat p + 2 * length (it # its)" by simp
      then have "unat p + 2 * length its < 2 ^ 64" using Cons.prems(1) by (rule le_less_trans)
      from Cons.IH [OF this Cons.prems(2), of u] that show thesis by blast
    qed
    ultimately show ?thesis by (intro exI [of _ n]) (simp add: comp_def)
  qed
qed

lemma consecutive_distinct:
  assumes "unat (p :: int64) + n < 2 ^ 64"
  shows "distinct (map (\<lambda>i. p + of_nat i) [0..<n])"
proof -
  have "inj_on (\<lambda>i. p + of_nat i) {0..<n}"
  proof (rule inj_onI)
    fix i j assume ij: "i \<in> {0..<n}" "j \<in> {0..<n}" "p + of_nat i = p + of_nat j"
    have "unat (of_nat m :: int64) = m" if "m < n" for m
      using that assms by (intro unat_of_small) simp
    with ij show "i = j" by (metis add_left_cancel atLeastLessThan_iff)
  qed
  then show ?thesis by (simp add: distinct_map)
qed

section \<open>The whole of it\<close>

definition bindings_plan :: "'m app_core_scheme \<Rightarrow> planned list" where
  "bindings_plan a = plan (program a) (kinds (serviceProviders a)) (nextPort a)
     (set_of_names (serviceInstanceNames a)) (items (services_of a) (sort (keys (services_of a))))"

lemma check_satisfied_ok:
  "check_satisfied u s a = (Ok (), a') \<longleftrightarrow> a' = a \<and> u = [] \<and> (program a = [] \<or> s)"
  by (auto simp: check_satisfied_def with_st_def raise_def ret_def Let_def)

lemma bind_environment_plan:
  assumes "bind_environment a = (Ok (), a')" and "wf_map (services_of a)"
  shows "forwardAddrs a' = forwardAddrs a @ map plForward (bindings_plan a)
    \<and> nextPort a' = nextPort a + plan_used (bindings_plan a)
    \<and> set (plan_names (bindings_plan a)) = set (serviceInstanceNames a)
    \<and> (program a = [] \<or> (\<exists>x \<in> set (bindings_plan a).
          serves_program (program a) (kinds (serviceProviders a)) (plService x)))
    \<and> (\<forall>k. map_of (services_of a') k = kept_for k (bindings_plan a))
    \<and> (\<exists>m. (m = None \<longrightarrow> services_of a' = []) \<and> (\<forall>s. m = Some s \<longrightarrow> s = services_of a')
          \<and> map_of (runEnv a') ''VCAP_SERVICES'' = Some (vcap_json m))
    \<and> same_frame a a'"
proof -
  obtain m where g: "get_services a = (Ok m, a)" and
    sv: "services_of a = (case m of None \<Rightarrow> [] | Some s \<Rightarrow> s)"
  proof -
    obtain m a1 where "get_services a = (Ok m, a1)"
      using assms(1) unfolding bind_environment_def by (elim seq_OkE)
    then show thesis
      using that by (auto simp: get_services_def with_st_def seq_def deref_def panic_def ret_def
          services_of_def split: option.splits)
  qed
  let ?ks = "sort (keys (services_of a))"
  have "seq (scan_services ?ks (set_of_names (serviceInstanceNames a)) False) (\<lambda>(u, s).
      andthen (check_satisfied u s) publish_services) a = (Ok (), a')"
    using assms(1) unfolding bind_environment_def seq_Ok [where m = get_services, OF g] with_st_def sv .
  then obtain r a1 where "scan_services ?ks (set_of_names (serviceInstanceNames a)) False a = (Ok r, a1)"
    and "(case r of (u, s) \<Rightarrow> andthen (check_satisfied u s) publish_services) a1 = (Ok (), a')"
    by (elim seq_OkE)
  then obtain u s where scan: "scan_services ?ks (set_of_names (serviceInstanceNames a)) False a = (Ok (u, s), a1)"
    and fin: "andthen (check_satisfied u s) publish_services a1 = (Ok (), a')" by (cases r) auto
  from fin obtain a2 where chk: "check_satisfied u s a1 = (Ok (), a2)"
    and pub: "publish_services a2 = (Ok (), a')" by (auto elim: seq_OkE)
  from chk have c: "a2 = a1" "u = []" "program a1 = [] \<or> s" by (simp_all add: check_satisfied_ok)
  obtain m' where m': "get_services a1 = (Ok m', a1)"
    "services_of a1 = (case m' of None \<Rightarrow> [] | Some s \<Rightarrow> s)"
    "a' = a1\<lparr>runEnv := AList.update ''VCAP_SERVICES'' (vcap_json m') (runEnv a1)\<rparr>"
    using pub unfolding c(1)
    by (auto simp: publish_services_def get_services_def with_st_def seq_def deref_def panic_def
        ret_def upd_def services_of_def split: option.splits)
  have "distinct ?ks" using assms(2) by (simp add: wf_map_def)
  from scan_services_plan [OF scan this] obtain pl where
    pl: "pl = bindings_plan a" "carried_out a (set_of_names (serviceInstanceNames a)) False pl a1 u s"
    "\<forall>k. map_of (services_of a1) k =
         (if k \<in> set ?ks then kept_for k pl else map_of (services_of a) k)"
    unfolding bindings_plan_def by blast
  have names: "set (plan_names pl) = set (serviceInstanceNames a)"
  proof
    show "set (plan_names pl) \<subseteq> set (serviceInstanceNames a)"
      using plan_names_wanted unfolding pl(1) bindings_plan_def by (metis set_set_of_names)
    have "filter (\<lambda>n. n \<notin> set (plan_names pl)) (set_of_names (serviceInstanceNames a)) = []"
      using pl(2) c(2) by (simp add: carried_out_def)
    then show "set (serviceInstanceNames a) \<subseteq> set (plan_names pl)"
      by (auto simp: filter_empty_conv)
  qed
  have maps: "map_of (services_of a1) k = kept_for k pl" for k
  proof (cases "k \<in> set ?ks")
    case True
    with pl(3) show ?thesis by simp
  next
    case False
    then have "map_of (services_of a) k = None" by (auto simp: set_keys)
    moreover have "filter (\<lambda>x. plService x = k) pl = []"
    proof (rule filter_none)
      fix x assume "x \<in> set pl"
      then have "(plService x, Some (plOld x)) \<in> set (items (services_of a) ?ks)"
        using plan_elem unfolding pl(1) bindings_plan_def by blast
      then show "plService x \<noteq> k" using items_service False by fastforce
    qed
    ultimately show ?thesis using pl(3) False by (simp add: kept_for_def)
  qed
  have a': "services_of a' = services_of a1" "forwardAddrs a' = forwardAddrs a1" "nextPort a' = nextPort a1"
    "same_frame a1 a'" "map_of (runEnv a') ''VCAP_SERVICES'' = Some (vcap_json m')"
    using m'(3) by (simp_all add: services_of_def same_frame_def)
  have co: "forwardAddrs a1 = forwardAddrs a @ map plForward pl" "nextPort a1 = nextPort a + plan_used pl"
    "s \<longleftrightarrow> (\<exists>x \<in> set pl. serves_program (program a) (kinds (serviceProviders a)) (plService x))"
    "same_frame a a1"
    using pl(2) by (simp_all add: carried_out_def)
  have sat: "program a = [] \<or> s" using c(3) co(4) by (simp add: same_frame_def)
  have "(m' = None \<longrightarrow> services_of a' = []) \<and> (\<forall>s. m' = Some s \<longrightarrow> s = services_of a')"
    using m'(2) a'(1) by (cases m') simp_all
  then show ?thesis
    unfolding pl(1) [symmetric]
    using co a' names sat maps same_frame_trans [OF co(4) a'(4)]
    by (intro conjI exI [of _ m']) simp_all
qed

end
