(* ===== verification/JsonRoundtrip.thy ===== *)
theory JsonRoundtrip
  imports Json
begin

text \<open>
  Reading back what \<open>json.Marshal\<close> wrote: string literals, numbers and whole values.
\<close>

section \<open>String literals\<close>

text \<open>Valid UTF-8, as \<open>utf8.Valid\<close> decides it.\<close>

function valid_utf8 :: "string \<Rightarrow> bool" where
  "valid_utf8 [] = True"
| "valid_utf8 (c # s) =
     (let w = utf8_width (c # s) in w \<noteq> 0 \<and> valid_utf8 (drop (w - 1) s))"
  by pat_completeness auto
termination
  by (relation "measure length") auto

declare valid_utf8.simps(2) [simp del]

lemma byte_inj: "byte c = byte d \<longleftrightarrow> c = d"
  by (simp add: byte_def)

lemma char_of_byte [simp]: "char_of (byte c) = c"
  by (simp add: byte_def)

lemma byte_consts [simp]: "byte CHR ''u'' = 117" "byte CHR 0x22 = 34"
  by (simp_all add: byte_def)

lemma bslash_neq [simp]: "bslash \<noteq> CHR 0x22" "CHR 0x22 \<noteq> bslash"
  by (simp_all add: bslash_def)

lemma hex_val_hex_char: "0 \<le> d \<Longrightarrow> d < 16 \<Longrightarrow> hex_val (hex_char d) = Some d"
  by (simp add: hex_val_def hex_char_def byte_char_of)

lemma hex4_low:
  assumes "0 \<le> n" and "n < 256"
  shows "hex4 (CHR ''0'' # CHR ''0'' # hex_char (n div 16) # hex_char (n mod 16) # s) = Some n"
proof -
  have "hex_val CHR ''0'' = Some 0" by code_simp
  moreover have "0 \<le> n div 16" "n div 16 < 16" "0 \<le> n mod 16" "n mod 16 < 16"
    using assms by (auto simp: div_less_iff_less_mult)
  ultimately show ?thesis by (simp add: hex_val_hex_char)
qed

lemma utf8_encode_ascii: "0 \<le> n \<Longrightarrow> n < 128 \<Longrightarrow> utf8_encode n = [char_of n]"
  by (simp add: utf8_encode_def)

text \<open>One step of reading a string literal.\<close>

lemma lex_string_quote: "lex_string (CHR 0x22 # s) = Some ([], s)"
  by (simp add: lex_string.simps(2))

lemma lex_string_plain:
  assumes "32 \<le> byte c" and "byte c < 128" and "c \<noteq> CHR 0x22" and "c \<noteq> bslash"
  shows "lex_string (c # s) = put [c] (lex_string s)"
  using assms by (simp add: lex_string.simps(2))

lemma lex_string_escape:
  assumes "simple_escape d = Some e" and "d \<noteq> CHR ''u''"
  shows "lex_string (bslash # d # s) = put [e] (lex_string s)"
proof -
  have "\<not> byte bslash < 32" by simp
  then show ?thesis using assms unfolding lex_string.simps(2) [of bslash] by simp
qed

lemma lex_string_unicode:
  assumes "hex4 h = Some r" and "r < 0xD800"
  shows "lex_string (bslash # CHR ''u'' # h) = put (utf8_encode r) (lex_string (drop 4 h))"
proof -
  have "\<not> byte bslash < 32" by simp
  then show ?thesis
    using assms unfolding lex_string.simps(2) [of bslash] by (simp add: escape_rune_def)
qed

lemma lex_string_multi:
  assumes "128 \<le> byte c" and "utf8_width (c # s) = w" and "w \<noteq> 0"
  shows "lex_string (c # s) = put (take w (c # s)) (lex_string (drop (w - 1) s))"
proof -
  have "c \<noteq> CHR 0x22" "c \<noteq> bslash" using assms(1) by auto
  then show ?thesis using assms unfolding lex_string.simps(2) by (simp add: Let_def)
qed

lemma escape_cases:
  obtains "c = CHR 0x22" | "c = bslash" | "c = CHR 0x08" | "c = CHR 0x0C" | "c = CHR 0x0A"
  | "c = CHR 0x0D" | "c = CHR 0x09"
  | "escape_ascii c = bslash # ''u00'' @ [hex_char (byte c div 16), hex_char (byte c mod 16)]"
  | "escape_ascii c = [c]" "32 \<le> byte c" "c \<noteq> CHR 0x22" "c \<noteq> bslash"
proof -
  have "escape_ascii c = bslash # ''u00'' @ [hex_char (byte c div 16), hex_char (byte c mod 16)]
      \<or> escape_ascii c = [c] \<and> 32 \<le> byte c"
    if "c \<noteq> CHR 0x22" "c \<noteq> bslash" "c \<noteq> CHR 0x08" "c \<noteq> CHR 0x0C" "c \<noteq> CHR 0x0A" "c \<noteq> CHR 0x0D"
      "c \<noteq> CHR 0x09"
    unfolding escape_ascii_def using that by (simp only: if_False if_True disj_not1 simp_thms split: if_split) auto
  then show thesis using that by metis
qed

lemma escape_ascii_fixed:
  "escape_ascii CHR 0x22 = [bslash, CHR 0x22]" "escape_ascii bslash = [bslash, bslash]"
  "escape_ascii CHR 0x08 = [bslash, CHR ''b'']" "escape_ascii CHR 0x0C = [bslash, CHR ''f'']"
  "escape_ascii CHR 0x0A = [bslash, CHR ''n'']" "escape_ascii CHR 0x0D = [bslash, CHR ''r'']"
  "escape_ascii CHR 0x09 = [bslash, CHR ''t'']"
  by code_simp+

lemma simple_escape_fixed:
  "simple_escape CHR 0x22 = Some (CHR 0x22)" "simple_escape bslash = Some bslash"
  "simple_escape CHR ''b'' = Some (CHR 0x08)" "simple_escape CHR ''f'' = Some (CHR 0x0C)"
  "simple_escape CHR ''n'' = Some (CHR 0x0A)" "simple_escape CHR ''r'' = Some (CHR 0x0D)"
  "simple_escape CHR ''t'' = Some (CHR 0x09)" "bslash \<noteq> CHR ''u''"
  by code_simp+

lemma lex_string_ascii:
  assumes "byte c < 128"
  shows "lex_string (escape_ascii c @ s) = put [c] (lex_string s)"
proof (cases c rule: escape_cases)
  case 8
  have b: "0 \<le> byte c" using byte_bounds by blast
  have "lex_string (bslash # CHR ''u'' # CHR ''0'' # CHR ''0'' # hex_char (byte c div 16)
      # hex_char (byte c mod 16) # s) = put [c] (lex_string s)"
    using lex_string_unicode [OF hex4_low [OF b], of s] assms by (simp add: utf8_encode_ascii b)
  then show ?thesis unfolding 8 by simp
next
  case 9
  then show ?thesis using assms by (simp add: lex_string_plain)
qed (simp_all add: escape_ascii_fixed simple_escape_fixed lex_string_escape)

text \<open>The width of a sequence is decided by its own bytes.\<close>

lemma in_byte_length: "in_byte lo hi s i \<Longrightarrow> i < length s"
  by (simp add: in_byte_def)

lemma utf8_width_index:
  assumes "i < utf8_width s"
  shows "i < length s"
proof -
  have "i = 0 \<or> i = 1 \<or> i = 2 \<or> i = 3" using assms utf8_width_le [of s] by linarith
  moreover have "s \<noteq> []" using assms by (auto simp: utf8_width_def Let_def in_byte_def)
  ultimately show ?thesis using assms utf8_width_cont [of s] by (auto simp: in_byte_def)
qed

lemma utf8_width_length: "utf8_width s \<le> length s"
  using utf8_width_index by (metis linorder_not_less order_refl)

lemma in_byte_take:
  "i < w \<Longrightarrow> w \<le> length s \<Longrightarrow> in_byte lo hi (take w s @ t) i = in_byte lo hi s i"
  by (simp add: in_byte_def nth_append)

lemma in_byte_0: "in_byte lo hi s 0 = (s \<noteq> [] \<and> lo \<le> byte (s ! 0) \<and> byte (s ! 0) \<le> hi)"
  by (simp add: in_byte_def)

text \<open>What the first two bytes of a sequence of three or four may be.\<close>

definition lead3 :: "string \<Rightarrow> bool" where
  "lead3 s = ((in_byte 0xE0 0xE0 s 0 \<and> in_byte 0xA0 0xBF s 1)
     \<or> (in_byte 0xED 0xED s 0 \<and> in_byte 0x80 0x9F s 1)
     \<or> ((in_byte 0xE1 0xEC s 0 \<or> in_byte 0xEE 0xEF s 0) \<and> in_byte 0x80 0xBF s 1))"

definition lead4 :: "string \<Rightarrow> bool" where
  "lead4 s = ((in_byte 0xF0 0xF0 s 0 \<and> in_byte 0x90 0xBF s 1)
     \<or> (in_byte 0xF4 0xF4 s 0 \<and> in_byte 0x80 0x8F s 1)
     \<or> (in_byte 0xF1 0xF3 s 0 \<and> in_byte 0x80 0xBF s 1))"

lemma utf8_width_leads:
  "utf8_width s =
     (if in_byte 0x00 0x7F s 0 then 1
      else if in_byte 0xC2 0xDF s 0 \<and> in_byte 0x80 0xBF s 1 then 2
      else if lead3 s \<and> in_byte 0x80 0xBF s 2 then 3
      else if lead4 s \<and> in_byte 0x80 0xBF s 2 \<and> in_byte 0x80 0xBF s 3 then 4
      else 0)"
  unfolding utf8_width_def lead3_def lead4_def Let_def by (rule refl)

lemma lead_range:
  "lead3 s \<Longrightarrow> in_byte 0xE0 0xEF s 0" "lead4 s \<Longrightarrow> in_byte 0xF0 0xF4 s 0"
  unfolding lead3_def lead4_def by (auto simp: in_byte_0)

lemma lead_excl:
  "in_byte 0x00 0x7F s 0 \<Longrightarrow> \<not> in_byte 0xC2 0xDF s 0" "lead3 s \<Longrightarrow> \<not> in_byte 0x00 0x7F s 0"
  "lead3 s \<Longrightarrow> \<not> in_byte 0xC2 0xDF s 0" "lead4 s \<Longrightarrow> \<not> in_byte 0x00 0x7F s 0"
  "lead4 s \<Longrightarrow> \<not> in_byte 0xC2 0xDF s 0" "lead4 s \<Longrightarrow> \<not> lead3 s"
  by (auto simp: in_byte_0 dest!: lead_range)

lemma utf8_width_iff:
  "utf8_width s = 1 \<longleftrightarrow> in_byte 0x00 0x7F s 0"
  "utf8_width s = 2 \<longleftrightarrow> in_byte 0xC2 0xDF s 0 \<and> in_byte 0x80 0xBF s 1"
  "utf8_width s = 3 \<longleftrightarrow> lead3 s \<and> in_byte 0x80 0xBF s 2"
  "utf8_width s = 4 \<longleftrightarrow> lead4 s \<and> in_byte 0x80 0xBF s 2 \<and> in_byte 0x80 0xBF s 3"
  unfolding utf8_width_leads using lead_excl [of s] by auto

lemma lead_take:
  assumes "1 < w" and "w \<le> length s"
  shows "lead3 (take w s @ t) = lead3 s" "lead4 (take w s @ t) = lead4 s"
  unfolding lead3_def lead4_def using assms by (simp_all add: in_byte_take)

lemma utf8_width_take:
  fixes t :: string
  assumes "utf8_width s \<noteq> 0"
  shows "utf8_width (take (utf8_width s) s @ t) = utf8_width s"
proof -
  have l: "utf8_width s \<le> length s" by (rule utf8_width_length)
  have "utf8_width s = 1 \<or> utf8_width s = 2 \<or> utf8_width s = 3 \<or> utf8_width s = 4"
    using assms utf8_width_le [of s] by linarith
  then show ?thesis
  proof (elim disjE)
    assume w: "utf8_width s = 1"
    with l have "1 \<le> length s" by simp
    then have "utf8_width (take 1 s @ t) = 1"
      using w unfolding utf8_width_iff by (simp only: in_byte_take less_one)
    with w show ?thesis by simp
  next
    assume w: "utf8_width s = 2"
    with l have "2 \<le> length s" by simp
    then have "utf8_width (take 2 s @ t) = 2"
      using w unfolding utf8_width_iff by (simp add: in_byte_take)
    with w show ?thesis by simp
  next
    assume w: "utf8_width s = 3"
    with l have "3 \<le> length s" by simp
    then have "utf8_width (take 3 s @ t) = 3"
      using w unfolding utf8_width_iff by (simp add: in_byte_take lead_take)
    with w show ?thesis by simp
  next
    assume w: "utf8_width s = 4"
    with l have "4 \<le> length s" by simp
    then have "utf8_width (take 4 s @ t) = 4"
      using w unfolding utf8_width_iff by (simp add: in_byte_take lead_take)
    with w show ?thesis by simp
  qed
qed

text \<open>The line separators are written as escapes.\<close>

lemma lex_string_separators:
  "lex_string (bslash # ''u2028'' @ s) = put [CHR 0xE2, CHR 0x80, CHR 0xA8] (lex_string s)"
  "lex_string (bslash # ''u2029'' @ s) = put [CHR 0xE2, CHR 0x80, CHR 0xA9] (lex_string s)"
proof -
  have h: "hex_val CHR ''2'' = Some 2" "hex_val CHR ''0'' = Some 0" "hex_val CHR ''8'' = Some 8"
    "hex_val CHR ''9'' = Some 9" by code_simp+
  have u: "utf8_encode 0x2028 = [CHR 0xE2, CHR 0x80, CHR 0xA8]"
    "utf8_encode 0x2029 = [CHR 0xE2, CHR 0x80, CHR 0xA9]" by code_simp+
  show "lex_string (bslash # ''u2028'' @ s) = put [CHR 0xE2, CHR 0x80, CHR 0xA8] (lex_string s)"
    using lex_string_unicode [where h = "''2028'' @ s" and r = "0x2028"] u(1) by (simp add: h)
  show "lex_string (bslash # ''u2029'' @ s) = put [CHR 0xE2, CHR 0x80, CHR 0xA9] (lex_string s)"
    using lex_string_unicode [where h = "''2029'' @ s" and r = "0x2029"] u(2) by (simp add: h)
qed

lemma lex_string_sequence:
  assumes "\<not> byte c < 128" and "utf8_width (c # s) = w" and "w \<noteq> 0"
  shows "lex_string (take w (c # s) @ t) = put (take w (c # s)) (lex_string t)"
proof -
  let ?u = "take (w - 1) s"
  have wl: "w \<le> length (c # s)" using assms(2) utf8_width_length by metis
  have u: "take w (c # s) = c # ?u" using assms(3) by (cases w) auto
  have "utf8_width (c # (?u @ t)) = w"
    using utf8_width_take [of "c # s"] assms(2,3) u by simp
  then have "lex_string (c # (?u @ t)) = put (take w (c # (?u @ t))) (lex_string (drop (w - 1) (?u @ t)))"
    using assms(1,3) by (intro lex_string_multi) simp_all
  moreover have "length ?u = w - 1" using wl by simp
  then have "drop (w - 1) (?u @ t) = t" "take w (c # (?u @ t)) = c # ?u"
    using assms(3) by (cases w; simp)+
  ultimately show ?thesis unfolding u by simp
qed

lemma utf8_width_three: "take 3 s = [CHR 0xE2, CHR 0x80, x] \<Longrightarrow> utf8_width s \<noteq> 0 \<Longrightarrow> utf8_width s = 3"
proof -
  assume t: "take 3 s = [CHR 0xE2, CHR 0x80, x]" and w: "utf8_width s \<noteq> 0"
  then have "s ! 0 = CHR 0xE2" by (metis nth_Cons_0 nth_take zero_less_numeral)
  then have b: "byte (s ! 0) = 0xE2" by (simp add: byte_def)
  then have "\<not> in_byte 0x00 0x7F s 0" "\<not> in_byte 0xC2 0xDF s 0" "\<not> lead4 s"
    by (auto simp: in_byte_0 dest: lead_range)
  with w show ?thesis by (auto simp: utf8_width_leads split: if_splits)
qed

theorem lex_string_body:
  "valid_utf8 s \<Longrightarrow> lex_string (json_body s @ CHR 0x22 # rest) = Some (s, rest)"
proof (induction "length s" arbitrary: s rule: less_induct)
  case less
  show ?case
  proof (cases s)
    case Nil
    then show ?thesis by (simp add: lex_string_quote)
  next
    case (Cons c r)
    let ?w = "utf8_width (c # r)"
    have v: "?w \<noteq> 0" "valid_utf8 (drop (?w - 1) r)"
      using less.prems unfolding Cons valid_utf8.simps(2) by (simp_all add: Let_def)
    have IH: "lex_string (json_body (drop (?w - 1) r) @ CHR 0x22 # rest) = Some (drop (?w - 1) r, rest)"
      by (rule less.hyps) (use v Cons in auto)
    have split: "take ?w (c # r) @ drop (?w - 1) r = c # r"
      using v(1) by (cases ?w) auto
    show ?thesis
    proof (cases "byte c < 128")
      case True
      then have "?w = 1" using byte_bounds [of c] unfolding utf8_width_iff(1) by (simp add: in_byte_0)
      then show ?thesis using IH True by (simp add: Cons json_body_ascii lex_string_ascii put_def)
    next
      case False
      let ?A = "take 3 (c # r) = [CHR 0xE2, CHR 0x80, CHR 0xA8]"
      let ?B = "take 3 (c # r) = [CHR 0xE2, CHR 0x80, CHR 0xA9]"
      let ?d = "json_body (drop (?w - 1) r)"
      have eq: "json_body (c # r) = (if ?A then bslash # ''u2028'' @ ?d
          else if ?B then bslash # ''u2029'' @ ?d else take ?w (c # r) @ ?d)"
        using False v(1) by (simp only: json_body.simps(2) Let_def if_False)
      have "lex_string (json_body (c # r) @ CHR 0x22 # rest)
          = put (take ?w (c # r)) (lex_string (?d @ CHR 0x22 # rest))"
      proof (cases "?A \<or> ?B")
        case True
        then have w: "?w = 3" using utf8_width_three v(1) by blast
        show ?thesis
        proof (cases ?A)
          case A: True
          then have "json_body (c # r) = bslash # ''u2028'' @ ?d" unfolding eq by (rule if_P)
          then show ?thesis
            unfolding w A using lex_string_separators(1) by (simp only: append_Cons append.assoc)
        next
          case A: False
          with True have B: ?B by blast
          have "json_body (c # r) = bslash # ''u2029'' @ ?d"
            unfolding eq if_not_P [OF A] using B by (rule if_P)
          then show ?thesis
            unfolding w B using lex_string_separators(2) by (simp only: append_Cons append.assoc)
        qed
      next
        case False
        then have "json_body (c # r) = take ?w (c # r) @ ?d" unfolding eq by (simp only: if_False de_Morgan_disj simp_thms)
        then show ?thesis
          using lex_string_sequence [OF \<open>\<not> byte c < 128\<close> refl v(1)] by (simp only: append.assoc)
      qed
      then show ?thesis using IH split unfolding Cons by (simp add: put_def)
    qed
  qed
qed

section \<open>Numbers\<close>

abbreviation digits_ok :: "int list \<Rightarrow> bool" where
  "digits_ok ds \<equiv> \<forall>d \<in> set ds. 0 \<le> d \<and> d < 10"

lemma is_digit_digit_char: "0 \<le> d \<Longrightarrow> d < 10 \<Longrightarrow> is_digit (digit_char d)"
  by (simp add: is_digit_def)

lemma not_digits [simp]:
  "\<not> is_digit CHR ''.''" "\<not> is_digit CHR ''e''" "\<not> is_digit CHR ''-''" "\<not> is_digit CHR ''+''"
  by code_simp+

lemma digit_char_eq_0: "0 \<le> d \<Longrightarrow> d < 10 \<Longrightarrow> digit_char d = CHR ''0'' \<longleftrightarrow> d = 0"
  using digit_of_digit_char [of d] digit_of_digit_char [of 0] by (metis digit_char_0 option.inject order_refl zero_less_numeral)

lemma digit_list_digits: "digits_ok ds \<Longrightarrow> digit_list (map digit_char ds) = ds"
  by (induction ds) (auto simp: digit_list_def)

lemma take_digits:
  assumes "digits_ok ds" and "r = [] \<or> \<not> is_digit (hd r)"
  shows "takeWhile is_digit (map digit_char ds @ r) = map digit_char ds"
    "dropWhile is_digit (map digit_char ds @ r) = r"
  using assms(1)
proof (induction ds)
  case Nil
  show "takeWhile is_digit (map digit_char [] @ r) = map digit_char []"
    "dropWhile is_digit (map digit_char [] @ r) = r"
    using assms(2) by (cases r; auto)+
qed (simp_all add: is_digit_digit_char)

text \<open>The text of a number from its parts, and its parts read back.\<close>

definition number_text :: "bool \<Rightarrow> int list \<Rightarrow> int list \<Rightarrow> string \<Rightarrow> string" where
  "number_text neg ip fp x =
     (if neg then ''-'' else []) @ map digit_char ip @ (if fp = [] then [] else ''.'' @ map digit_char fp) @ x"

lemma num_parts_number_text:
  assumes "digits_ok ip" "digits_ok fp" "ip \<noteq> []" "hd ip = 0 \<Longrightarrow> length ip = 1"
    and x: "x = [] \<or> hd x = CHR ''e''" and e: "num_exponent x = Some e"
  shows "num_parts (number_text neg ip fp x) = Some (neg, ip, fp, e)"
proof -
  let ?f = "(if fp = [] then [] else ''.'' @ map digit_char fp) @ x"
  obtain i ir where ip: "ip = i # ir" using assms(3) by (cases ip) auto
  have i: "0 \<le> i" "i < 10" using assms(1) ip by auto
  have "?f = [] \<or> \<not> is_digit (hd ?f)" using x by auto
  note I = take_digits [OF assms(1) this]
  have "x = [] \<or> \<not> is_digit (hd x)" using x by auto
  note F = take_digits [OF assms(2) this]
  have sign: "take 1 (map digit_char ip @ ?f) \<noteq> ''-''"
    using digit_char_neq_sign [OF i] by (simp add: ip)
  have zero: "\<not> (take 1 (map digit_char ip) = ''0'' \<and> length (map digit_char ip) > 1)"
    using assms(4) digit_char_eq_0 [OF i] by (auto simp: ip)
  have rest: "(if neg then ''-'' else []) @ map digit_char ip @ ?f = number_text neg ip fp x"
    by (simp add: number_text_def)
  have s1: "(if take 1 (number_text neg ip fp x) = ''-'' then drop 1 (number_text neg ip fp x)
      else number_text neg ip fp x) = map digit_char ip @ ?f"
    and s0: "take 1 (number_text neg ip fp x) = ''-'' \<longleftrightarrow> neg"
    unfolding rest [symmetric] using sign by auto
  have dot: "take 1 x \<noteq> ''.''" using x by (cases x) auto
  show ?thesis
    unfolding num_parts_def Let_def unfolding s1 unfolding I s0
    using zero assms(3) dot F e by (simp add: digit_list_digits assms(1,2) digit_list_def [of "[]"] del: length_map)
qed

lemma of_digits_0 [simp]: "of_digits (0 # ds) = of_digits ds"
  by (simp add: of_digits_def)

lemma num_exponent_text:
  assumes "digits_ok es" and "es \<noteq> []"
  shows "num_exponent (''e'' @ ''-'' @ map digit_char es) = Some (- of_digits es)"
    "num_exponent (''e'' @ ''+'' @ map digit_char es) = Some (of_digits es)"
  using assms
  by (auto simp: num_exponent_def Let_def list_all_iff is_digit_digit_char digit_list_digits)

text \<open>Trimming the zeros that a number was padded with.\<close>

lemma strip_zeros_last: "ds = [] \<or> last ds \<noteq> 0 \<Longrightarrow> strip_zeros ds = ds"
  by (subst strip_zeros.simps) auto

lemma strip_zeros_append: "ds = [] \<or> last ds \<noteq> 0 \<Longrightarrow> strip_zeros (ds @ replicate k 0) = ds"
proof (induction k)
  case (Suc k)
  have "strip_zeros (ds @ replicate (Suc k) 0) = strip_zeros (ds @ replicate k 0)"
    by (subst strip_zeros.simps) (simp flip: replicate_append_same add: butlast_append)
  with Suc show ?case by simp
qed (simp add: strip_zeros_last)

lemma takeWhile_zeros: "ds \<noteq> [] \<Longrightarrow> hd ds \<noteq> (0::int) \<Longrightarrow> takeWhile (\<lambda>d. d = 0) (replicate k 0 @ ds @ r) = replicate k 0"
  by (induction k) (auto simp: neq_Nil_conv)

lemma trim_padded:
  assumes "ds \<noteq> []" "hd ds \<noteq> 0" "last ds \<noteq> 0"
  shows "trim_decimal (replicate j 0 @ ds @ replicate k 0) dp = (ds, dp - int j)"
  using assms by (simp add: trim_decimal_def Let_def takeWhile_zeros strip_zeros_append)

text \<open>
  A number as the decoder leaves it: decimal digits without zeros at the ends that are the
  shortest for the float64 they round to.
\<close>

definition wf_num :: "int list \<Rightarrow> int \<Rightarrow> bool" where
  "wf_num ds dp =
     (list_all (\<lambda>d. 0 \<le> d \<and> d < 10) ds
      \<and> (if ds = [] then dp = 0 else hd ds \<noteq> 0 \<and> last ds \<noteq> 0)
      \<and> round_decimal ds dp = Some (ds, dp))"

lemma parse_float_number_text:
  assumes "digits_ok ip" "digits_ok fp" "ip \<noteq> []" "hd ip = 0 \<Longrightarrow> length ip = 1"
    and "x = [] \<or> hd x = CHR ''e''" and "num_exponent x = Some e"
    and "wf_num ds dp" and "trim_decimal (ip @ fp) (int (length ip) + e) = (ds, dp)"
  shows "parse_float (number_text neg ip fp x) = Some (GNum neg ds dp)"
  using assms by (simp add: parse_float_def num_parts_number_text wf_num_def)

lemma wf_num_digits: "wf_num ds dp \<Longrightarrow> digits_ok ds"
  by (simp add: wf_num_def list_all_iff)

lemma map_digit_at:
  "0 < dp \<Longrightarrow> map (digit_at ds) [0..dp - 1]
     = map digit_char (take (nat dp) ds @ replicate (nat dp - length ds) 0)"
  by (rule nth_equalityI)
    (auto simp: digit_at_def nth_append digit_char_0 nat_less_iff min_def zless_nat_eq_int_zless)

lemma map_digit_at_frac:
  assumes "p = nat (int (length ds) - dp)" and "0 < p"
  shows "map (\<lambda>i. digit_at ds (dp + i)) [0..int p - 1]
     = map digit_char (replicate (nat (- dp)) 0 @ drop (nat dp) ds)"
proof -
  have "nat (dp + int i) = nat dp + i - nat (- dp)" if "\<not> i < nat (- dp)" for i using that by arith
  then show ?thesis
    by (intro nth_equalityI) (use assms in \<open>auto simp: digit_at_def nth_append digit_char_0 nat_less_iff\<close>)
qed

text \<open>Every number the encoder writes has such a text.\<close>

lemma fmt_f_ge_1:
  assumes "0 < dp"
  shows "fmt_f neg ds dp (nat (int (length ds) - dp))
    = number_text neg (take (nat dp) ds @ replicate (nat dp - length ds) 0) (drop (nat dp) ds) []"
proof (cases "length ds \<le> nat dp")
  case True
  then have "nat (int (length ds) - dp) = 0" "drop (nat dp) ds = []" using assms by simp_all
  then show ?thesis
    using assms unfolding fmt_f_def number_text_def map_digit_at [OF assms] by (simp only: if_True refl simp_thms if_False) simp
next
  case False
  then have "0 < nat (int (length ds) - dp)" "drop (nat dp) ds \<noteq> []" "nat (- dp) = 0"
    using assms by simp_all
  then show ?thesis
    using assms unfolding fmt_f_def number_text_def map_digit_at [OF assms]
    by (simp only: map_digit_at_frac [OF refl] if_True if_False replicate_0 append_Nil) simp
qed

lemma fmt_f_le_0:
  assumes "dp \<le> 0" and "ds \<noteq> []"
  shows "fmt_f neg ds dp (nat (int (length ds) - dp))
    = number_text neg [0] (replicate (nat (- dp)) 0 @ ds) []"
proof -
  have "0 < nat (int (length ds) - dp)" "\<not> 0 < dp" "nat dp = 0" using assms by (cases ds; simp)+
  then show ?thesis
    using assms unfolding fmt_f_def number_text_def
    by (simp only: map_digit_at_frac [OF refl] if_True if_False drop_0) (simp add: digit_char_0)
qed

lemma trim_ge_1:
  assumes "ds \<noteq> []" "hd ds \<noteq> 0" "last ds \<noteq> 0"
  shows "trim_decimal ((take n ds @ replicate (n - length ds) 0) @ drop n ds) dp = (ds, dp)"
proof -
  have "(take n ds @ replicate (n - length ds) 0) @ drop n ds = replicate 0 0 @ ds @ replicate (n - length ds) 0"
    by (cases "n \<le> length ds") simp_all
  then show ?thesis using trim_padded [OF assms, of 0 _ dp] by simp
qed

lemma trim_le_0:
  assumes "ds \<noteq> []" "hd ds \<noteq> 0" "last ds \<noteq> 0" and "dp \<le> 0"
  shows "trim_decimal ([0] @ replicate (nat (- dp)) 0 @ ds) 1 = (ds, dp)"
proof -
  have "[0] @ replicate (nat (- dp)) 0 @ ds = replicate (Suc (nat (- dp))) 0 @ ds @ replicate 0 0" by simp
  then show ?thesis using trim_padded [OF assms(1-3), of "Suc (nat (- dp))" 0 1] assms(4) by simp
qed

lemma digits_ok_take: "digits_ok ds \<Longrightarrow> digits_ok (take n ds @ replicate k 0)"
  and digits_ok_drop: "digits_ok ds \<Longrightarrow> digits_ok (drop n ds)"
  and digits_ok_pad: "digits_ok ds \<Longrightarrow> digits_ok (replicate k 0 @ ds)"
  by (auto dest: in_set_takeD in_set_dropD)

lemma hd_take_digits: "ds \<noteq> [] \<Longrightarrow> 0 < n \<Longrightarrow> take n ds @ x \<noteq> [] \<and> hd (take n ds @ x) = hd ds"
  by (cases ds; cases n) simp_all

lemma json_number_plain:
  assumes "wf_num ds dp" and "\<not> (ds \<noteq> [] \<and> (dp \<le> -6 \<or> dp \<ge> 22))"
  shows "\<exists>ip fp. json_number neg ds dp = number_text neg ip fp [] \<and> digits_ok ip \<and> digits_ok fp
    \<and> ip \<noteq> [] \<and> (hd ip = 0 \<longrightarrow> length ip = 1) \<and> trim_decimal (ip @ fp) (int (length ip)) = (ds, dp)"
proof -
  consider "ds = []" | "ds \<noteq> []" "0 < dp" | "ds \<noteq> []" "dp \<le> 0" by linarith
  then show ?thesis
  proof cases
    case 1
    then have "dp = 0" using assms(1) by (simp add: wf_num_def)
    with 1 show ?thesis
      by (intro exI [of _ "[0]"] exI [of _ "[]"])
        (simp add: json_number_def number_text_def fmt_f_def digit_char_0 trim_decimal_def strip_zeros_last)
  next
    case 2
    then have d: "digits_ok ds" "hd ds \<noteq> 0" "last ds \<noteq> 0"
      using assms(1) by (auto simp: wf_num_def list_all_iff)
    let ?ip = "take (nat dp) ds @ replicate (nat dp - length ds) 0"
    have "json_number neg ds dp = number_text neg ?ip (drop (nat dp) ds) []"
      unfolding json_number_def if_not_P [OF assms(2)] by (rule fmt_f_ge_1 [OF 2(2)])
    moreover have "int (length ?ip) = dp" using 2 by (simp add: min_def)
    then have "trim_decimal (?ip @ drop (nat dp) ds) (int (length ?ip)) = (ds, dp)"
      using trim_ge_1 [OF 2(1) d(2,3)] by (simp only:)
    moreover have "?ip \<noteq> [] \<and> hd ?ip = hd ds" using 2 by (intro hd_take_digits) simp_all
    ultimately show ?thesis using digits_ok_take [OF d(1)] digits_ok_drop [OF d(1)] d(2) by metis
  next
    case 3
    then have d: "digits_ok ds" "hd ds \<noteq> 0" "last ds \<noteq> 0"
      using assms(1) by (auto simp: wf_num_def list_all_iff)
    have "json_number neg ds dp = number_text neg [0] (replicate (nat (- dp)) 0 @ ds) []"
      unfolding json_number_def if_not_P [OF assms(2)] by (rule fmt_f_le_0 [OF 3(2,1)])
    moreover have "trim_decimal ([0] @ replicate (nat (- dp)) 0 @ ds) (int (length [0::int])) = (ds, dp)"
      using trim_le_0 [OF 3(1) d(2,3) 3(2)] by simp
    moreover have "digits_ok [0]" by simp
    ultimately show ?thesis using digits_ok_pad [OF d(1)] by (metis list.distinct(1) length_Cons list.size(3) One_nat_def)
  qed
qed

lemma fmt_e_text:
  assumes "wf_num ds dp" and "ds \<noteq> []" and "dp \<le> -6 \<or> dp \<ge> 22"
  shows "\<exists>es. 2 \<le> length es \<and> digits_ok es \<and> of_digits es = \<bar>dp - 1\<bar>
    \<and> fmt_e neg ds dp = number_text neg [hd ds] (tl ds) (''e'' @ (if dp - 1 < 0 then ''-'' else ''+'') @ map digit_char es)"
proof -
  let ?e = "\<bar>dp - 1\<bar>"
  let ?es = "if ?e < 10 then 0 # dec_digits ?e else dec_digits ?e"
  have "dec_digits ?e = dec_digits (?e div 10) @ [?e mod 10]" if "\<not> ?e < 10"
    using that by (intro dec_digits_step) simp
  then have "2 \<le> length ?es" by (auto simp: Suc_le_eq)
  moreover have "digits_ok ?es" using dec_digits_bounded [of ?e] by auto
  moreover have "of_digits ?es = ?e" by (simp add: dec_digits_value of_digits_def)
  moreover have "fmt_e neg ds dp
      = number_text neg [hd ds] (tl ds) (''e'' @ (if dp - 1 < 0 then ''-'' else ''+'') @ map digit_char ?es)"
  proof -
    have "digit_at ds 0 = digit_char (hd ds)" "length ds > 1 \<longleftrightarrow> tl ds \<noteq> []"
      using assms(2) by (cases ds; simp add: digit_at_def)+
    then show ?thesis
      using assms(2) by (simp add: fmt_e_def number_text_def Let_def itoa_def digits_text_def digit_char_0)
  qed
  ultimately show ?thesis by blast
qed

lemma json_number_exponent:
  assumes "wf_num ds dp" and "ds \<noteq> []" and "dp \<le> -6 \<or> dp \<ge> 22"
  shows "\<exists>es. es \<noteq> [] \<and> digits_ok es \<and> of_digits es = \<bar>dp - 1\<bar>
    \<and> json_number neg ds dp = number_text neg [hd ds] (tl ds) (''e'' @ (if dp - 1 < 0 then ''-'' else ''+'') @ map digit_char es)"
proof -
  let ?t = "fmt_e neg ds dp" and ?sg = "if dp - 1 < 0 then ''-'' else ''+''"
  obtain es where es: "2 \<le> length es" "digits_ok es" "of_digits es = \<bar>dp - 1\<bar>"
    and t: "?t = number_text neg [hd ds] (tl ds) (''e'' @ ?sg @ map digit_char es)"
    using fmt_e_text [OF assms] by blast
  let ?n = "length ?t"
  let ?c = "?n \<ge> 4 \<and> ?t ! (?n - 4) = CHR ''e'' \<and> ?t ! (?n - 3) = CHR ''-'' \<and> ?t ! (?n - 2) = CHR ''0''"
  have j: "json_number neg ds dp = (if ?c then take (?n - 2) ?t @ [?t ! (?n - 1)] else ?t)"
    unfolding json_number_def Let_def using assms(2,3) by simp
  show ?thesis
  proof (cases ?c)
    case False
    then show ?thesis using j t es by (intro exI [of _ es]) auto
  next
    case True
    obtain A where A: "?t = A @ map digit_char es" and A': "A = number_text neg [hd ds] (tl ds) (''e'' @ ?sg)"
      unfolding t by (simp add: number_text_def)
    have "length es = 2"
    proof (rule ccontr)
      assume "length es \<noteq> 2"
      with es(1) have l: "3 \<le> length es" by simp
      have "length A + length es - 3 = length A + (length es - 3)" using l by simp
      then have "?t ! (?n - 3) = map digit_char es ! (length es - 3)"
        unfolding A by (simp del: nth_map)
      then have "?t ! (?n - 3) = digit_char (es ! (length es - 3))" using l by simp
      moreover have "es ! (length es - 3) \<in> set es" using l by (intro nth_mem) simp
      ultimately show False using True es(2) digit_char_neq_sign by fastforce
    qed
    then obtain z x where zx: "es = [z, x]" by (auto simp: length_Suc_conv numeral_2_eq_2)
    have "z = 0" using True es(2) unfolding A zx by (simp add: nth_append digit_char_eq_0)
    moreover have "take (?n - 2) ?t @ [?t ! (?n - 1)] = A @ map digit_char [x]"
      unfolding A zx by (simp add: nth_append)
    ultimately show ?thesis
      using j True es zx A' by (intro exI [of _ "[x]"]) (auto simp: number_text_def)
  qed
qed

text \<open>A number the encoder wrote decodes to itself.\<close>

theorem parse_float_json_number:
  assumes "wf_num ds dp"
  shows "parse_float (json_number neg ds dp) = Some (GNum neg ds dp)"
proof (cases "ds \<noteq> [] \<and> (dp \<le> -6 \<or> dp \<ge> 22)")
  case False
  obtain ip fp where T: "json_number neg ds dp = number_text neg ip fp []" "digits_ok ip" "digits_ok fp"
    "ip \<noteq> []" "hd ip = 0 \<longrightarrow> length ip = 1" "trim_decimal (ip @ fp) (int (length ip)) = (ds, dp)"
    using json_number_plain [OF assms False] by blast
  show ?thesis
    unfolding T(1) by (rule parse_float_number_text [where e = 0]) (use T assms in \<open>simp_all add: num_exponent_def\<close>)
next
  case True
  let ?sg = "if dp - 1 < 0 then ''-'' else ''+''"
  obtain es where es: "es \<noteq> []" "digits_ok es" "of_digits es = \<bar>dp - 1\<bar>"
    and t: "json_number neg ds dp = number_text neg [hd ds] (tl ds) (''e'' @ ?sg @ map digit_char es)"
    using json_number_exponent [OF assms] True by blast
  have e: "num_exponent (''e'' @ ?sg @ map digit_char es) = Some (dp - 1)"
    using num_exponent_text [OF es(2,1)] es(3) by auto
  have d: "digits_ok ds" "hd ds \<noteq> 0" "last ds \<noteq> 0"
    using assms True by (auto simp: wf_num_def list_all_iff)
  have "trim_decimal ([hd ds] @ tl ds) (int (length [hd ds]) + (dp - 1)) = (ds, dp)"
    using trim_padded [of ds 0 0 dp] True d by simp
  moreover have "digits_ok [hd ds]" "digits_ok (tl ds)"
    using True d(1) by (auto dest: list.set_sel)
  ultimately show ?thesis
    unfolding t using e assms by (intro parse_float_number_text [where e = "dp - 1"]) simp_all
qed

section \<open>Tokens\<close>

lemma num_chars: "0 \<le> d \<Longrightarrow> d < 10 \<Longrightarrow> is_num_char (digit_char d)"
  "is_num_char CHR ''.''" "is_num_char CHR ''e''" "is_num_char CHR ''-''" "is_num_char CHR ''+''"
  by (simp_all add: is_num_char_def is_digit_digit_char)

lemma number_text_chars:
  assumes "digits_ok ip" "digits_ok fp" "digits_ok es" "ip \<noteq> []"
    "x = [] \<or> x = ''e'' @ ''-'' @ map digit_char es \<or> x = ''e'' @ ''+'' @ map digit_char es"
  shows "list_all is_num_char (number_text neg ip fp x)"
    "\<exists>c r. number_text neg ip fp x = c # r \<and> (is_digit c \<or> c = CHR ''-'')"
proof -
  have d: "list_all is_num_char (map digit_char ds)" if "digits_ok ds" for ds
    using that by (auto simp: list_all_iff num_chars)
  then have "list_all is_num_char x" using assms(3,5) by (auto simp: num_chars)
  then show "list_all is_num_char (number_text neg ip fp x)"
    using d assms(1,2) by (simp add: number_text_def num_chars)
  show "\<exists>c r. number_text neg ip fp x = c # r \<and> (is_digit c \<or> c = CHR ''-'')"
    using assms(1,4) by (cases ip; cases neg) (auto simp: number_text_def is_digit_digit_char)
qed

lemma json_number_chars:
  assumes "wf_num ds dp"
  shows "list_all is_num_char (json_number neg ds dp)
    \<and> (\<exists>c r. json_number neg ds dp = c # r \<and> (is_digit c \<or> c = CHR ''-''))"
proof (cases "ds \<noteq> [] \<and> (dp \<le> -6 \<or> dp \<ge> 22)")
  case False
  then obtain ip fp where "json_number neg ds dp = number_text neg ip fp []" "digits_ok ip" "digits_ok fp" "ip \<noteq> []"
    using json_number_plain [OF assms False] by blast
  then show ?thesis using number_text_chars [of ip fp "[]" "[]"] by simp
next
  case True
  then obtain es where "digits_ok es" and
    t: "json_number neg ds dp = number_text neg [hd ds] (tl ds) (''e'' @ (if dp - 1 < 0 then ''-'' else ''+'') @ map digit_char es)"
    using json_number_exponent [OF assms] by blast
  moreover have "digits_ok [hd ds]" "digits_ok (tl ds)"
    using True wf_num_digits [OF assms] by (auto dest: list.set_sel)
  ultimately show ?thesis unfolding t by (intro conjI number_text_chars) auto
qed

definition delimited :: "string \<Rightarrow> bool" where
  "delimited rest = (rest = [] \<or> \<not> is_num_char (hd rest))"

lemma delimited_puncts [simp]:
  "delimited []" "delimited (CHR '','' # r)" "delimited (CHR '']'' # r)" "delimited (CHR ''}'' # r)"
proof -
  have "\<not> is_num_char CHR '',''" "\<not> is_num_char CHR '']''" "\<not> is_num_char CHR ''}''" by code_simp+
  then show "delimited []" "delimited (CHR '','' # r)" "delimited (CHR '']'' # r)" "delimited (CHR ''}'' # r)"
    by (simp_all add: delimited_def)
qed

lemma start_chars:
  "is_digit c \<or> c = CHR ''-'' \<Longrightarrow> \<not> is_space c \<and> punct c = None \<and> c \<noteq> CHR 0x22"
proof -
  assume a: "is_digit c \<or> c = CHR ''-''"
  let ?others = "''{}[]:, '' @ [CHR 0x22, CHR 0x09, CHR 0x0A, CHR 0x0D]"
  have "\<forall>d \<in> set ?others. \<not> (is_digit d \<or> d = CHR ''-'')" by code_simp
  with a have "c \<notin> set ?others" by blast
  then show ?thesis by (auto simp: is_space_def punct_def)
qed

lemma next_number:
  assumes "wf_num ds dp" and "delimited rest"
  shows "next_token (json_number neg ds dp @ rest) = LTok (TNum (json_number neg ds dp)) rest"
proof -
  let ?t = "json_number neg ds dp"
  obtain c r where t: "?t = c # r" and c: "is_digit c \<or> c = CHR ''-''" and all: "list_all is_num_char ?t"
    using json_number_chars [OF assms(1)] by blast
  have tw: "takeWhile is_num_char (?t @ rest) = ?t" "dropWhile is_num_char (?t @ rest) = rest"
  proof -
    have "takeWhile is_num_char (u @ rest) = u \<and> dropWhile is_num_char (u @ rest) = rest"
      if "list_all is_num_char u" for u
      using that assms(2) by (induction u) (cases rest; auto simp: delimited_def)+
    then show "takeWhile is_num_char (?t @ rest) = ?t" "dropWhile is_num_char (?t @ rest) = rest"
      using all by blast+
  qed
  have "num_parts ?t \<noteq> None"
    using parse_float_json_number [OF assms(1), of neg] by (auto simp: parse_float_def split: option.splits)
  then have "lex_number (?t @ rest) = LTok (TNum ?t) rest" by (simp add: lex_number_def tw Let_def)
  moreover have "next_token (?t @ rest) = lex_number (?t @ rest)"
    unfolding t next_token_def lex_token_def using start_chars [OF c] c by simp
  ultimately show ?thesis by simp
qed

lemma next_string:
  assumes "valid_utf8 s"
  shows "next_token (json_string s @ rest) = LTok (TStr s) rest"
proof -
  have "punct CHR 0x22 = None" "\<not> is_space CHR 0x22" by code_simp+
  then show ?thesis
    using lex_string_body [OF assms, of rest] by (simp add: json_string_def next_token_def lex_token_def)
qed

lemma next_punct:
  "next_token (CHR ''{'' # s) = LTok TLBrace s" "next_token (CHR ''}'' # s) = LTok TRBrace s"
  "next_token (CHR ''['' # s) = LTok TLBrack s" "next_token (CHR '']'' # s) = LTok TRBrack s"
  "next_token (CHR '':'' # s) = LTok TColon s" "next_token (CHR '','' # s) = LTok TComma s"
  by (simp_all add: next_token_def lex_token_def punct_def is_space_def)

lemma next_word:
  "next_token (''null'' @ s) = LTok TNull s" "next_token (''true'' @ s) = LTok (TBool True) s"
  "next_token (''false'' @ s) = LTok (TBool False) s"
proof -
  have c: "punct CHR ''n'' = None \<and> \<not> is_space CHR ''n'' \<and> \<not> is_digit CHR ''n''"
    "punct CHR ''t'' = None \<and> \<not> is_space CHR ''t'' \<and> \<not> is_digit CHR ''t''"
    "punct CHR ''f'' = None \<and> \<not> is_space CHR ''f'' \<and> \<not> is_digit CHR ''f''" by code_simp+
  show "next_token (''null'' @ s) = LTok TNull s" "next_token (''true'' @ s) = LTok (TBool True) s"
    "next_token (''false'' @ s) = LTok (TBool False) s"
    using c by (simp_all add: next_token_def lex_token_def lex_word_def)
qed

section \<open>Values\<close>

text \<open>
  \<open>reads d t j\<close>: wherever a value may begin and \<open>d\<close> more levels may be opened, the scanner
  reads the text \<open>t\<close> as the value \<open>j\<close>.
\<close>

definition reads :: "nat \<Rightarrow> string \<Rightarrow> jval \<Rightarrow> bool" where
  "reads d t j = (\<forall>p stk rest. p \<in> {P_Value, P_First} \<longrightarrow> length stk + d \<le> 10000 \<longrightarrow> delimited rest \<longrightarrow>
     parse_from (t @ rest) (p, stk) = parse_from rest (P_After j, stk))"

lemma readsD:
  "reads d t j \<Longrightarrow> p \<in> {P_Value, P_First} \<Longrightarrow> length stk + d \<le> 10000 \<Longrightarrow> delimited rest \<Longrightarrow>
     parse_from (t @ rest) (p, stk) = parse_from rest (P_After j, stk)"
  unfolding reads_def by blast

lemma parse_token:
  "next_token s = LTok t r \<Longrightarrow> parse_from s st
     = (case scan_step t st of None \<Rightarrow> None | Some st' \<Rightarrow> parse_from r st')"
  by (subst parse_from.simps) simp

lemma scan_value:
  "p \<in> {P_Value, P_First} \<Longrightarrow> t \<noteq> TRBrack \<Longrightarrow> scan_step t (p, stk) = begin_value t stk"
  by (auto simp: scan_step_def)

lemma reads_scalar:
  assumes "\<And>rest. delimited rest \<Longrightarrow> next_token (t @ rest) = LTok k rest" and "k \<noteq> TRBrack"
    and "\<And>stk. begin_value k stk = Some (P_After j, stk)"
  shows "reads d t j"
  unfolding reads_def
proof (intro allI impI)
  fix p stk rest
  assume "p \<in> {P_Value, P_First}" "delimited rest"
  then show "parse_from (t @ rest) (p, stk) = parse_from rest (P_After j, stk)"
    using parse_token [OF assms(1), of rest "(p, stk)"] scan_value [of p k stk] assms(2,3) by simp
qed

lemma reads_mono: "reads d t j \<Longrightarrow> d \<le> d' \<Longrightarrow> reads d' t j"
  unfolding reads_def by (meson add_le_mono le_trans order_refl)

lemmas reads_null = reads_scalar [of "''null''" TNull JNull, OF next_word(1)]

lemma reads_string: "valid_utf8 s \<Longrightarrow> reads d (json_string s) (JStr s)"
  by (rule reads_scalar [where k = "TStr s"]) (simp_all add: next_string)

text \<open>The elements of an array, from the first on.\<close>

lemma parse_elements:
  assumes "list_all2 (reads d) ts js" and "ts \<noteq> []" and "p \<in> {P_Value, P_First}"
    and "length stk + Suc d \<le> 10000"
  shows "parse_from (join '','' ts @ CHR '']'' # rest) (p, F_Arr vs # stk)
    = parse_from rest (P_After (JArr (vs @ js)), stk)"
  using assms
proof (induction ts js arbitrary: p vs rule: list_all2_induct)
  case (Cons t ts j js)
  have l: "length (F_Arr vs # stk) + d \<le> 10000" using Cons.prems by simp
  show ?case
  proof (cases ts)
    case Nil
    with Cons.hyps(2) have "js = []" by simp
    have "parse_from (t @ CHR '']'' # rest) (p, F_Arr vs # stk)
        = parse_from (CHR '']'' # rest) (P_After j, F_Arr vs # stk)"
      using readsD [OF Cons.hyps(1) Cons.prems(2) l] by simp
    also have "\<dots> = parse_from rest (P_After (JArr (vs @ [j])), stk)"
      using parse_token [OF next_punct(4)] by (simp add: scan_step_def after_value_def)
    finally show ?thesis using Nil \<open>js = []\<close> by simp
  next
    case (Cons t' ts')
    let ?r = "join '','' ts @ CHR '']'' # rest"
    have "parse_from (t @ CHR '','' # ?r) (p, F_Arr vs # stk) = parse_from (CHR '','' # ?r) (P_After j, F_Arr vs # stk)"
      using readsD [OF Cons.hyps(1) Cons.prems(2) l] by simp
    also have "\<dots> = parse_from ?r (P_Value, F_Arr (vs @ [j]) # stk)"
      using parse_token [OF next_punct(6)] by (simp add: scan_step_def after_value_def)
    also have "\<dots> = parse_from rest (P_After (JArr ((vs @ [j]) @ js)), stk)"
      using Cons Cons.prems by (intro Cons.IH) simp_all
    finally show ?thesis using Cons by simp
  qed
qed simp

lemma reads_array:
  assumes "list_all2 (reads d) ts js"
  shows "reads (Suc d) (json_array ts) (JArr js)"
  unfolding reads_def
proof (intro allI impI)
  fix p and stk :: "frame list" and rest
  assume p: "p \<in> {P_Value, P_First}" and l: "length stk + Suc d \<le> 10000"
  let ?r = "join '','' ts @ CHR '']'' # rest"
  have "parse_from (json_array ts @ rest) (p, stk) = parse_from ?r (P_First, F_Arr [] # stk)"
    using parse_token [OF next_punct(3), of ?r "(p, stk)"] scan_value [OF p, of TLBrack stk] l
    by (simp add: json_array_def open_frame_def)
  also have "\<dots> = parse_from rest (P_After (JArr js), stk)"
  proof (cases ts)
    case Nil
    with assms show ?thesis using parse_token [OF next_punct(4)] by (simp add: scan_step_def)
  next
    case (Cons t ts')
    then show ?thesis using parse_elements [OF assms _ _ l, of P_First rest "[]"] by simp
  qed
  finally show "parse_from (json_array ts @ rest) (p, stk) = parse_from rest (P_After (JArr js), stk)" .
qed

text \<open>The members of an object.\<close>

definition reads_member :: "nat \<Rightarrow> string \<times> string \<Rightarrow> string \<times> jval \<Rightarrow> bool" where
  "reads_member d f m = (fst m = fst f \<and> valid_utf8 (fst f) \<and> reads d (snd f) (snd m))"

lemma parse_members:
  assumes "list_all2 (reads_member d) fs ms" and "fs \<noteq> []" and "p \<in> {P_Key, P_Members}"
    and "length stk + Suc d \<le> 10000"
  shows "parse_from (join '','' (map (\<lambda>(k, t). json_string k @ '':'' @ t) fs) @ CHR ''}'' # rest) (p, F_Obj xs # stk)
    = parse_from rest (P_After (JObj (xs @ ms)), stk)"
  using assms
proof (induction fs ms arbitrary: p xs rule: list_all2_induct)
  case (Cons f fs m ms)
  obtain k t where f: "f = (k, t)" by fastforce
  then obtain j where m: "m = (k, j)" and v: "valid_utf8 k" and rd: "reads d t j"
    using Cons.hyps(1) by (cases m) (auto simp: reads_member_def)
  have l: "length (F_Key xs k # stk) + d \<le> 10000" using Cons.prems by simp
  have key: "parse_from (json_string k @ '':'' @ t @ r) (p, F_Obj xs # stk) = parse_from r (P_After j, F_Key xs k # stk)"
    if "delimited r" for r
  proof -
    have "parse_from (json_string k @ '':'' @ t @ r) (p, F_Obj xs # stk)
        = parse_from (CHR '':'' # t @ r) (P_Colon, F_Key xs k # stk)"
      using parse_token [OF next_string [OF v]] Cons.prems(2) by (auto simp: scan_step_def read_key_def)
    also have "\<dots> = parse_from (t @ r) (P_Value, F_Key xs k # stk)"
      using parse_token [OF next_punct(5)] by (simp add: scan_step_def)
    also have "\<dots> = parse_from r (P_After j, F_Key xs k # stk)"
      by (rule readsD [OF rd _ l that]) simp
    finally show ?thesis .
  qed
  show ?case
  proof (cases fs)
    case Nil
    with Cons.hyps(2) have "ms = []" by simp
    have "parse_from (CHR ''}'' # rest) (P_After j, F_Key xs k # stk) = parse_from rest (P_After (JObj (xs @ [m])), stk)"
      using parse_token [OF next_punct(2)] by (simp add: scan_step_def after_value_def m)
    then show ?thesis using key [of "CHR ''}'' # rest"] Nil \<open>ms = []\<close> by (simp add: f)
  next
    case (Cons f' fs')
    let ?r = "join '','' (map (\<lambda>(k, t). json_string k @ '':'' @ t) fs) @ CHR ''}'' # rest"
    have "parse_from (CHR '','' # ?r) (P_After j, F_Key xs k # stk) = parse_from ?r (P_Key, F_Obj (xs @ [m]) # stk)"
      using parse_token [OF next_punct(6)] by (simp add: scan_step_def after_value_def m)
    also have "\<dots> = parse_from rest (P_After (JObj ((xs @ [m]) @ ms)), stk)"
      using Cons Cons.prems by (intro Cons.IH) simp_all
    finally show ?thesis using key [of "CHR '','' # ?r"] Cons by (simp add: f)
  qed
qed simp

lemma reads_object:
  assumes "list_all2 (reads_member d) fs ms"
  shows "reads (Suc d) (json_object fs) (JObj ms)"
  unfolding reads_def
proof (intro allI impI)
  fix p and stk :: "frame list" and rest
  assume p: "p \<in> {P_Value, P_First}" and l: "length stk + Suc d \<le> 10000"
  let ?r = "join '','' (map (\<lambda>(k, t). json_string k @ '':'' @ t) fs) @ CHR ''}'' # rest"
  have "parse_from (json_object fs @ rest) (p, stk) = parse_from ?r (P_Members, F_Obj [] # stk)"
    using parse_token [OF next_punct(1), of ?r "(p, stk)"] scan_value [OF p, of TLBrace stk] l
    by (simp add: json_object_def open_frame_def)
  also have "\<dots> = parse_from rest (P_After (JObj ms), stk)"
  proof (cases fs)
    case Nil
    with assms show ?thesis using parse_token [OF next_punct(2)] by (simp add: scan_step_def)
  next
    case (Cons f fs')
    then show ?thesis using parse_members [OF assms _ _ l, of P_Members rest "[]"] by simp
  qed
  finally show "parse_from (json_object fs @ rest) (p, stk) = parse_from rest (P_After (JObj ms), stk)" .
qed

lemma json_parse_reads: "reads d t j \<Longrightarrow> d \<le> 10000 \<Longrightarrow> json_parse t = Some j"
proof -
  assume "reads d t j" "d \<le> 10000"
  then have "parse_from (t @ []) (P_Value, []) = parse_from [] (P_After j, [])"
    by (intro readsD) simp_all
  then show ?thesis
    by (simp add: json_parse_def parse_from.simps [of "[]"] next_token_def lex_token_def)
qed

section \<open>Decoding what was encoded\<close>

text \<open>
  The values that survive: decoded numbers, valid UTF-8 and maps with distinct keys. The encoder
  sorts the keys of maps.
\<close>

fun wf_json :: "gval \<Rightarrow> bool" where
  "wf_json (GNum neg ds dp) = wf_num ds dp"
| "wf_json (GStr s) = valid_utf8 s"
| "wf_json (GList vs) = list_all wf_json vs"
| "wf_json (GMap m) = (wf_map m \<and> list_all (\<lambda>(k, v). valid_utf8 k \<and> wf_json v) m)"
| "wf_json v = True"

fun nesting :: "gval \<Rightarrow> nat" where
  "nesting (GList vs) = Suc (foldr max (map nesting vs) 0)"
| "nesting (GMap m) = Suc (foldr max (map (\<lambda>(k, v). nesting v) m) 0)"
| "nesting v = 0"

fun sort_maps :: "gval \<Rightarrow> gval" where
  "sort_maps (GList vs) = GList (map sort_maps vs)"
| "sort_maps (GMap m) = GMap (sort_key fst (map (\<lambda>(k, v). (k, sort_maps v)) m))"
| "sort_maps v = v"

text \<open>The JSON value of a value.\<close>

fun json_tree :: "gval \<Rightarrow> jval" where
  "json_tree GNil = JNull"
| "json_tree (GBool b) = JBool b"
| "json_tree (GNum neg ds dp) = JNum (json_number neg ds dp)"
| "json_tree (GStr s) = JStr s"
| "json_tree (GList vs) = JArr (map json_tree vs)"
| "json_tree (GMap m) = JObj (sort_key fst (map (\<lambda>(k, v). (k, json_tree v)) m))"

lemma foldr_max_ge: "x \<in> set xs \<Longrightarrow> x \<le> foldr max xs (0::nat)"
  by (induction xs) auto

text \<open>Sorting by key commutes with what is done to the values.\<close>

lemma sort_key_entries:
  "sort_key fst (map (\<lambda>(k, v). (k, f v)) m) = map (\<lambda>(k, v). (k, f v)) (sort_key fst m)"
  unfolding split_beta
proof (induction m)
  case (Cons e m)
  have "insort_key fst (fst e, f (snd e)) (map (\<lambda>e. (fst e, f (snd e))) xs)
      = map (\<lambda>e. (fst e, f (snd e))) (insort_key fst e xs)" for xs
    by (induction xs) auto
  with Cons show ?case by simp
qed simp

lemma list_all2_same: "(\<And>x. x \<in> set xs \<Longrightarrow> P (f x) (g x)) \<Longrightarrow> list_all2 P (map f xs) (map g xs)"
  by (induction xs) auto

lemma reads_json_value: "wf_json v \<Longrightarrow> reads (nesting v) (json_value v) (json_tree v)"
proof (induction v rule: json_value.induct)
  case 1
  then show ?case using reads_null by simp
next
  case (2 b)
  then show ?case
    unfolding json_value.simps json_tree.simps
    by (intro reads_scalar [where k = "TBool b"]) (cases b, simp_all only: if_True if_False next_word begin_value.simps json_token.distinct not_False_eq_True)
next
  case (3 neg ds dp)
  then have "wf_num ds dp" by simp
  from next_number [OF this] show ?case
    unfolding json_value.simps json_tree.simps by (rule reads_scalar) simp_all
next
  case (4 s)
  then show ?case by (simp add: reads_string)
next
  case (5 vs)
  let ?d = "foldr max (map nesting vs) 0"
  have "reads ?d (json_value v) (json_tree v)" if "v \<in> set vs" for v
  proof (rule reads_mono)
    show "reads (nesting v) (json_value v) (json_tree v)"
      using 5(2) that by (intro 5(1)) (simp_all add: list_all_iff)
    show "nesting v \<le> ?d" using that by (intro foldr_max_ge) simp
  qed
  then have "list_all2 (reads ?d) (map json_value vs) (map json_tree vs)" by (rule list_all2_same)
  then show ?case using reads_array by simp
next
  case (6 m)
  let ?d = "foldr max (map (\<lambda>(k, v). nesting v) m) 0"
  have "reads ?d (json_value v) (json_tree v) \<and> valid_utf8 k" if "(k, v) \<in> set m" for k v
  proof -
    have "nesting v \<in> set (map (\<lambda>(k, v). nesting v) m)" using that by force
    then have "nesting v \<le> ?d" by (rule foldr_max_ge)
    moreover have "wf_json v" "valid_utf8 k" using 6(2) that by (auto simp: list_all_iff)
    ultimately show ?thesis using 6(1) [OF that refl] reads_mono by blast
  qed
  then have "list_all2 (reads_member ?d) (map (\<lambda>(k, v). (k, json_value v)) (sort_key fst m))
      (map (\<lambda>(k, v). (k, json_tree v)) (sort_key fst m))"
    by (intro list_all2_same) (auto simp: reads_member_def)
  then have "reads (Suc ?d) (json_object (map (\<lambda>(k, v). (k, json_value v)) (sort_key fst m)))
      (JObj (map (\<lambda>(k, v). (k, json_tree v)) (sort_key fst m)))"
    by (rule reads_object)
  then show ?case by (simp only: json_value.simps json_tree.simps nesting.simps sort_key_entries)
qed

text \<open>Filling a map with entries that have distinct keys lists them in order.\<close>

lemma update_absent: "k \<notin> fst ` set m \<Longrightarrow> AList.update k v m = m @ [(k, v)]"
  by (induction m) auto

lemma fold_update_distinct:
  "distinct (map fst ms) \<Longrightarrow> fst ` set ms \<inter> fst ` set m = {} \<Longrightarrow>
     fold (\<lambda>(k, v). AList.update k (f v)) ms m = m @ map (\<lambda>(k, v). (k, f v)) ms"
proof (induction ms arbitrary: m)
  case (Cons e ms)
  then have "AList.update (fst e) (f (snd e)) m = m @ [(fst e, f (snd e))]"
    by (intro update_absent) auto
  with Cons show ?case by (auto simp: split_beta)
qed simp

lemma distinct_sort_key_fst: "wf_map m \<Longrightarrow> distinct (map fst (sort_key fst m))"
  unfolding wf_map_def keys_def
  by (metis distinct_map distinct_sort set_sort)

lemma to_iface_json_tree: "wf_json v \<Longrightarrow> to_iface (json_tree v) = (sort_maps v, True)"
proof (induction v rule: json_value.induct)
  case (3 neg ds dp)
  then show ?case by (simp add: parse_float_json_number)
next
  case (5 vs)
  then show ?case by (auto simp: list_all_iff)
next
  case (6 m)
  let ?ms = "map (\<lambda>(k, v). (k, json_tree v)) (sort_key fst m)"
  have d: "distinct (map fst ?ms)"
    using distinct_sort_key_fst [of m] 6(2) by (simp add: comp_def split_beta)
  have e: "to_iface (json_tree (snd e)) = (sort_maps (snd e), True)" if "e \<in> set m" for e
    using that 6(1) [of e "fst e" "snd e"] 6(2) by (auto simp: list_all_iff)
  have "map (\<lambda>(k, v). (k, fst (to_iface v))) ?ms = map (\<lambda>(k, v). (k, sort_maps v)) (sort_key fst m)"
    "list_all (\<lambda>(k, v). snd (to_iface v)) ?ms"
    by (auto simp: list_all_iff split_beta e)
  with fold_update_distinct [OF d, of "[]" "\<lambda>v. fst (to_iface v)"] show ?case
    by (simp only: json_tree.simps to_iface.simps sort_maps.simps sort_key_entries) simp
qed simp_all

theorem unmarshal_marshal:
  assumes "wf_json v" and "nesting v \<le> 10000"
  shows "unmarshal dec_iface (json_value v) g = (sort_maps v, True)"
  using json_parse_reads [OF reads_json_value [OF assms(1)] assms(2)] to_iface_json_tree [OF assms(1)]
  by (simp add: unmarshal_def dec_iface_def)

end
