(* ===== verification/EnvRoundtrip.thy ===== *)
theory EnvRoundtrip
  imports Client JsonRoundtrip
begin

text \<open>
  The services map as JSON and back: what \<open>json.Marshal\<close> writes for \<open>VCAP_SERVICES\<close>, a program
  that decodes it into the same types finds again.
\<close>

section \<open>Services that survive\<close>

definition wf_service :: "vcap_service option \<Rightarrow> bool" where
  "wf_service msi =
     (case msi of
        None \<Rightarrow> True
      | Some si \<Rightarrow> valid_utf8 (vsName si) \<and> valid_utf8 (vsInstanceName si)
          \<and> (case vsCredentials si of None \<Rightarrow> True | Some c \<Rightarrow> wf_json (GMap c) \<and> nesting (GMap c) \<le> 9990))"

definition wf_services :: "vcap_services \<Rightarrow> bool" where
  "wf_services m = (wf_map m \<and> list_all (\<lambda>(k, sis). valid_utf8 k \<and> list_all wf_service sis) m)"

text \<open>The same services with every map in the order of its keys.\<close>

definition sort_creds :: "creds \<Rightarrow> creds" where
  "sort_creds c = sort_key fst (map (\<lambda>(k, v). (k, sort_maps v)) c)"

definition sort_service :: "vcap_service option \<Rightarrow> vcap_service option" where
  "sort_service = map_option (\<lambda>si. si\<lparr>vsCredentials := map_option sort_creds (vsCredentials si)\<rparr>)"

definition sort_services :: "vcap_services \<Rightarrow> vcap_services" where
  "sort_services m = sort_key fst (map (\<lambda>(k, sis). (k, map sort_service sis)) m)"

text \<open>Sorting changes no lookup.\<close>

lemma map_of_sort_key: "wf_map m \<Longrightarrow> map_of (sort_key fst m) = map_of m"
  by (rule map_of_mset_eq [symmetric]) simp_all

lemma map_of_sort_services:
  assumes "wf_map m"
  shows "map_of (sort_services m) k = map_option (map sort_service) (map_of m k)"
proof -
  have "wf_map (map (\<lambda>(k, sis). (k, map sort_service sis)) m)"
    using assms by (simp add: wf_map_def keys_def comp_def split_beta)
  then show ?thesis by (simp add: sort_services_def map_of_sort_key map_of_map)
qed

section \<open>Struct fields\<close>

text \<open>The trees of the JSON texts.\<close>

definition service_tree :: "vcap_service option \<Rightarrow> jval" where
  "service_tree msi =
     (case msi of
        None \<Rightarrow> JNull
      | Some si \<Rightarrow> JObj
          [(''name'', JStr (vsName si)),
           (''credentials'', case vsCredentials si of None \<Rightarrow> JNull | Some c \<Rightarrow> json_tree (GMap c)),
           (''instance_name'', JStr (vsInstanceName si))])"

definition services_tree :: "vcap_services \<Rightarrow> jval" where
  "services_tree m = JObj (sort_key fst (map (\<lambda>(k, sis). (k, JArr (map service_tree sis))) m))"

lemma valid_field_names:
  "valid_utf8 ''name''" "valid_utf8 ''credentials''" "valid_utf8 ''instance_name''"
  by code_simp+

lemma reads_service:
  assumes "wf_service msi"
  shows "reads 9991 (vcap_service_json msi) (service_tree msi)"
proof (cases msi)
  case None
  then show ?thesis using reads_null by (simp add: vcap_service_json_def service_tree_def)
next
  case (Some si)
  let ?c = "case vsCredentials si of None \<Rightarrow> ''null'' | Some c \<Rightarrow> json_value (GMap c)"
  have "reads 9990 ?c (case vsCredentials si of None \<Rightarrow> JNull | Some c \<Rightarrow> json_tree (GMap c))"
    using assms Some reads_null reads_mono [OF reads_json_value]
    by (auto simp: wf_service_def simp del: json_value.simps json_tree.simps wf_json.simps nesting.simps
        split: option.split)
  then have "reads (Suc 9990) (vcap_service_json (Some si)) (service_tree (Some si))"
    using assms Some unfolding vcap_service_json_def service_tree_def option.case
    by (intro reads_object) (simp add: reads_member_def reads_string valid_field_names wf_service_def)
  then show ?thesis using Some by simp
qed

lemma reads_services:
  assumes "wf_services m"
  shows "reads 9993 (vcap_json (Some m)) (services_tree m)"
proof -
  have "reads (Suc 9991) (json_array (map vcap_service_json sis)) (JArr (map service_tree sis)) \<and> valid_utf8 k"
    if "(k, sis) \<in> set m" for k sis
    using assms that
    by (intro conjI reads_array list_all2_same reads_service) (auto simp: wf_services_def list_all_iff)
  then have "list_all2 (reads_member 9992)
      (map (\<lambda>(k, sis). (k, json_array (map vcap_service_json sis))) (sort_key fst m))
      (map (\<lambda>(k, sis). (k, JArr (map service_tree sis))) (sort_key fst m))"
    by (intro list_all2_same) (auto simp: reads_member_def)
  then have "reads (Suc 9992) (json_object (map (\<lambda>(k, sis). (k, json_array (map vcap_service_json sis))) (sort_key fst m)))
      (JObj (map (\<lambda>(k, sis). (k, JArr (map service_tree sis))) (sort_key fst m)))"
    by (rule reads_object)
  then show ?thesis by (simp add: vcap_json_def services_tree_def sort_key_entries)
qed

section \<open>Decoding\<close>

lemma dec_members_distinct:
  assumes "distinct (map fst ms)" and "fst ` set ms \<inter> fst ` set m = {}"
    and "\<And>k v. (k, v) \<in> set ms \<Longrightarrow> dec v zero = (f v, True)"
  shows "dec_members dec zero ms m = (m @ map (\<lambda>(k, v). (k, f v)) ms, True)"
  using assms
proof (induction ms arbitrary: m)
  case (Cons e ms)
  obtain k v where e: "e = (k, v)" by fastforce
  have "AList.update k (f v) m = m @ [(k, f v)]"
    using Cons.prems(2) by (intro update_absent) (auto simp: e)
  moreover have "dec_members dec zero ms (m @ [(k, f v)]) = ((m @ [(k, f v)]) @ map (\<lambda>(k, v). (k, f v)) ms, True)"
    using Cons.prems by (intro Cons.IH) (auto simp: e)
  ultimately show ?case using Cons.prems(3) [of k v] by (simp add: e)
qed simp

lemma field_folds:
  "equal_fold ''name'' ''name''" "equal_fold ''credentials'' ''credentials''"
  "equal_fold ''instance_name'' ''instance_name''" "\<not> equal_fold ''credentials'' ''name''"
  "\<not> equal_fold ''instance_name'' ''name''" "\<not> equal_fold ''instance_name'' ''credentials''"
  by code_simp+

lemma dec_creds_tree:
  assumes "wf_json (GMap c)"
  shows "dec_creds (json_tree (GMap c)) None = (Some (sort_creds c), True)"
proof -
  let ?ms = "map (\<lambda>(k, v). (k, json_tree v)) (sort_key fst c)"
  have "distinct (map fst ?ms)"
    using distinct_sort_key_fst [of c] assms by (simp add: comp_def split_beta)
  moreover have "dec_iface v GNil = (fst (to_iface v), True)" if "(k, v) \<in> set ?ms" for k v
    using that assms by (auto simp: dec_iface_def list_all_iff to_iface_json_tree)
  ultimately have "dec_members dec_iface GNil ?ms [] = (map (\<lambda>(k, v). (k, fst (to_iface v))) ?ms, True)"
    using dec_members_distinct [of ?ms "[]" dec_iface GNil "\<lambda>v. fst (to_iface v)"] by simp
  moreover have "map (\<lambda>(k, v). (k, fst (to_iface v))) ?ms = map (\<lambda>(k, v). (k, sort_maps v)) (sort_key fst c)"
    using assms by (auto simp: list_all_iff to_iface_json_tree)
  ultimately show ?thesis
    by (simp add: dec_creds_def dec_map_def sort_creds_def sort_key_entries)
qed

lemma dec_service_tree:
  assumes "wf_service msi"
  shows "dec_ptr dec_service zero_service (service_tree msi) None = (sort_service msi, True)"
proof (cases msi)
  case None
  then show ?thesis by (simp add: dec_ptr_def service_tree_def sort_service_def)
next
  case (Some si)
  let ?c = "case vsCredentials si of None \<Rightarrow> JNull | Some c \<Rightarrow> json_tree (GMap c)"
  have "dec_creds ?c None = (map_option sort_creds (vsCredentials si), True)"
  proof (cases "vsCredentials si")
    case None
    then show ?thesis by (simp add: dec_creds_def dec_map_def)
  next
    case (Some c)
    then have "wf_json (GMap c)" using assms \<open>msi = Some si\<close> by (simp add: wf_service_def)
    with Some show ?thesis using dec_creds_tree by simp
  qed
  then show ?thesis
    using Some field_folds
    by (simp add: dec_ptr_def service_tree_def dec_service_def dec_struct_def on_field_def dec_string_def
        zero_service_def sort_service_def)
qed

lemma dec_services_tree:
  assumes "wf_services m"
  shows "dec_services (services_tree m) None = (Some (sort_services m), True)"
proof -
  let ?ms = "map (\<lambda>(k, sis). (k, JArr (map service_tree sis))) (sort_key fst m)"
  let ?dec = "dec_slice (dec_ptr dec_service zero_service) None"
  let ?f = "\<lambda>v. fst (?dec v [])"
  have one: "?dec (JArr (map service_tree sis)) [] = (map sort_service sis, True)" if "(k, sis) \<in> set m" for k sis
    using that assms by (auto simp: dec_slice_def dec_service_tree wf_services_def list_all_iff)
  have "distinct (map fst ?ms)"
    using distinct_sort_key_fst [of m] assms by (simp add: wf_services_def comp_def split_beta)
  moreover have "?dec v [] = (?f v, True)" if "(k, v) \<in> set ?ms" for k v
    using that one by (auto simp: prod_eq_iff)
  ultimately have "dec_members ?dec [] ?ms [] = (map (\<lambda>(k, v). (k, ?f v)) ?ms, True)"
    using dec_members_distinct [of ?ms "[]" ?dec "[]" ?f] by simp
  moreover have "map (\<lambda>(k, v). (k, ?f v)) ?ms = map (\<lambda>(k, sis). (k, map sort_service sis)) (sort_key fst m)"
    using one by (auto simp: split_beta)
  ultimately show ?thesis
    by (simp add: dec_services_def dec_map_def services_tree_def sort_services_def sort_key_entries)
qed

lemma unmarshal_vcap_json:
  "wf_services m \<Longrightarrow> unmarshal dec_services (vcap_json (Some m)) None = (Some (sort_services m), True)"
  using json_parse_reads [OF reads_services] dec_services_tree by (simp add: unmarshal_def)

text \<open>A text that is not JSON, or holds no \<open>system_env_json\<close>, leaves the environment nil.\<close>

lemma unmarshal_no_json:
  "json_parse body = None \<Longrightarrow> fst (unmarshal dec_env body \<lparr>systemEnv = None\<rparr>) = \<lparr>systemEnv = None\<rparr>"
  by (simp add: unmarshal_def)

end
