(* ===== verification/BindingProps.thy ===== *)
theory BindingProps
  imports BindingPlan EnvRoundtrip
begin

text \<open>
  The properties of \<open>initServiceBindings\<close>: what it produces when it succeeds, when it must refuse,
  and when it cannot panic.
\<close>

section \<open>From the client's answer to the loop\<close>

definition fetched :: "'c app \<Rightarrow> env \<Rightarrow> 'c \<Rightarrow> 'c app" where
  "fetched a e c = a\<lparr>appStatus := Text [''Fetching environment''] (appStatus a), cfClient := c, appEnv := Some e\<rparr>"

lemma initServiceBindings_run:
  "initServiceBindings api a =
     (case GetAppEnv api (appGUID a) (cfClient a) of
        (Ok e, c) \<Rightarrow> bind_environment (fetched a e c)
      | (Err err, c) \<Rightarrow> (Err err, a\<lparr>appStatus := Text [''Fetching environment''] (appStatus a), cfClient := c\<rparr>)
      | (Panic p, c) \<Rightarrow> (Panic p, a\<lparr>appStatus := Text [''Fetching environment''] (appStatus a), cfClient := c\<rparr>))"
  by (simp add: initServiceBindings_def status_text_def seq_def upd_def with_st_def on_cf_def fetched_def
      split: prod.split outcome.split)

lemma initServiceBindings_okE:
  assumes "initServiceBindings api a = (Ok (), a')"
  obtains e c where "GetAppEnv api (appGUID a) (cfClient a) = (Ok e, c)"
    "bind_environment (fetched a e c) = (Ok (), a')"
  using assms by (auto simp: initServiceBindings_run split: prod.splits outcome.splits)

lemma fetched_simps [simp]:
  "program (fetched a e c) = program a" "nextPort (fetched a e c) = nextPort a"
  "serviceInstanceNames (fetched a e c) = serviceInstanceNames a"
  "serviceProviders (fetched a e c) = serviceProviders a" "runEnv (fetched a e c) = runEnv a"
  "forwardAddrs (fetched a e c) = forwardAddrs a" "appEnv (fetched a e c) = Some e"
  "appName (fetched a e c) = appName a" "mach (fetched a e c) = mach a"
  by (simp_all add: fetched_def)

definition env_services :: "env \<Rightarrow> vcap_services" where
  "env_services e = (case systemEnv e of Some (Some m) \<Rightarrow> m | _ \<Rightarrow> [])"

lemma services_of_fetched [simp]: "services_of (fetched a e c) = env_services e"
  by (simp add: services_of_def env_services_def)

text \<open>The plan for an environment, from what the application asked for.\<close>

definition planned_for :: "'c app \<Rightarrow> env \<Rightarrow> planned list" where
  "planned_for a e = plan (program a) (kinds (serviceProviders a)) (nextPort a)
     (set_of_names (serviceInstanceNames a)) (items (env_services e) (sort (keys (env_services e))))"

lemma bindings_plan_fetched [simp]: "bindings_plan (fetched a e c) = planned_for a e"
  by (simp add: bindings_plan_def planned_for_def)

section \<open>A demonstration environment\<close>

definition demo_env :: env where
  "demo_env = \<lparr>systemEnv = Some (Some
     [(''postgres'', [Some \<lparr>vsName = ''db'',
        vsCredentials = Some [(''host'', GStr ''p.internal''), (''port'', GStr ''5432'')],
        vsInstanceName = ''db''\<rparr>]),
      (''redis'', [Some \<lparr>vsName = ''cache'',
        vsCredentials = Some [(''host'', GStr ''r.internal''), (''port'', GStr ''6379''),
          (''uri'', GStr ''rediss://r.internal:6379'')],
        vsInstanceName = ''cache''\<rparr>])])\<rparr>"

definition demo_providers :: "provider gomap" where
  "demo_providers = [(''mysql'', MySQL \<lparr>workDir = [], myServiceCnt = 0\<rparr>),
     (''postgres'', Postgres \<lparr>pgServiceCnt = 0\<rparr>), (''redis'', Redis), (''influxdb'', InfluxDB)]"

definition demo_app :: "string list \<Rightarrow> string list \<Rightarrow> nat cst app" where
  "demo_app names args = (NewApp (demo_client, 0) (NewStatus True False ''OK'') demo_machine 7080
     ''org'' ''space'' ''app'' True names args (GMap []) False [] 0x0303)
     \<lparr>serviceProviders := demo_providers, appGUID := ''app-guid''\<rparr>"

abbreviation demo_client_api :: "env \<Rightarrow> nat cst client_api" where
  "demo_client_api e \<equiv> client_impl (demo_api e [] [])"

lemma demo_runs:
  "is_ok (fst (initServiceBindings (demo_client_api demo_env) (demo_app [''cache'', ''db''] [''redis-cli''])))"
  by code_simp

lemma demo_decodes:
  "fst (unmarshal dec_env (env_json demo_env) \<lparr>systemEnv = None\<rparr>) = demo_env"
  by code_simp

lemma demo_fetch_of:
  "fst (unmarshal dec_env (env_json e) \<lparr>systemEnv = None\<rparr>) = e \<Longrightarrow>
     \<exists>c. GetAppEnv (demo_client_api e) g (demo_client, 0) = (Ok e, c)"
  by (simp add: client_impl_def client_GetAppEnv_def act_defs demo_api_def)

lemmas demo_fetch = demo_fetch_of [OF demo_decodes]

lemma demo_app_simps [simp]:
  "cfClient (demo_app names args) = (demo_client, 0)" "forwardAddrs (demo_app names args) = []"
  "nextPort (demo_app names args) = 7080" "serviceInstanceNames (demo_app names args) = names"
  "appGUID (demo_app names args) = ''app-guid''"
  "serviceProviders (demo_app names args) = demo_providers"
  by (simp_all add: demo_app_def NewApp_def)

lemma demo_wf: "wf_map (env_services demo_env)"
  by code_simp

lemma demo_ok:
  "\<exists>a'. initServiceBindings (demo_client_api demo_env) (demo_app [''cache'', ''db''] [''redis-cli'']) = (Ok (), a')"
  using demo_runs
  by (cases "initServiceBindings (demo_client_api demo_env) (demo_app [''cache'', ''db''] [''redis-cli''])")
    (auto elim: is_okE)

section \<open>Success\<close>

lemma kept_member:
  "(\<exists>k sis. kept_for k pl = Some sis \<and> Some si \<in> set sis) \<longleftrightarrow> si \<in> plNew ` set pl"
proof
  assume "si \<in> plNew ` set pl"
  then obtain x where x: "x \<in> set pl" "si = plNew x" by blast
  then have "filter (\<lambda>y. plService y = plService x) pl \<noteq> []" by (auto simp: filter_empty_conv)
  then have "kept_for (plService x) pl
      = Some (map (Some \<circ> plNew) (filter (\<lambda>y. plService y = plService x) pl))"
    by (simp add: kept_for_def)
  with x show "\<exists>k sis. kept_for k pl = Some sis \<and> Some si \<in> set sis" by fastforce
qed (auto simp: kept_for_def Let_def split: if_splits)

lemma length_items: "length (items m ks) = (\<Sum>k\<leftarrow>ks. length (instances_of m k))"
  by (induction ks) simp_all

lemma length_items_sort: "length (items m (sort ks)) = length (items m ks)"
proof -
  have "(\<Sum>k\<leftarrow>sort ks. f k) = (\<Sum>k\<leftarrow>ks. f k)" for f :: "string \<Rightarrow> nat"
    by (simp flip: sum_mset_sum_list)
  then show ?thesis by (simp add: length_items)
qed

text \<open>
  Property C6: a successful \<open>initServiceBindings\<close> has carried out the plan for the environment it
  fetched: one forwarding per planned instance in order, the port counter moved behind them, the
  services reduced to the planned instances with their new credentials, and \<open>VCAP_SERVICES\<close> set
  to exactly these services.
\<close>

theorem initServiceBindings_plan:
  assumes "GetAppEnv api (appGUID a) (cfClient a) = (Ok e, c)" and "wf_map (env_services e)"
    and "initServiceBindings api a = (Ok (), a')"
  shows "forwardAddrs a' = forwardAddrs a @ map plForward (planned_for a e)
    \<and> nextPort a' = nextPort a + plan_used (planned_for a e)
    \<and> map_of (services_of a') k = kept_for k (planned_for a e)
    \<and> (\<exists>m. services_of a' = (case m of None \<Rightarrow> [] | Some s \<Rightarrow> s)
          \<and> map_of (runEnv a') ''VCAP_SERVICES'' = Some (vcap_json m))"
proof -
  have b: "bind_environment (fetched a e c) = (Ok (), a')"
    using assms(1,3) by (simp add: initServiceBindings_run)
  have "wf_map (services_of (fetched a e c))" using assms(2) by simp
  note P = bind_environment_plan [OF b this, unfolded fetched_simps bindings_plan_fetched]
  from P obtain m where m: "m = None \<longrightarrow> services_of a' = []" "\<forall>s. m = Some s \<longrightarrow> s = services_of a'"
    "map_of (runEnv a') ''VCAP_SERVICES'' = Some (vcap_json m)" by blast
  then have "services_of a' = (case m of None \<Rightarrow> [] | Some s \<Rightarrow> s)" by (cases m) auto
  with P m(3) show ?thesis by blast
qed

theorem initServiceBindings_plan_witness:
  "\<exists>a'. initServiceBindings (demo_client_api demo_env) (demo_app [''cache'', ''db''] [''redis-cli'']) = (Ok (), a')
     \<and> forwardAddrs a' = map plForward (planned_for (demo_app [''cache'', ''db''] [''redis-cli'']) demo_env)"
proof -
  let ?a = "demo_app [''cache'', ''db''] [''redis-cli'']"
  obtain a' where r: "initServiceBindings (demo_client_api demo_env) ?a = (Ok (), a')"
    using demo_ok by blast
  obtain c where f: "GetAppEnv (demo_client_api demo_env) (appGUID ?a) (cfClient ?a) = (Ok demo_env, c)"
    using demo_fetch(1) by fastforce
  from initServiceBindings_plan [OF f demo_wf r] r show ?thesis by auto
qed

text \<open>
  Property C1: after a success there is one tunnel for each distinct name that was asked for, and
  every such name is among the instances kept; nothing else is kept.
\<close>

theorem requested_services_kept:
  assumes "GetAppEnv api (appGUID a) (cfClient a) = (Ok e, c)" and "wf_map (env_services e)"
    and "initServiceBindings api a = (Ok (), a')" and "forwardAddrs a = []"
  shows "length (forwardAddrs a') = card (set (serviceInstanceNames a))
    \<and> {vsInstanceName si | si k sis. map_of (services_of a') k = Some sis \<and> Some si \<in> set sis}
        = set (serviceInstanceNames a)"
proof -
  have b: "bind_environment (fetched a e c) = (Ok (), a')"
    using assms(1,3) by (simp add: initServiceBindings_run)
  have "wf_map (services_of (fetched a e c))" using assms(2) by simp
  note P = bind_environment_plan [OF b this, unfolded fetched_simps bindings_plan_fetched]
  let ?pl = "planned_for a e"
  have f: "forwardAddrs a' = map plForward ?pl" using P assms(4) by simp
  have n: "set (plan_names ?pl) = set (serviceInstanceNames a)" using P by blast
  have d: "distinct (plan_names ?pl)" using plan_names_wanted unfolding planned_for_def by blast
  have l: "length (forwardAddrs a') = card (set (plan_names ?pl))"
    using f distinct_card [OF d] by (simp add: plan_names_def)
  have same: "vsInstanceName (plNew x) = vsInstanceName (plOld x)" if "x \<in> set ?pl" for x
  proof -
    have "repoint (plOld x) (ConnectPort (plForward x)) = Some (plNew x)"
      using plan_elem [of x] that unfolding planned_for_def by blast
    then show ?thesis by (auto simp: repoint_def dest!: sym [of _ "plNew x"] split: outcome.splits)
  qed
  have kept: "(\<exists>k sis. map_of (services_of a') k = Some sis \<and> Some si \<in> set sis)
      \<longleftrightarrow> si \<in> plNew ` set ?pl" for si
  proof -
    have m: "map_of (services_of a') k = kept_for k ?pl" for k using P by blast
    show ?thesis unfolding m by (rule kept_member)
  qed
  have "{vsInstanceName si | si k sis. map_of (services_of a') k = Some sis \<and> Some si \<in> set sis}
      = vsInstanceName ` plNew ` set ?pl"
    using kept by blast
  also have "\<dots> = set (plan_names ?pl)"
    using same by (force simp: plan_names_def image_image)
  finally show ?thesis using n l by simp
qed

theorem requested_services_kept_witness:
  "\<exists>a'. initServiceBindings (demo_client_api demo_env) (demo_app [''cache'', ''db''] [''redis-cli'']) = (Ok (), a')
     \<and> length (forwardAddrs a') = 2"
proof -
  let ?a = "demo_app [''cache'', ''db''] [''redis-cli'']"
  obtain a' where r: "initServiceBindings (demo_client_api demo_env) ?a = (Ok (), a')"
    using demo_ok by blast
  obtain c where f: "GetAppEnv (demo_client_api demo_env) (appGUID ?a) (cfClient ?a) = (Ok demo_env, c)"
    using demo_fetch(1) by fastforce
  from requested_services_kept [OF f demo_wf r] r show ?thesis by auto
qed

text \<open>
  Property C7: the local ports are the consecutive numbers from \<open>--local-port\<close> on, one per tunnel and
  a second one for a tunnel with TLS, all different, as long as the counter does not wrap.
\<close>

theorem tunnel_ports_consecutive:
  assumes "GetAppEnv api (appGUID a) (cfClient a) = (Ok e, c)" and "wf_map (env_services e)"
    and "initServiceBindings api a = (Ok (), a')" and "forwardAddrs a = []"
    and "0 < unat (nextPort a)"
    and "unat (nextPort a) + 2 * length (items (env_services e) (keys (env_services e))) < 2 ^ 64"
  shows "\<exists>n. concat (map forward_ports (forwardAddrs a')) = map (\<lambda>i. nextPort a + of_nat i) [0..<n]
    \<and> distinct (concat (map forward_ports (forwardAddrs a'))) \<and> nextPort a' = nextPort a + of_nat n"
proof -
  have b: "bind_environment (fetched a e c) = (Ok (), a')"
    using assms(1,3) by (simp add: initServiceBindings_run)
  have "wf_map (services_of (fetched a e c))" using assms(2) by simp
  note P = bind_environment_plan [OF b this, unfolded fetched_simps bindings_plan_fetched]
  let ?its = "items (env_services e) (sort (keys (env_services e)))"
  have "length ?its = length (items (env_services e) (keys (env_services e)))"
    by (rule length_items_sort)
  with assms(6) have small: "unat (nextPort a) + 2 * length ?its < 2 ^ 64" by (simp only:)
  from plan_ports_consecutive [OF small assms(5)] obtain n where
    n: "n \<le> 2 * length ?its"
    "concat (map (forward_ports \<circ> plForward) (planned_for a e)) = map (\<lambda>i. nextPort a + of_nat i) [0..<n]"
    "plan_used (planned_for a e) = of_nat n"
    unfolding planned_for_def by blast
  have "concat (map forward_ports (forwardAddrs a')) = map (\<lambda>i. nextPort a + of_nat i) [0..<n]"
    using P assms(4) n(2) by (simp add: comp_def)
  moreover have "distinct (map (\<lambda>i. nextPort a + of_nat i) [0..<n])"
  proof (rule consecutive_distinct)
    have "unat (nextPort a) + n \<le> unat (nextPort a) + 2 * length ?its" using n(1) by simp
    then show "unat (nextPort a) + n < 2 ^ 64" using small by (rule le_less_trans)
  qed
  moreover have "nextPort a' = nextPort a + of_nat n" using P n(3) by simp
  ultimately show ?thesis by (intro exI [of _ n]) simp
qed

theorem tunnel_ports_consecutive_witness:
  "\<exists>a'. initServiceBindings (demo_client_api demo_env) (demo_app [''cache'', ''db''] [''redis-cli'']) = (Ok (), a')
     \<and> distinct (concat (map forward_ports (forwardAddrs a')))"
proof -
  let ?a = "demo_app [''cache'', ''db''] [''redis-cli'']"
  obtain a' where r: "initServiceBindings (demo_client_api demo_env) ?a = (Ok (), a')"
    using demo_ok by blast
  obtain c where f: "GetAppEnv (demo_client_api demo_env) (appGUID ?a) (cfClient ?a) = (Ok demo_env, c)"
    using demo_fetch(1) by fastforce
  have l: "length (items (env_services demo_env) (keys (env_services demo_env))) = 2" by code_simp
  have p: "unat (nextPort ?a) = 7080" by simp
  from tunnel_ports_consecutive [OF f demo_wf r] r show ?thesis by (auto simp: p l)
qed



section \<open>Refusal\<close>

text \<open>
  Property C19: a program that no registered provider knows is refused, whatever services are bound,
  so a command such as \<open>ruby\<close> or \<open>bash\<close> is never run.
\<close>

theorem unknown_program_refused:
  assumes "GetAppEnv api (appGUID a) (cfClient a) = (Ok e, c)" and "wf_map (env_services e)"
    and "program a \<noteq> []"
    and "\<And>k sp. map_of (serviceProviders a) k = Some sp \<Longrightarrow> program a \<notin> set (sp_GetKnownClients sp)"
  shows "initServiceBindings api a \<noteq> (Ok (), a')"
proof
  assume "initServiceBindings api a = (Ok (), a')"
  then have b: "bind_environment (fetched a e c) = (Ok (), a')"
    using assms(1) by (simp add: initServiceBindings_run)
  have "wf_map (services_of (fetched a e c))" using assms(2) by simp
  from bind_environment_plan [OF b this, unfolded fetched_simps bindings_plan_fetched] assms(3)
  obtain k where "serves_program (program a) (kinds (serviceProviders a)) k" by blast
  then obtain sp where "map_of (serviceProviders a) k = Some sp" "program a \<in> set (sp_GetKnownClients sp)"
    by (auto simp: serves_program_def kinds_def split: option.splits)
  with assms(4) show False by blast
qed

theorem unknown_program_refused_witness:
  "\<not> (\<exists>a'. initServiceBindings (demo_client_api demo_env) (demo_app [''db''] [''ruby'']) = (Ok (), a'))"
proof -
  let ?a = "demo_app [''db''] [''ruby'']"
  obtain c where f: "GetAppEnv (demo_client_api demo_env) (appGUID ?a) (cfClient ?a) = (Ok demo_env, c)"
    using demo_fetch(1) by fastforce
  have p: "program ?a = ''ruby''" by (simp add: demo_app_def NewApp_def)
  have k: "program ?a \<notin> set (sp_GetKnownClients sp)"
    if "map_of (serviceProviders ?a) x = Some sp" for x sp
    using that unfolding p demo_app_simps
    by (auto simp: demo_providers_def sp_GetKnownClients_def mysql_known_def postgres_known_def
        redis_clients_def influx_known_def split: if_splits)
  have "program ?a \<noteq> []" using p by simp
  then have "initServiceBindings (demo_client_api demo_env) ?a \<noteq> (Ok (), a')" for a'
    by (rule unknown_program_refused [OF f demo_wf]) (rule k)
  then show ?thesis by blast
qed

section \<open>Panics\<close>

lemma nil_environment:
  assumes "GetAppEnv api (appGUID a) (cfClient a) = (Ok e, c)" and "systemEnv e = None"
  shows "fst (initServiceBindings api a) = Panic nil_deref"
  using assms
  by (simp add: initServiceBindings_run bind_environment_def get_services_def with_st_def seq_def
      deref_def ret_def panic_def)

text \<open>
  Property C18: an answer of the platform that is no JSON, for example the page of a proxy, or that
  is JSON without \<open>system_env_json\<close>, crashes the program: the error of the decoder is dropped and
  the nil environment is read.
\<close>

theorem unreadable_environment_panics:
  assumes "cfClient a = (c, w)"
    and "api_DoRequest capi (goCFClient c) GET (''/v2/apps/'' @ appGUID a @ ''/env'') [] w = (Inr (Inr body), w')"
    and "json_parse body = None \<or> systemEnv (fst (unmarshal dec_env body \<lparr>systemEnv = None\<rparr>)) = None"
  shows "fst (initServiceBindings (client_impl capi) a) = Panic nil_deref"
proof -
  let ?e = "fst (unmarshal dec_env body \<lparr>systemEnv = None\<rparr>)"
  have "GetAppEnv (client_impl capi) (appGUID a) (cfClient a) = (Ok ?e, (c, w'))"
    using assms(1,2) by (simp add: client_impl_def client_GetAppEnv_def act_defs)
  moreover have "systemEnv ?e = None" using assms(3) by (auto simp: unmarshal_no_json)
  ultimately show ?thesis by (rule nil_environment)
qed

definition proxy_api :: "nat cfapi" where
  "proxy_api = (demo_api empty_env [] [])\<lparr>api_DoRequest := (\<lambda>h m p b w. (Inr (Inr ''<html>''), w))\<rparr>"

theorem unreadable_environment_panics_witness:
  "fst (initServiceBindings (client_impl proxy_api) (demo_app [''db''] [''psql''])) = Panic nil_deref"
proof -
  have j: "json_parse ''<html>'' = None" by code_simp
  show ?thesis
    by (rule unreadable_environment_panics [where c = demo_client and w = 0 and w' = 0 and body = "''<html>''"])
      (simp_all add: proxy_api_def j)
qed

text \<open>An instance that can be handled: a pointer to an instance that has credentials.\<close>

definition sound_instance :: "vcap_service option \<Rightarrow> bool" where
  "sound_instance msi = (case msi of None \<Rightarrow> False | Some si \<Rightarrow> vsCredentials si \<noteq> None)"

definition has_env :: "'m app_core_scheme \<Rightarrow> bool" where
  "has_env a = (case appEnv a of None \<Rightarrow> False | Some e \<Rightarrow> systemEnv e \<noteq> None)"

lemma scan_instance_sound:
  assumes "sound_instance msi"
  shows "fst (scan_instance k i msi (u, s, kept) a) \<noteq> Panic p"
proof -
  obtain si c where si: "msi = Some si" "vsCredentials si = Some c"
    using assms by (auto simp: sound_instance_def split: option.splits)
  show ?thesis
  proof (cases "vsInstanceName si \<in> set u")
    case False
    then show ?thesis by (simp add: si scan_instance_other)
  next
    case True
    show ?thesis
    proof (cases "map_of (serviceProviders a) k")
      case None
      from scan_instance_unknown [OF True None, of i s kept] show ?thesis by (auto simp: si)
    next
      case (Some sp)
      obtain si' where "repoint si (ConnectPort (planned_forward a k sp si)) = Some si'"
        using si(2) by (simp add: repoint_def SetAddress_Some)
      from scan_instance_kept [OF True Some this, of i s kept] show ?thesis by (auto simp: si)
    qed
  qed
qed

lemma scan_instances_sound:
  assumes "\<And>msi. msi \<in> set msis \<Longrightarrow> sound_instance msi"
  shows "fst (scan_instances k i msis loc a) \<noteq> Panic p"
  using assms
proof (induction msis arbitrary: i loc a)
  case (Cons msi msis)
  obtain u s kept where l: "loc = (u, s, kept)" by (cases loc)
  obtain r a1 where r: "scan_instance k i msi loc a = (r, a1)" by fastforce
  have "sound_instance msi" using Cons.prems by simp
  then have "r \<noteq> Panic q" for q using scan_instance_sound [of msi k i u s kept a q] r l by simp
  with Cons r show ?case by (cases r) (auto simp: seq_def)
qed (simp add: ret_def)

lemma scan_service_sound:
  assumes "\<And>msi. msi \<in> set (instances_of (services_of a) k) \<Longrightarrow> sound_instance msi"
  shows "fst (scan_service k u s a) \<noteq> Panic p"
proof -
  obtain r a1 where r: "scan_instances k 0 (instances_of (services_of a) k) (u, s, []) a = (r, a1)"
    by fastforce
  have np: "r \<noteq> Panic q" for q
    using scan_instances_sound [of "instances_of (services_of a) k" k 0 "(u, s, [])" a q] assms r by auto
  show ?thesis
    using r np by (cases r) (auto simp: scan_service_def with_st_def seq_def put_services_run ret_def
        split: prod.split)
qed

lemma scan_services_sound:
  assumes "\<And>k msi. k \<in> set ks \<Longrightarrow> msi \<in> set (instances_of (services_of a) k) \<Longrightarrow> sound_instance msi"
    and "distinct ks"
  shows "fst (scan_services ks u s a) \<noteq> Panic p"
  using assms
proof (induction ks arbitrary: u s a)
  case (Cons k ks)
  obtain r a1 where r: "scan_service k u s a = (r, a1)" by fastforce
  have np: "r \<noteq> Panic q" for q
    using scan_service_sound [of a k u s q] Cons.prems(1) [of k] r by simp
  show ?case
  proof (cases r)
    case (Ok us)
    obtain u1 s1 where us: "us = (u1, s1)" by fastforce
    have one: "scan_service k u s a = (Ok (u1, s1), a1)" using r Ok us by simp
    have "map_of (services_of a1) k' = map_of (services_of a) k'" if "k' \<noteq> k" for k'
      using scan_service_plan [OF one] that by auto
    then have "instances_of (services_of a1) k' = instances_of (services_of a) k'" if "k' \<in> set ks" for k'
      using that Cons.prems(2) by (simp add: instances_of_def) (metis (no_types))
    then have "fst (scan_services ks u1 s1 a1) \<noteq> Panic p"
      using Cons.prems by (intro Cons.IH) auto
    then show ?thesis using one by (simp add: seq_def)
  qed (use r np in \<open>auto simp: seq_def\<close>)
qed (simp add: ret_def)

lemma has_env_put [simp]: "has_env (a\<lparr>appEnv := Some \<lparr>systemEnv = Some (Some m)\<rparr>\<rparr>)"
  by (simp add: has_env_def)

lemma preserves_put_services [keeps]: "preserves has_env (put_services m)"
  unfolding put_services_def by (rule preserves_upd) simp

lemma preserves_with_st [keeps]: "(\<And>a. preserves I (f a)) \<Longrightarrow> preserves I (with_st f)"
  by (simp add: preserves_def with_st_def)

lemma preserves_deref [keeps]: "preserves I (deref p)"
  unfolding deref_def by (auto intro: keeps split: option.split)

lemma preserves_init_program_env [keeps]: "preserves has_env (init_program_env k sp c)"
  by (auto simp: preserves_def init_program_env_def has_env_def split: prod.split)

lemma preserves_scan_instance [keeps]: "preserves has_env (scan_instance k i msi loc)"
  unfolding scan_instance_def put_instance_def
  by (auto intro!: keeps preserves_upd simp: has_env_def Let_def split: prod.split option.split outcome.split)

lemma preserves_scan_instances [keeps]: "preserves has_env (scan_instances k i msis loc)"
  by (induction msis arbitrary: i loc) (auto intro: keeps)

lemma preserves_scan_service [keeps]: "preserves has_env (scan_service k u s)"
  unfolding scan_service_def by (auto intro!: keeps split: prod.split)

lemma preserves_scan_services [keeps]: "preserves has_env (scan_services ks u s)"
  by (induction ks arbitrary: u s) (auto intro!: keeps split: prod.split)

lemma get_services_env: "has_env a \<Longrightarrow> \<exists>m. get_services a = (Ok m, a)"
  by (auto simp: has_env_def get_services_def with_st_def seq_def deref_def ret_def split: option.splits)

lemma calm_check_satisfied: "no_panic (check_satisfied u s)"
  unfolding check_satisfied_def by (auto intro!: calm simp: Let_def)

text \<open>
  Property C17: if the platform's answer has a \<open>system_env_json\<close> in which every service is an object
  with credentials, setting up the bindings ends without a panic: with success or an error.
\<close>

theorem initServiceBindings_no_panic:
  assumes "GetAppEnv api (appGUID a) (cfClient a) = (Ok e, c)" and "wf_map (env_services e)"
    and "systemEnv e \<noteq> None"
    and "\<And>k sis msi. map_of (env_services e) k = Some sis \<Longrightarrow> msi \<in> set sis \<Longrightarrow> sound_instance msi"
  shows "fst (initServiceBindings api a) \<noteq> Panic p"
proof -
  let ?a = "fetched a e c"
  let ?ks = "sort (keys (env_services e))"
  let ?scan = "scan_services ?ks (set_of_names (serviceInstanceNames a)) False"
  have env: "has_env ?a" using assms(3) by (simp add: has_env_def)
  from get_services_env [OF this] obtain m where g: "get_services ?a = (Ok m, ?a)" by blast
  then have m: "(case m of None \<Rightarrow> [] | Some s \<Rightarrow> s) = env_services e"
    by (auto simp: get_services_def with_st_def seq_def deref_def ret_def panic_def env_services_def
        split: option.splits)
  obtain r a1 where r: "?scan ?a = (r, a1)" by fastforce
  have snd: "sound_instance msi" if "msi \<in> set (instances_of (services_of ?a) k)" for k msi
    using that assms(4) [of k] by (cases "map_of (env_services e) k") (auto simp: instances_of_def)
  have "distinct ?ks" using assms(2) by (simp add: wf_map_def)
  then have np: "r \<noteq> Panic q" for q
    using scan_services_sound [of ?ks ?a "set_of_names (serviceInstanceNames a)" False q] snd r by auto
  have env1: "has_env a1"
    using preservesD [OF preserves_scan_services env, of ?ks "set_of_names (serviceInstanceNames a)" False] r
    by simp
  have run: "fst (initServiceBindings api a)
      = fst (seq ?scan (\<lambda>(u, s). andthen (check_satisfied u s) publish_services) ?a)"
    using assms(1) g m by (simp add: initServiceBindings_run bind_environment_def seq_def with_st_def)
  show ?thesis
  proof (cases r)
    case (Ok us)
    obtain u s where us: "us = (u, s)" by fastforce
    obtain x a2 where x: "check_satisfied u s a1 = (x, a2)" by fastforce
    have "x \<noteq> Panic q" for q using calm_check_satisfied x by (auto dest: no_panicD)
    moreover have "fst (publish_services a2) \<noteq> Panic p" if "x = Ok ()"
    proof -
      have "a2 = a1" using x that by (simp add: check_satisfied_ok)
      with get_services_env [OF env1] show ?thesis
        by (auto simp: publish_services_def seq_def upd_def)
    qed
    ultimately show ?thesis
      unfolding run using r Ok us x by (cases x) (simp_all add: seq_def)
  qed (use run r np in \<open>simp_all add: seq_def\<close>)
qed

theorem initServiceBindings_no_panic_witness:
  "\<exists>r. fst (initServiceBindings (demo_client_api demo_env) (demo_app [''other''] [''psql''])) = r
     \<and> r \<noteq> Panic nil_deref \<and> r \<noteq> Panic nil_map_write"
proof -
  let ?a = "demo_app [''other''] [''psql'']"
  obtain c where f: "GetAppEnv (demo_client_api demo_env) (appGUID ?a) (cfClient ?a) = (Ok demo_env, c)"
    using demo_fetch(1) by fastforce
  have s: "systemEnv demo_env \<noteq> None" by (simp add: demo_env_def)
  have good: "sound_instance msi" if "map_of (env_services demo_env) k = Some sis" "msi \<in> set sis" for k sis msi
    using that by (auto simp: env_services_def demo_env_def sound_instance_def split: if_splits)
  have "fst (initServiceBindings (demo_client_api demo_env) ?a) \<noteq> Panic p" for p
    by (rule initServiceBindings_no_panic [OF f demo_wf s]) (rule good)
  then show ?thesis by blast
qed

section \<open>What the command reads\<close>

text \<open>
  Property C15: a command that decodes the \<open>VCAP_SERVICES\<close> of its environment gets, under each
  service, exactly the instances that were kept, in order and with the credentials that lead to
  the tunnels; the only change is that every map is in the order of its keys. The texts must be
  valid UTF-8 and the numbers as the decoder made them.
\<close>

theorem published_services_decode:
  assumes "GetAppEnv api (appGUID a) (cfClient a) = (Ok e, c)" and "wf_map (env_services e)"
    and "initServiceBindings api a = (Ok (), a')" and "wf_services (services_of a')"
  shows "\<exists>t m. map_of (runEnv a') ''VCAP_SERVICES'' = Some t \<and> unmarshal dec_services t None = (m, True)
    \<and> map_of (case m of None \<Rightarrow> [] | Some s \<Rightarrow> s) k
        = map_option (map sort_service) (kept_for k (planned_for a e))"
proof -
  have b: "bind_environment (fetched a e c) = (Ok (), a')"
    using assms(1,3) by (simp add: initServiceBindings_run)
  have "wf_map (services_of (fetched a e c))" using assms(2) by simp
  note P = bind_environment_plan [OF b this, unfolded fetched_simps bindings_plan_fetched]
  then obtain m where m: "m = None \<longrightarrow> services_of a' = []" "\<forall>s. m = Some s \<longrightarrow> s = services_of a'"
    "map_of (runEnv a') ''VCAP_SERVICES'' = Some (vcap_json m)"
    and kept: "map_of (services_of a') k = kept_for k (planned_for a e)" by blast
  show ?thesis
  proof (cases m)
    case None
    have "unmarshal dec_services (vcap_json None) None = (None, True)" by code_simp
    with None m kept show ?thesis by auto
  next
    case (Some s)
    then have "s = services_of a'" using m(2) by blast
    moreover have "wf_map (services_of a')" using assms(4) by (simp add: wf_services_def)
    ultimately show ?thesis
      using Some m(3) kept unmarshal_vcap_json [OF assms(4)] by (auto simp: map_of_sort_services)
  qed
qed

definition demo_cache :: "vcap_service option" where
  "demo_cache = Some \<lparr>vsName = ''cache'',
     vsCredentials = Some [(''host'', GStr ''127.0.0.1''), (''port'', GStr ''7081''),
       (''uri'', GStr ''rediss://127.0.0.1:7081'')], vsInstanceName = ''cache''\<rparr>"

lemma demo_cache_run:
  "case initServiceBindings (demo_client_api demo_env) (demo_app [''cache''] [''redis-cli'']) of (r, a') \<Rightarrow>
     is_ok r \<and> services_of a' = [(''redis'', [demo_cache])]"
  by code_simp

lemma demo_cache_wf: "wf_services [(''redis'', [demo_cache])]"
  by code_simp

lemma demo_cache_planned:
  "map_option (map sort_service) (kept_for ''redis'' (planned_for (demo_app [''cache''] [''redis-cli'']) demo_env))
     = Some [demo_cache]"
  by code_simp

theorem published_services_decode_witness:
  "\<exists>a' t m. initServiceBindings (demo_client_api demo_env) (demo_app [''cache''] [''redis-cli'']) = (Ok (), a')
     \<and> map_of (runEnv a') ''VCAP_SERVICES'' = Some t \<and> unmarshal dec_services t None = (m, True)
     \<and> map_of (case m of None \<Rightarrow> [] | Some s \<Rightarrow> s) ''redis'' = Some [demo_cache]"
proof -
  let ?a = "demo_app [''cache''] [''redis-cli'']"
  obtain a' where r: "initServiceBindings (demo_client_api demo_env) ?a = (Ok (), a')"
    and k: "services_of a' = [(''redis'', [demo_cache])]"
    using demo_cache_run by (cases "initServiceBindings (demo_client_api demo_env) ?a") (auto elim: is_okE)
  obtain c where f: "GetAppEnv (demo_client_api demo_env) (appGUID ?a) (cfClient ?a) = (Ok demo_env, c)"
    using demo_fetch(1) by fastforce
  from published_services_decode [OF f demo_wf r demo_cache_wf [folded k], of "''redis''"] r
  show ?thesis unfolding demo_cache_planned by blast
qed

end
