(* ===== verification/Running.thy ===== *)
theory Running
  imports Bindings
begin

text \<open>
  The rest of the application (conduit/app.go): starting the tunnels, the connection info, running
  the command and the clean-up.
\<close>

section \<open>Tunnels\<close>

text \<open>The tunnel object is stored before it is started, so the clean-up finds it.\<close>

definition on_tunnel :: "(tun_st, unit) act \<Rightarrow> ('c app, unit) act" where
  [act_defs]: "on_tunnel f = with_st (\<lambda>a. seq (deref (tunnel a)) (\<lambda>t. (\<lambda>a.
     case f (t, mach a) of (r, (t', m)) \<Rightarrow> (r, a\<lparr>tunnel := Some t', mach := m\<rparr>))))"

text \<open>
  \<open>util.WaitForConnection\<close>. In \<open>startSSHTunnels\<close> it is in a \<open>select\<close> with \<open>WaitChan\<close>, which gives a
  value only once \<open>shutdownChan\<close> is closed; only \<open>Stop\<close> closes it and no one calls \<open>Stop\<close> during
  the set-up, so the connection's result is the one received.
\<close>

definition wait_for :: "string \<Rightarrow> ('c app, unit) act" where
  "wait_for addr = (\<lambda>a. case WaitForConnection dial_result sleep_ms addr (mach a) of
     (None, m) \<Rightarrow> (Ok (), a\<lparr>mach := m\<rparr>) | (Some e, m) \<Rightarrow> (Err e, a\<lparr>mach := m\<rparr>))"

definition startSSHTunnels :: "'c client_api \<Rightarrow> ('c app, unit) act" where
  "startSSHTunnels api =
     andthen (upd (\<lambda>a. a\<lparr>tunnel := Some (new_ssh_tunnel (appGUID a) (AppSSHEndpoint api (cfClient a))
                (AppSSHHostKeyFingerprint api (cfClient a)) (forwardAddrs a))\<rparr>))
     (andthen (status_text [''Starting port forwarding''])
     (andthen (on_tunnel ssh_Start)
     (andthen (status_text [''Waiting for port forwarding''])
     (with_st (\<lambda>a. for_each (\<lambda>fwd. wait_for (LocalAddress fwd)) (forwardAddrs a))))))"

definition start_tls_tunnel :: "forward \<Rightarrow> ('c app, unit) act" where
  "start_tls_tunnel addr =
     (if TLSTunnelPort addr = 0 then ret ()
      else with_st (\<lambda>a.
        let t = tls_NewTunnel (TLSTunnelAddress addr) (LocalAddress addr) (RemoteAddr addr)
                  (appTlsInsecure a) (appTlsCipherSuites a) (appTlsMinVersion a)
        in seq (\<lambda>a. case tls_Start (t, mach a) of
                  (Ok _, (t', m)) \<Rightarrow> (Ok t', a\<lparr>mach := m\<rparr>)
                | (Err e, (t', m)) \<Rightarrow> (Err e, a\<lparr>mach := m\<rparr>)
                | (Panic p, (t', m)) \<Rightarrow> (Panic p, a\<lparr>mach := m\<rparr>)) (\<lambda>t'.
           andthen (upd (\<lambda>a. a\<lparr>tlsTunnels := tlsTunnels a @ [t']\<rparr>))
           (wait_for (TLSTunnelAddress addr)))))"

definition startTLSTunnels :: "('c app, unit) act" where
  "startTLSTunnels = with_st (\<lambda>a. for_each start_tls_tunnel (forwardAddrs a))"

definition SetupTunnels :: "'c client_api \<Rightarrow> ('c app, unit) act" where
  "SetupTunnels api =
     andthen (initServiceBindings api) (andthen (startSSHTunnels api) startTLSTunnels)"

section \<open>Connection info\<close>

definition print_err :: "string \<Rightarrow> ('c app, unit) act" where
  "print_err t = upd (\<lambda>a. a\<lparr>appStatus := (appStatus a)\<lparr>printed := printed (appStatus a) @ [t]\<rparr>\<rparr>)"

definition print_instance :: "string \<Rightarrow> vcap_service option \<Rightarrow> ('c app, unit) act" where
  "print_instance serviceType msi =
     seq (deref msi) (\<lambda>si.
     andthen (print_err (''* service: '' @ vsName si @ '' ('' @ serviceType @ '')'' @ nl))
     (andthen (print_err (Fprint (entries (vsCredentials si)) ''  ''))
     (print_err nl)))"

definition PrintConnectionInfo :: "('c app, unit) act" where
  "PrintConnectionInfo =
     andthen (print_err (nl @ ''The following services are ready for you to connect to:'' @ nl @ nl))
     (seq get_services (\<lambda>m.
     for_each (\<lambda>(serviceType, sis). for_each (print_instance serviceType) sis)
       (case m of None \<Rightarrow> [] | Some s \<Rightarrow> s)))"

section \<open>The command\<close>

definition of_outcome :: "'a outcome \<Rightarrow> ('s, 'a) act" where
  [act_defs]: "of_outcome r = (\<lambda>s. (r, s))"

text \<open>The first provider, in visiting order, that knows the program.\<close>

definition provider_for :: "provider gomap \<Rightarrow> string \<Rightarrow> (string \<times> provider) option" where
  "provider_for providers prog = find (\<lambda>(_, sp). prog \<in> set (sp_GetKnownClients sp)) providers"

definition getProgramSpecificArgs :: "string \<Rightarrow> ('c app, string list) act" where
  "getProgramSpecificArgs prog = with_st (\<lambda>a.
     case provider_for (serviceProviders a) prog of
       None \<Rightarrow> ret []
     | Some (serviceName, sp) \<Rightarrow>
         seq get_services (\<lambda>m.
         of_outcome (sp_AdditionalProgramArgs sp
           (instances_of (case m of None \<Rightarrow> [] | Some s \<Rightarrow> s) serviceName))))"

definition env_line :: "string \<times> string \<Rightarrow> string" where
  "env_line kv = fst kv @ ''='' @ snd kv"

definition RunCommand :: "('c app, unit) act" where
  "RunCommand = with_st (\<lambda>a.
     andthen (status_text [''Preparing command:'', join '' '' (runArgs a)])
     (seq (getProgramSpecificArgs (program a)) (\<lambda>extraArgs.
     if runArgs a = [] then panic slice_bounds
     else (let args = extraArgs @ tl (runArgs a)
     in case path (mach a) (program a) of
       None \<Rightarrow> raise (ErrorString (''cannot find '' @ quoted (program a) @ '' in PATH''))
     | Some exe \<Rightarrow> with_st (\<lambda>a.
         andthen (upd (\<lambda>a. a\<lparr>appStatus := Done (appStatus a)\<rparr>))
         (andthen (on_err (on_machine (start_process exe args
                     (environ (mach a) @ map env_line (runEnv a))))
                   (\<lambda>e. raise (ErrorString (exe @ '': '' @ error_text e))))
         (seq (on_machine wait_process) (\<lambda>code.
         case code of
           None \<Rightarrow> ret ()
         | Some n \<Rightarrow> if n \<noteq> 0 then raise (AppExecution n) else ret ()))))))))"

section \<open>Clean-up\<close>

text \<open>The error of a step, if it has one; a panic goes on.\<close>

definition collect :: "('s, unit) act \<Rightarrow> ('s, gerror list) act" where
  [act_defs]: "collect f = (\<lambda>s. case f s of
     (Ok _, s') \<Rightarrow> (Ok [], s') | (Err e, s') \<Rightarrow> (Ok [e], s') | (Panic p, s') \<Rightarrow> (Panic p, s'))"

fun collect_all :: "('s, unit) act list \<Rightarrow> ('s, gerror list) act" where
  "collect_all [] = ret []"
| "collect_all (f # fs) = seq (collect f) (\<lambda>es. seq (collect_all fs) (\<lambda>es'. ret (es @ es')))"

text \<open>The four parts of \<open>Teardown\<close>, each with its guard.\<close>

definition teardown_steps :: "'c client_api \<Rightarrow> 'c app \<Rightarrow> ('c app, unit) act list" where
  "teardown_steps api a =
     map (\<lambda>t. on_machine (tls_Stop t)) (tlsTunnels a)
     @ (if tunnel a \<noteq> None then [on_tunnel ssh_Stop] else [])
     @ map (\<lambda>(_, sp). on_machine (sp_Teardown sp)) (serviceProviders a)
     @ (if deleteApp a \<and> appGUID a \<noteq> [] then [destroyApp api] else [])"

definition Teardown :: "'c client_api \<Rightarrow> ('c app, unit) act" where
  "Teardown api = with_st (\<lambda>a.
     seq (collect_all (teardown_steps api a)) (\<lambda>errs.
     if errs \<noteq> [] then raise (MultiError errs) else ret ()))"

end
