(* ===== verification/Lifecycle.thy ===== *)
theory Lifecycle
  imports Running BindingProps Deployment
begin

text \<open>
  Properties of the set-up, the run and the clean-up taken together: which sockets are open after
  the set-up, that the clean-up closes them, when the helper app is destroyed, and what the
  command is started with.
\<close>

section \<open>Steps that leave the sockets alone\<close>

text \<open>The part of the state that only the tunnel steps change.\<close>

definition sockets :: "'c app \<Rightarrow> string list \<times> ssh_tunnel option \<times> tls_tunnel list" where
  "sockets a = (listening (mach a), tunnel a, tlsTunnels a)"

abbreviation same_sockets :: "string list \<times> ssh_tunnel option \<times> tls_tunnel list \<Rightarrow> 'c app \<Rightarrow> bool" where
  "same_sockets s \<equiv> \<lambda>a. sockets a = s"

lemma sockets_upd [simp]:
  "sockets (a\<lparr>nextPort := p\<rparr>) = sockets a" "sockets (a\<lparr>forwardAddrs := fs\<rparr>) = sockets a"
  "sockets (a\<lparr>appEnv := e\<rparr>) = sockets a" "sockets (a\<lparr>runEnv := v\<rparr>) = sockets a"
  "sockets (a\<lparr>appStatus := st\<rparr>) = sockets a" "sockets (a\<lparr>cfClient := c\<rparr>) = sockets a"
  "sockets (a\<lparr>nextPort := p, forwardAddrs := fs\<rparr>) = sockets a"
  by (simp_all add: sockets_def)

lemma keeps_upd_sockets:
  "(\<And>a. sockets (g a) = sockets a) \<Longrightarrow> preserves (same_sockets s) (upd g)"
  by (rule preserves_upd) simp

lemma keeps_status_text [keeps]: "preserves (same_sockets s) (status_text args)"
  unfolding status_text_def by (rule keeps_upd_sockets) simp

lemma keeps_on_cf [keeps]: "preserves (same_sockets s) (on_cf f)"
  by (auto simp: preserves_def on_cf_def split: prod.split)

lemma keeps_with_st [keeps]: "(\<And>a. preserves I (f a)) \<Longrightarrow> preserves I (with_st f)"
  by (simp add: preserves_def with_st_def)

lemma keeps_deref [keeps]: "preserves I (deref p)"
  unfolding deref_def by (auto intro: keeps split: option.split)

lemma keeps_put_services [keeps]: "preserves (same_sockets s) (put_services m)"
  unfolding put_services_def by (rule keeps_upd_sockets) simp

lemma keeps_init_program_env [keeps]: "preserves (same_sockets s) (init_program_env k sp c)"
proof (rule preservesI)
  fix a :: "'a app" assume a: "sockets a = s"
  obtain r sp' e m where run: "sp_InitEnv c (sp, runEnv a, mach a) = (r, (sp', e, m))"
    by (metis prod.exhaust)
  with provider.init_net [OF run] a show "sockets (snd (init_program_env k sp c a)) = s"
    by (simp add: init_program_env_def sockets_def)
qed

lemma keeps_scan_instance [keeps]: "preserves (same_sockets s) (scan_instance k i msi loc)"
  unfolding scan_instance_def put_instance_def
  by (auto intro!: keeps keeps_upd_sockets simp: Let_def
      split: prod.split option.split outcome.split)

lemma keeps_scan_instances [keeps]: "preserves (same_sockets s) (scan_instances k i msis loc)"
  by (induction msis arbitrary: i loc) (auto intro: keeps)

lemma keeps_scan_service [keeps]: "preserves (same_sockets s) (scan_service k u b)"
  unfolding scan_service_def by (auto intro!: keeps split: prod.split)

lemma keeps_scan_services [keeps]: "preserves (same_sockets s) (scan_services ks u b)"
  by (induction ks arbitrary: u b) (auto intro!: keeps split: prod.split)

lemma keeps_initServiceBindings [keeps]: "preserves (same_sockets s) (initServiceBindings api)"
  unfolding initServiceBindings_def bind_environment_def publish_services_def get_services_def
    check_satisfied_def
  by (auto intro!: keeps keeps_upd_sockets simp: Let_def split: prod.split)

section \<open>Waiting\<close>

lemma dial_result_listening: "dial_result addr m = (r, m') \<Longrightarrow> listening m' = listening m"
  by (auto simp: dial_result_def dial_local_def faulty_def Let_def split: option.splits if_splits)

lemma wait_loop_listening:
  "listening (snd (wait_loop dial_result sleep_ms addr n m)) = listening m"
proof (induction "15 - n" arbitrary: n m rule: less_induct)
  case less
  let ?s = "sleep_ms (if n > 5 then 2000 else 1000) m"
  obtain r m1 where d: "dial_result addr ?s = (r, m1)" by fastforce
  have m1: "listening m1 = listening m"
    using dial_result_listening [OF d] by (simp add: sleep_ms_def)
  show ?case
  proof (cases "r \<noteq> None \<and> Suc n < 15")
    case True
    then have "15 - Suc n < 15 - n" by arith
    from less [OF this, of m1] True d m1 show ?thesis
      by (subst wait_loop.simps) (auto simp: Let_def)
  next
    case False
    with d m1 show ?thesis
      by (subst wait_loop.simps) (auto simp: Let_def split: option.split)
  qed
qed

lemma keeps_wait_for [keeps]: "preserves (same_sockets s) (wait_for addr)"
  using wait_loop_listening [of addr 0]
  by (auto simp: preserves_def wait_for_def WaitForConnection_def sockets_def split: prod.split option.split)
    (metis snd_conv)+

section \<open>Opening the sockets\<close>

text \<open>The address a forwarding is reached at, once its listener is open.\<close>

definition loopback :: "int64 \<Rightarrow> string" where
  "loopback p = addr_text ''127.0.0.1'' p"

definition ssh_sockets :: "ssh_tunnel option \<Rightarrow> string list" where
  "ssh_sockets t = (case t of None \<Rightarrow> [] | Some t \<Rightarrow> listeners t)"

definition tls_sockets :: "tls_tunnel list \<Rightarrow> string list" where
  "tls_sockets ts = concat (map (\<lambda>t. case listener t of None \<Rightarrow> [] | Some s \<Rightarrow> [s]) ts)"

text \<open>
  The invariant of the set-up: beyond the sockets open at its start (\<open>base\<close>), exactly those of
  the tunnels stored in the application are open, no socket twice, and every TLS tunnel stored
  has its listener.
\<close>

definition owned_sockets :: "string list \<Rightarrow> 'c app \<Rightarrow> bool" where
  "owned_sockets base a =
     (listening (mach a) = base @ ssh_sockets (tunnel a) @ tls_sockets (tlsTunnels a)
      \<and> distinct (ssh_sockets (tunnel a) @ tls_sockets (tlsTunnels a))
      \<and> set (ssh_sockets (tunnel a) @ tls_sockets (tlsTunnels a)) \<inter> set base = {}
      \<and> (\<forall>t \<in> set (tlsTunnels a). listener t \<noteq> None))"

lemma owned_sockets_cong: "sockets a' = sockets a \<Longrightarrow> owned_sockets base a' = owned_sockets base a"
  by (simp add: sockets_def owned_sockets_def)

lemma keeps_owned: "(\<And>s. preserves (same_sockets s) m) \<Longrightarrow> preserves (owned_sockets base) m"
  unfolding preserves_def using owned_sockets_cong by metis

lemma tls_sockets_simps [simp]:
  "tls_sockets [] = []" "tls_sockets (ts @ [t]) = tls_sockets ts @ (case listener t of None \<Rightarrow> [] | Some s \<Rightarrow> [s])"
  by (simp_all add: tls_sockets_def)

lemma tls_Start_run:
  assumes "tls_Start (t, m) = (r, (t', m'))" and "localAddr t = addr_text ''localhost'' p"
  shows "case r of
      Ok _ \<Rightarrow> \<exists>s. listener t' = Some s \<and> listening m' = listening m @ [s] \<and> s \<notin> set (listening m)
        \<and> (sint p \<noteq> 0 \<longrightarrow> s = loopback p)
    | Err _ \<Rightarrow> listening m' = listening m
    | Panic _ \<Rightarrow> False"
proof -
  obtain x m1 where l: "Listen (addr_text ''localhost'' p) m = (x, m1)" by fastforce
  from Listen_local [OF l] assms l show ?thesis
    by (cases x) (auto simp: tls_Start_def loopback_def)
qed

lemma start_tls_tunnel_owned: "preserves (owned_sockets base) (start_tls_tunnel f)"
proof (rule preservesI)
  fix a :: "'a app" assume a: "owned_sockets base a"
  show "owned_sockets base (snd (start_tls_tunnel f a))"
  proof (cases "TLSTunnelPort f = 0")
    case True
    with a show ?thesis by (simp add: start_tls_tunnel_def ret_def)
  next
    case False
    let ?t = "tls_NewTunnel (TLSTunnelAddress f) (LocalAddress f) (RemoteAddr f)
                  (appTlsInsecure a) (appTlsCipherSuites a) (appTlsMinVersion a)"
    obtain r t' m where s: "tls_Start (?t, mach a) = (r, (t', m))" by (metis prod.exhaust)
    have "localAddr ?t = addr_text ''localhost'' (TLSTunnelPort f)"
      by (simp add: tls_NewTunnel_def TLSTunnelAddress_def)
    note T = tls_Start_run [OF s this]
    show ?thesis
    proof (cases r)
      case (Ok u)
      let ?a1 = "a\<lparr>mach := m, tlsTunnels := tlsTunnels a @ [t']\<rparr>"
      have run: "start_tls_tunnel f a = wait_for (TLSTunnelAddress f) ?a1"
        using False s Ok by (simp add: start_tls_tunnel_def app_run Let_def)
      have "owned_sockets base ?a1" using a T Ok by (auto simp: owned_sockets_def)
      with keeps_owned [OF keeps_wait_for, of base] run show ?thesis
        by (metis preserves_def)
    next
      case (Err e)
      with False s T a show ?thesis
        by (simp add: start_tls_tunnel_def app_run Let_def owned_sockets_def)
    next
      case (Panic p)
      with T show ?thesis by simp
    qed
  qed
qed

definition wait_all :: "('c app, unit) act" where
  "wait_all = andthen (status_text [''Waiting for port forwarding''])
     (with_st (\<lambda>a. for_each (\<lambda>fwd. wait_for (LocalAddress fwd)) (forwardAddrs a)))"

definition app_tunnel :: "'c client_api \<Rightarrow> 'c app \<Rightarrow> ssh_tunnel" where
  "app_tunnel api a = new_ssh_tunnel (appGUID a) (AppSSHEndpoint api (cfClient a))
     (AppSSHHostKeyFingerprint api (cfClient a)) (forwardAddrs a)"

lemma startSSHTunnels_run:
  assumes "ssh_Start (app_tunnel api a, mach a) = (r, (t', m))"
  shows "startSSHTunnels api a =
    (let a1 = a\<lparr>tunnel := Some t', mach := m, appStatus := Text [''Starting port forwarding''] (appStatus a)\<rparr>
     in case r of Ok _ \<Rightarrow> wait_all a1 | Err e \<Rightarrow> (Err e, a1) | Panic p \<Rightarrow> (Panic p, a1))"
proof -
  let ?a0 = "a\<lparr>tunnel := Some (app_tunnel api a), appStatus := Text [''Starting port forwarding''] (appStatus a)\<rparr>"
  have "on_tunnel ssh_Start ?a0
      = (r, a\<lparr>tunnel := Some t', mach := m, appStatus := Text [''Starting port forwarding''] (appStatus a)\<rparr>)"
    using assms by (simp add: on_tunnel_def with_st_def seq_def deref_def ret_def)
  then show ?thesis
    unfolding startSSHTunnels_def wait_all_def [symmetric] app_tunnel_def [symmetric]
    by (simp add: seq_def upd_def status_text_def Let_def split: outcome.split)
qed

lemma startSSHTunnels_owned:
  assumes "owned_sockets base a" and "tunnel a = None" and "tlsTunnels a = []"
  shows "owned_sockets base (snd (startSSHTunnels api a))"
proof -
  obtain r t' m where s: "ssh_Start (app_tunnel api a, mach a) = (r, (t', m))" by (metis prod.exhaust)
  let ?a1 = "a\<lparr>tunnel := Some t', mach := m,
    appStatus := Text [''Starting port forwarding''] (appStatus a)\<rparr>"
  have a1: "owned_sockets base ?a1"
  proof -
    obtain r1 t1 m1 where f: "for_each ssh_forward (forwardAddrs a) (app_tunnel api a, mach a) = (r1, (t1, m1))"
      by (metis prod.exhaust)
    have "listeners t' = listeners t1 \<and> m = m1"
      using s f by (cases r1) (auto simp: ssh_Start_def act_defs app_tunnel_def new_ssh_tunnel_def)
    moreover obtain as where "listeners t1 = as" "listening m1 = listening (mach a) @ as" "distinct as"
      "set as \<inter> set (listening (mach a)) = {}"
      using ssh_forwards_run [OF f] by (auto simp: app_tunnel_def new_ssh_tunnel_def)
    ultimately show ?thesis using assms by (simp add: owned_sockets_def ssh_sockets_def)
  qed
  have "preserves (owned_sockets base) wait_all"
    unfolding wait_all_def by (intro keeps_owned keeps)
  then have "owned_sockets base (snd (wait_all ?a1))" using a1 by (rule preservesD)
  with a1 show ?thesis
    unfolding startSSHTunnels_run [OF s] Let_def by (cases r) simp_all
qed

lemma SetupTunnels_owned:
  assumes "owned_sockets base a" and "tunnel a = None" and "tlsTunnels a = []"
  shows "owned_sockets base (snd (SetupTunnels api a))"
proof -
  obtain r1 a1 where 1: "initServiceBindings api a = (r1, a1)" by fastforce
  have "sockets a1 = sockets a"
    using preservesD [OF keeps_initServiceBindings [of "sockets a" api], of a] 1 by simp
  then have a1: "owned_sockets base a1" "tunnel a1 = None" "tlsTunnels a1 = []"
    using assms owned_sockets_cong [of a1 a] by (simp_all add: sockets_def)
  obtain r2 a2 where 2: "startSSHTunnels api a1 = (r2, a2)" by fastforce
  have a2: "owned_sockets base a2" using startSSHTunnels_owned [OF a1, of api] 2 by simp
  have "preserves (owned_sockets base) startTLSTunnels"
    unfolding startTLSTunnels_def by (intro keeps start_tls_tunnel_owned)
  then have "owned_sockets base (snd (startTLSTunnels a2))" using a2 by (rule preservesD)
  with 1 2 a1 a2 show ?thesis by (cases r1; cases r2) (simp_all add: SetupTunnels_def seq_def)
qed

section \<open>Closing them again\<close>

text \<open>Collecting the errors of steps that do not panic.\<close>

lemma collect_run: "no_panic f \<Longrightarrow> \<exists>es. collect f a = (Ok es, snd (f a))"
  by (cases "f a"; cases "fst (f a)") (auto simp: collect_def dest: no_panicD)

lemma collect_all_append:
  "collect_all (fs @ gs) = seq (collect_all fs) (\<lambda>es. seq (collect_all gs) (\<lambda>es'. ret (es @ es')))"
proof (induction fs)
  case Nil
  show ?case by (rule ext) (simp add: seq_def ret_def split: prod.split outcome.split)
next
  case (Cons f fs)
  show ?case unfolding append_Cons collect_all.simps Cons
    by (rule ext) (simp add: seq_def ret_def split: prod.split outcome.split)
qed

lemma collect_all_run:
  assumes "\<And>f. f \<in> set fs \<Longrightarrow> no_panic f \<and> preserves I f" and "I a"
  shows "\<exists>es a'. collect_all fs a = (Ok es, a') \<and> I a'"
  using assms
proof (induction fs arbitrary: a)
  case Nil
  then show ?case by (simp add: ret_def)
next
  case (Cons f fs)
  then obtain es1 where 1: "collect f a = (Ok es1, snd (f a))" using collect_run [of f a] by auto
  have "I (snd (f a))" using Cons.prems by (auto simp: preserves_def)
  then obtain es2 a' where "collect_all fs (snd (f a)) = (Ok es2, a')" "I a'"
    using Cons.IH [of "snd (f a)"] Cons.prems(1) by auto
  with 1 show ?case by (simp add: seq_def ret_def)
qed

text \<open>What the machine steps leave alone.\<close>

definition owner :: "'c app \<Rightarrow> 'c \<times> string \<times> string" where
  "owner a = (cfClient a, appGUID a, appName a)"

lemma owner_on_machine: "owner (snd (on_machine f a)) = owner a"
  by (simp add: on_machine_def owner_def split: prod.split)

lemma owner_on_tunnel: "owner (snd (on_tunnel f a)) = owner a"
  by (auto simp: on_tunnel_def with_st_def seq_def deref_def panic_def ret_def owner_def
      split: option.split prod.split)

lemma close_tls_run:
  assumes "listening (mach a) = L @ tls_sockets ts" and "distinct (tls_sockets ts)"
    and "set (tls_sockets ts) \<inter> set L = {}" and "\<forall>t \<in> set ts. listener t \<noteq> None"
  shows "\<exists>a'. collect_all (map (\<lambda>t. on_machine (tls_Stop t)) ts) a = (Ok [], a')
    \<and> listening (mach a') = L \<and> owner a' = owner a \<and> tunnel a' = tunnel a"
  using assms
proof (induction ts arbitrary: a)
  case Nil
  then show ?case by (simp add: ret_def)
next
  case (Cons t ts)
  then obtain s where s: "listener t = Some s" by auto
  have ls: "tls_sockets (t # ts) = s # tls_sockets ts" using s by (simp add: tls_sockets_def)
  have mem: "s \<in> set (listening (mach a))" "s \<notin> set L" using Cons.prems ls by auto
  let ?a1 = "a\<lparr>mach := (mach a)\<lparr>listening := remove1 s (listening (mach a))\<rparr>\<rparr>"
  have 1: "collect (on_machine (tls_Stop t)) a = (Ok [], ?a1)"
    using s mem(1) by (simp add: collect_def on_machine_def tls_Stop_def Close_def)
  have "listening (mach ?a1) = L @ tls_sockets ts"
    using Cons.prems(1) ls mem(2) by (simp add: remove1_append)
  from Cons.IH [OF this] Cons.prems ls obtain a' where
    "collect_all (map (\<lambda>t. on_machine (tls_Stop t)) ts) ?a1 = (Ok [], a')"
    "listening (mach a') = L" "owner a' = owner ?a1" "tunnel a' = tunnel ?a1" by auto
  with 1 show ?case by (auto simp: seq_def ret_def owner_def)
qed

lemma sp_Teardown_net: "preserves (\<lambda>m. listening m = L) (sp_Teardown sp)"
  using file_net(3)
  by (auto simp: preserves_def sp_Teardown_def mysql_Teardown_def ret_def split: provider.split)
    (metis prod.collapse)

lemma calm_sp_Teardown: "no_panic (sp_Teardown sp)"
  unfolding sp_Teardown_def mysql_Teardown_def by (auto intro!: calm split: provider.split)

lemma calm_destroyApp: "no_panic (destroyApp (client_impl capi))"
  unfolding destroyApp_def Let_def by (intro calm cf.calm_destroy cf.calm_refresh)

text \<open>Everything \<open>Teardown\<close> does before it destroys the app.\<close>

definition local_steps :: "'c app \<Rightarrow> ('c app, unit) act list" where
  "local_steps a = map (\<lambda>t. on_machine (tls_Stop t)) (tlsTunnels a)
     @ (if tunnel a \<noteq> None then [on_tunnel ssh_Stop] else [])
     @ map (\<lambda>(_, sp). on_machine (sp_Teardown sp)) (serviceProviders a)"

lemma local_steps_run:
  assumes "owned_sockets base a" and "case tunnel a of None \<Rightarrow> True | Some t \<Rightarrow> running t"
  shows "\<exists>es a'. collect_all (local_steps a) a = (Ok es, a') \<and> listening (mach a') = base
    \<and> owner a' = owner a"
proof -
  have o: "listening (mach a) = (base @ ssh_sockets (tunnel a)) @ tls_sockets (tlsTunnels a)"
    "distinct (tls_sockets (tlsTunnels a))"
    "set (tls_sockets (tlsTunnels a)) \<inter> set (base @ ssh_sockets (tunnel a)) = {}"
    "\<forall>t \<in> set (tlsTunnels a). listener t \<noteq> None"
    using assms(1) by (auto simp: owned_sockets_def)
  from close_tls_run [OF o] obtain a1 where
    1: "collect_all (map (\<lambda>t. on_machine (tls_Stop t)) (tlsTunnels a)) a = (Ok [], a1)"
    "listening (mach a1) = base @ ssh_sockets (tunnel a)" "owner a1 = owner a" "tunnel a1 = tunnel a"
    by blast
  obtain a2 where 2: "collect_all (if tunnel a \<noteq> None then [on_tunnel ssh_Stop] else []) a1 = (Ok [], a2)"
    "listening (mach a2) = base" "owner a2 = owner a"
  proof (cases "tunnel a")
    case None
    with 1 that [of a1] show thesis by (simp add: ret_def ssh_sockets_def)
  next
    case (Some t)
    then have t: "running t" "tunnel a1 = Some t" "listening (mach a1) = base @ listeners t"
      using assms(2) 1 by (simp_all add: ssh_sockets_def)
    have "distinct (listeners t)" "set (listeners t) \<inter> set base = {}"
      using assms(1) Some by (auto simp: owned_sockets_def ssh_sockets_def)
    from close_listeners_run [OF this t(3)]
    have c: "listening (close_listeners (listeners t) (mach a1)) = base" by blast
    let ?a2 = "a1\<lparr>tunnel := Some (t\<lparr>running := False\<rparr>), mach := close_listeners (listeners t) (mach a1)\<rparr>"
    have "on_tunnel ssh_Stop a1 = (Ok (), ?a2)"
      using t by (simp add: on_tunnel_def with_st_def seq_def deref_def ret_def ssh_Stop_def upd_def)
    then show thesis
      using that [of ?a2] Some c 1(3) by (simp add: seq_def collect_def ret_def owner_def)
  qed
  let ?I = "\<lambda>a'. listening (mach a') = base \<and> owner a' = owner a"
  have "no_panic f \<and> preserves ?I f"
    if "f \<in> set (map (\<lambda>(_, sp). on_machine (sp_Teardown sp)) (serviceProviders a))" for f
  proof -
    from that obtain sp where f: "f = on_machine (sp_Teardown sp)" by auto
    have "listening (mach (snd (f x))) = base" if "listening (mach x) = base" for x
      using preservesD [OF sp_Teardown_net that, of sp]
      by (simp add: f on_machine_def split: prod.split) (metis snd_conv)
    moreover have "owner (snd (f x)) = owner x" for x unfolding f by (rule owner_on_machine)
    ultimately show ?thesis
      unfolding f by (auto simp: preserves_def f intro!: calm calm_sp_Teardown)
  qed
  then have "\<exists>es a'. collect_all (map (\<lambda>(_, sp). on_machine (sp_Teardown sp)) (serviceProviders a)) a2 = (Ok es, a') \<and> ?I a'"
    using 2 by (intro collect_all_run) blast+
  then obtain es a3 where
    "collect_all (map (\<lambda>(_, sp). on_machine (sp_Teardown sp)) (serviceProviders a)) a2 = (Ok es, a3)" "?I a3"
    by blast
  with 1(1) 2(1) show ?thesis
    unfolding local_steps_def collect_all_append by (auto simp: seq_def ret_def)
qed

lemma Teardown_steps:
  "Teardown api a = (case collect_all (local_steps a) a of
     (Ok es, a1) \<Rightarrow>
       (if deleteApp a \<and> appGUID a \<noteq> []
        then (case collect (destroyApp api) a1 of
                (Ok es', a2) \<Rightarrow> (if es @ es' \<noteq> [] then Err (MultiError (es @ es')) else Ok (), a2)
              | (Err e, a2) \<Rightarrow> (Err e, a2) | (Panic p, a2) \<Rightarrow> (Panic p, a2))
        else (if es \<noteq> [] then Err (MultiError es) else Ok (), a1))
   | (Err e, a1) \<Rightarrow> (Err e, a1) | (Panic p, a1) \<Rightarrow> (Panic p, a1))"
proof -
  have "teardown_steps api a = local_steps a @ (if deleteApp a \<and> appGUID a \<noteq> [] then [destroyApp api] else [])"
    by (simp add: teardown_steps_def local_steps_def)
  then show ?thesis
    by (simp add: Teardown_def with_st_def collect_all_append)
      (auto simp: seq_def ret_def raise_def split: prod.split outcome.split)
qed

section \<open>Properties of the life cycle\<close>


text \<open>For the sequence of calls, the sockets of the SSH tunnel do not matter.\<close>

lemma tls_listeners_kept: "owned_sockets base a \<Longrightarrow> \<forall>t \<in> set (tlsTunnels a). listener t \<noteq> None"
  by (simp add: owned_sockets_def)

definition tear_inv :: "'c app \<Rightarrow> 'c app \<Rightarrow> bool" where
  "tear_inv a a' = (owner a' = owner a \<and> (tunnel a \<noteq> None \<longrightarrow> tunnel a' \<noteq> None))"

lemma tear_inv_on_machine: "preserves (tear_inv a) (on_machine f)"
  by (auto simp: preserves_def tear_inv_def owner_on_machine)
    (auto simp: on_machine_def split: prod.split)

lemma local_steps_owner:
  assumes "\<forall>t \<in> set (tlsTunnels a). listener t \<noteq> None"
  shows "\<exists>es a'. collect_all (local_steps a) a = (Ok es, a') \<and> owner a' = owner a"
proof -
  let ?I = "tear_inv a"
  have np: "no_panic (tls_Stop t)" if "listener t \<noteq> None" for t
    using that unfolding tls_Stop_def by (auto intro: calm)
  have tls: "\<exists>es a'. collect_all (map (\<lambda>t. on_machine (tls_Stop t)) (tlsTunnels a)) a = (Ok es, a') \<and> ?I a'"
    using assms np tear_inv_on_machine
    by (intro collect_all_run) (auto intro!: calm simp: tear_inv_def [of a a])
  have ssh: "\<exists>es a'. collect_all (if tunnel a \<noteq> None then [on_tunnel ssh_Stop] else []) a1 = (Ok es, a') \<and> ?I a'"
    if inv: "?I a1" for a1
  proof (cases "tunnel a")
    case None
    with inv show ?thesis by (simp add: ret_def)
  next
    case (Some t)
    then obtain t1 where t1: "tunnel a1 = Some t1" using inv by (auto simp: tear_inv_def)
    obtain t2 m2 where "ssh_Stop (t1, mach a1) = (Ok (), (t2, m2))"
      by (cases "running t1") (auto simp: ssh_Stop_def upd_def)
    with t1 obtain a2 where s: "on_tunnel ssh_Stop a1 = (Ok (), a2)" "tunnel a2 \<noteq> None"
      by (simp add: on_tunnel_def with_st_def seq_def deref_def ret_def)
    have "owner a2 = owner a1" using owner_on_tunnel [of ssh_Stop a1] s(1) by simp
    with inv Some s show ?thesis by (simp add: seq_def collect_def ret_def tear_inv_def)
  qed
  have sp: "\<exists>es a'. collect_all (map (\<lambda>(_, sp). on_machine (sp_Teardown sp)) (serviceProviders a)) a2 = (Ok es, a') \<and> ?I a'"
    if "?I a2" for a2
    using that tear_inv_on_machine by (intro collect_all_run) (auto intro!: calm calm_sp_Teardown)
  from tls obtain es1 a1 where 1: "collect_all (map (\<lambda>t. on_machine (tls_Stop t)) (tlsTunnels a)) a = (Ok es1, a1)" "?I a1"
    by blast
  from ssh [OF 1(2)] obtain es2 a2 where
    2: "collect_all (if tunnel a \<noteq> None then [on_tunnel ssh_Stop] else []) a1 = (Ok es2, a2)" "?I a2" by blast
  from sp [OF 2(2)] obtain es3 a3 where
    3: "collect_all (map (\<lambda>(_, sp). on_machine (sp_Teardown sp)) (serviceProviders a)) a2 = (Ok es3, a3)" "?I a3"
    by blast
  from 1(1) 2(1) 3 show ?thesis
    unfolding local_steps_def collect_all_append by (auto simp: seq_def ret_def tear_inv_def)
qed

lemma Teardown_calls:
  assumes "\<forall>t \<in> set (tlsTunnels a). listener t \<noteq> None"
    and "Teardown (logged (client_impl capi)) a = (r, a')"
  shows "(\<forall>p. r \<noteq> Panic p) \<and> (if deleteApp a \<and> appGUID a \<noteq> []
    then \<exists>k \<in> {1, 2, 3}. call_log a' = call_log a @ take k [C_Destroy (appGUID a), C_Refresh, C_Destroy (appGUID a)]
    else call_log a' = call_log a)"
proof -
  let ?api = "logged (client_impl capi)"
  from local_steps_owner [OF assms(1)] obtain es ax where
    1: "collect_all (local_steps a) a = (Ok es, ax)" "owner ax = owner a" by blast
  then have ow: "cfClient ax = cfClient a" "appGUID ax = appGUID a" by (simp_all add: owner_def)
  obtain rd ad where d: "destroyApp ?api ax = (rd, ad)" by (metis prod.exhaust)
  then have k: "\<exists>k \<in> {1, 2, 3}. call_log ad = call_log ax @ take k [C_Destroy (appGUID ax), C_Refresh, C_Destroy (appGUID ax)]"
    and np: "rd \<noteq> Panic p" for p
    using destroyApp_run [where capi = capi and a = ax] by auto
  from np d obtain es' where "collect (destroyApp ?api) ax = (Ok es', ad)"
    by (cases rd) (auto simp: collect_def)
  then show ?thesis
    using assms(2) 1(1) ow k by (auto simp: Teardown_steps split: if_splits)
qed

text \<open>
  Property C10: the helper app is destroyed at the end, with at most two attempts, whatever the other
  clean-up steps report; an app that is to be kept, or that was never created, is never
  destroyed, and no other call is made.
\<close>

theorem Teardown_destroys:
  assumes "\<forall>t \<in> set (tlsTunnels a). listener t \<noteq> None"
    and "Teardown (logged (client_impl capi)) a = (r, a')"
  shows "if deleteApp a \<and> appGUID a \<noteq> []
    then \<exists>k \<in> {1, 2, 3}. call_log a' = call_log a @ take k [C_Destroy (appGUID a), C_Refresh, C_Destroy (appGUID a)]
    else call_log a' = call_log a"
  using Teardown_calls [OF assms] by blast

lemma demo_setup:
  "case SetupTunnels (demo_client_api demo_env) (demo_app [''cache'', ''db''] [''redis-cli'']) of (r, a1) \<Rightarrow>
     is_ok r \<and> (case tunnel a1 of None \<Rightarrow> False | Some t \<Rightarrow> running t) \<and> length (listening (mach a1)) = 3
     \<and> deleteApp a1 \<and> appGUID a1 = ''app-guid''"
  by code_simp


theorem Teardown_destroys_witness:
  "\<exists>r a'. Teardown (demo_logged [] []) ((demo_target [] [])\<lparr>appGUID := ''app-guid''\<rparr>) = (r, a')
     \<and> call_log a' = [C_Destroy ''app-guid'']"
proof -
  let ?a = "(demo_target [] [])\<lparr>appGUID := ''app-guid''\<rparr>"
  obtain r a' where t: "Teardown (demo_logged [] []) ?a = (r, a')" by (metis prod.exhaust)
  have o: "\<forall>t \<in> set (tlsTunnels ?a). listener t \<noteq> None"
    and f: "deleteApp ?a" "appGUID ?a = ''app-guid''" "call_log ?a = []"
    by (simp_all add: demo_target_def NewApp_def)
  have "length (call_log (snd (Teardown (demo_logged [] []) ?a))) = 1" by code_simp
  then have "length (call_log a') = 1" using t by simp
  with Teardown_destroys [OF o t] f t show ?thesis by auto
qed

section \<open>What is open while the command runs\<close>

lemma sint_nonzero: "(p :: int64) \<noteq> 0 \<Longrightarrow> sint p \<noteq> 0"
  by (metis signed_0 signed_word_eqI)

lemma ssh_forwards_addrs:
  assumes "for_each ssh_forward fwds (t, m) = (Ok (), (t', m'))" and "\<forall>f \<in> set fwds. LocalPort f \<noteq> 0"
  shows "listeners t' = listeners t @ map (\<lambda>f. loopback (LocalPort f)) fwds"
  using assms
proof (induction fwds arbitrary: t m)
  case Nil
  then show ?case by (simp add: ret_def)
next
  case (Cons f fwds)
  from Cons.prems(1) obtain u t1 m1 where 1: "ssh_forward f (t, m) = (Ok u, (t1, m1))"
    and rest: "for_each ssh_forward fwds (t1, m1) = (Ok (), (t', m'))" by (auto elim: seq_OkE)
  obtain x mx where l: "Listen (addr_text ''localhost'' (LocalPort f)) m = (x, mx)" by fastforce
  have "LocalPort f \<noteq> 0" using Cons.prems(2) by simp
  then have "listeners t1 = listeners t @ [loopback (LocalPort f)]"
    using 1 l Listen_local [OF l] sint_nonzero
    by (cases x) (auto simp: ssh_forward_def LocalAddress_def loopback_def)
  with Cons.IH [OF rest] Cons.prems(2) show ?case by simp
qed

lemma wait_for_frame:
  "wait_for addr a = (r, a') \<Longrightarrow>
     tunnel a' = tunnel a \<and> tlsTunnels a' = tlsTunnels a \<and> forwardAddrs a' = forwardAddrs a"
  by (auto simp: wait_for_def split: prod.splits option.splits)

lemma start_tls_tunnels_addrs:
  assumes "for_each start_tls_tunnel fs a = (Ok (), a')"
  shows "tls_sockets (tlsTunnels a') = tls_sockets (tlsTunnels a)
      @ map (\<lambda>f. loopback (TLSTunnelPort f)) (filter (\<lambda>f. TLSTunnelPort f \<noteq> 0) fs)
    \<and> tunnel a' = tunnel a \<and> forwardAddrs a' = forwardAddrs a"
  using assms
proof (induction fs arbitrary: a)
  case Nil
  then show ?case by (simp add: ret_def)
next
  case (Cons f fs)
  from Cons.prems obtain u a1 where 1: "start_tls_tunnel f a = (Ok u, a1)"
    and rest: "for_each start_tls_tunnel fs a1 = (Ok (), a')" by (auto elim: seq_OkE)
  show ?case
  proof (cases "TLSTunnelPort f = 0")
    case True
    with 1 Cons.IH [OF rest] show ?thesis by (simp add: start_tls_tunnel_def ret_def)
  next
    case False
    let ?t = "tls_NewTunnel (TLSTunnelAddress f) (LocalAddress f) (RemoteAddr f)
                  (appTlsInsecure a) (appTlsCipherSuites a) (appTlsMinVersion a)"
    obtain r t' m where s: "tls_Start (?t, mach a) = (r, (t', m))" by (metis prod.exhaust)
    have "localAddr ?t = addr_text ''localhost'' (TLSTunnelPort f)"
      by (simp add: tls_NewTunnel_def TLSTunnelAddress_def)
    note T = tls_Start_run [OF s this]
    obtain v where r: "r = Ok v"
      using 1 s False by (cases r) (auto simp: start_tls_tunnel_def app_run Let_def)
    have "wait_for (TLSTunnelAddress f) (a\<lparr>mach := m, tlsTunnels := tlsTunnels a @ [t']\<rparr>) = (Ok u, a1)"
      using 1 s False r by (simp add: start_tls_tunnel_def app_run Let_def)
    from wait_for_frame [OF this] T r False sint_nonzero Cons.IH [OF rest] show ?thesis by auto
  qed
qed

lemma wait_all_frame:
  fixes a a' :: "'a app"
  shows "wait_all a = (r, a') \<Longrightarrow> tunnel a' = tunnel a \<and> tlsTunnels a' = tlsTunnels a \<and> forwardAddrs a' = forwardAddrs a"
proof -
  let ?I = "\<lambda>x :: 'a app. tunnel x = tunnel a \<and> tlsTunnels x = tlsTunnels a \<and> forwardAddrs x = forwardAddrs a"
  have w: "preserves ?I (wait_for addr)" for addr
  proof (rule preservesI)
    fix x assume "?I x"
    then show "?I (snd (wait_for addr x))"
      using wait_for_frame [of addr x "fst (wait_for addr x)" "snd (wait_for addr x)"] by simp
  qed
  have "preserves ?I (status_text args)" for args
    unfolding status_text_def by (rule preserves_upd) simp
  with w have "preserves ?I wait_all" unfolding wait_all_def by (intro keeps)
  then show "wait_all a = (r, a') \<Longrightarrow> ?I a'" by (auto dest!: preservesD [of _ _ a])
qed

text \<open>
  Property C8: after a successful set-up the process listens, beyond what it did before, on exactly
  the local ports of the tunnels and the ports of their TLS ends, all on the loopback
  interface (for ports that are not 0).
\<close>

theorem setup_opens_tunnels:
  assumes "tunnel a = None" and "tlsTunnels a = []"
    and "SetupTunnels api a = (Ok (), a')" and "\<forall>f \<in> set (forwardAddrs a'). LocalPort f \<noteq> 0"
  shows "set (listening (mach a')) = set (listening (mach a))
    \<union> {loopback p | p f. f \<in> set (forwardAddrs a') \<and> p \<in> set (forward_ports f)}"
proof -
  from assms(3) obtain u1 a1 u2 a2 where 1: "initServiceBindings api a = (Ok u1, a1)"
    and 2: "startSSHTunnels api a1 = (Ok u2, a2)" and 3: "startTLSTunnels a2 = (Ok (), a')"
    unfolding SetupTunnels_def by (auto elim!: seq_OkE)
  have s1: "tunnel a1 = None" "tlsTunnels a1 = []"
    using preservesD [OF keeps_initServiceBindings [of "sockets a" api], of a] 1 assms(1,2)
    by (simp_all add: sockets_def)
  obtain r t' m where s: "ssh_Start (app_tunnel api a1, mach a1) = (r, (t', m))" by (metis prod.exhaust)
  let ?ax = "a1\<lparr>tunnel := Some t', mach := m, appStatus := Text [''Starting port forwarding''] (appStatus a1)\<rparr>"
  obtain v where r: "r = Ok v" and w: "wait_all ?ax = (Ok u2, a2)"
    using 2 unfolding startSSHTunnels_run [OF s] Let_def by (cases r) auto
  have f2: "tunnel a2 = Some t'" "tlsTunnels a2 = []" "forwardAddrs a2 = forwardAddrs a1"
    using wait_all_frame [OF w] s1 by simp_all
  from start_tls_tunnels_addrs [of "forwardAddrs a2" a2 a'] 3 have
    f3: "tls_sockets (tlsTunnels a') = map (\<lambda>f. loopback (TLSTunnelPort f)) (filter (\<lambda>f. TLSTunnelPort f \<noteq> 0) (forwardAddrs a2))"
    "tunnel a' = Some t'" "forwardAddrs a' = forwardAddrs a1"
    using f2 by (simp_all add: startTLSTunnels_def with_st_def)
  obtain r1 t1 m1 where f: "for_each ssh_forward (forwardAddrs a1) (app_tunnel api a1, mach a1) = (r1, (t1, m1))"
    by (metis prod.exhaust)
  have "r1 = Ok () \<and> listeners t' = listeners t1"
    using s f r by (cases r1) (auto simp: ssh_Start_def act_defs app_tunnel_def new_ssh_tunnel_def)
  then have "listeners t' = map (\<lambda>f. loopback (LocalPort f)) (forwardAddrs a1)"
    using ssh_forwards_addrs [of "forwardAddrs a1" _ _ t1 m1] f assms(4) f3(3)
    by (auto simp: app_tunnel_def new_ssh_tunnel_def)
  moreover have "owned_sockets (listening (mach a)) a"
    using assms(1,2) by (simp add: owned_sockets_def ssh_sockets_def)
  then have "owned_sockets (listening (mach a)) (snd (SetupTunnels api a))"
    using assms(1,2) by (rule SetupTunnels_owned)
  ultimately have "listening (mach a') = listening (mach a) @ map (\<lambda>f. loopback (LocalPort f)) (forwardAddrs a')
      @ map (\<lambda>f. loopback (TLSTunnelPort f)) (filter (\<lambda>f. TLSTunnelPort f \<noteq> 0) (forwardAddrs a'))"
    using assms(3) f3 f2(3) by (simp add: owned_sockets_def ssh_sockets_def)
  then show ?thesis by (auto simp: forward_ports_def)
qed

theorem setup_opens_tunnels_witness:
  "\<exists>a'. SetupTunnels (demo_client_api demo_env) (demo_app [''cache'', ''db''] [''redis-cli'']) = (Ok (), a')
     \<and> {loopback p | p f. f \<in> set (forwardAddrs a') \<and> p \<in> set (forward_ports f)} = set (listening (mach a'))"
proof -
  let ?a = "demo_app [''cache'', ''db''] [''redis-cli'']"
  obtain r a1 where s: "SetupTunnels (demo_client_api demo_env) ?a = (r, a1)" by (metis prod.exhaust)
  with demo_setup have r: "r = Ok ()" by (auto elim: is_okE)
  have "list_all (\<lambda>f. LocalPort f \<noteq> 0) (forwardAddrs (snd (SetupTunnels (demo_client_api demo_env) ?a)))"
    by code_simp
  then have p: "\<forall>f \<in> set (forwardAddrs a1). LocalPort f \<noteq> 0" using s by (simp add: list_all_iff)
  have f: "tunnel ?a = None" "tlsTunnels ?a = []" "listening (mach ?a) = []"
    by (simp_all add: demo_app_def NewApp_def demo_machine_def)
  from setup_opens_tunnels [OF f(1,2) s [unfolded r] p] s r f(3) show ?thesis by simp
qed

section \<open>The command\<close>

lemma args_never_fail: "sp_AdditionalProgramArgs sp sis \<noteq> Err e"
  by (auto simp: sp_AdditionalProgramArgs_def redis_args_def influx_args_def Let_def
      split: provider.split list.split option.split)

lemma getProgramSpecificArgs_run:
  assumes "getProgramSpecificArgs prog a = (r, a')"
  shows "a' = a \<and> r \<noteq> Err e"
  using assms args_never_fail
  by (auto simp: getProgramSpecificArgs_def get_services_def app_run of_outcome_def
      split: option.splits prod.splits)

definition run_process :: "string \<Rightarrow> string list \<Rightarrow> ('c app, unit) act" where
  "run_process exe args = with_st (\<lambda>a.
         andthen (upd (\<lambda>a. a\<lparr>appStatus := Done (appStatus a)\<rparr>))
         (andthen (on_err (on_machine (start_process exe args
                     (environ (mach a) @ map env_line (runEnv a))))
                   (\<lambda>e. raise (ErrorString (exe @ '': '' @ error_text e))))
         (seq (on_machine wait_process) (\<lambda>code.
         case code of
           None \<Rightarrow> ret ()
         | Some n \<Rightarrow> if n \<noteq> 0 then raise (AppExecution n) else ret ()))))"

lemma run_process_run:
  "case run_process exe args a of (r, a') \<Rightarrow>
     runs (mach a') = runs (mach a) \<and> (\<exists>t. r = Err (ErrorString t))
     \<or> runs (mach a') = runs (mach a) @ [\<lparr>runExe = exe, runArgv = args,
              runEnviron = environ (mach a) @ map env_line (runEnv a)\<rparr>]
        \<and> r = (case exitCode (mach a) (Suc (length (runs (mach a)))) of
                 None \<Rightarrow> Ok () | Some n \<Rightarrow> if n \<noteq> 0 then Err (AppExecution n) else Ok ())"
proof (cases "outage (mach a) (calls (mach a))")
  case (Some e)
  then show ?thesis
    by (simp add: run_process_def app_run on_machine_def start_process_def faulty_def Let_def)
next
  case None
  then show ?thesis
    by (simp add: run_process_def app_run on_machine_def start_process_def faulty_def Let_def
        wait_process_def get_st_def split: option.split)
qed

lemma RunCommand_eq:
  "RunCommand = with_st (\<lambda>a.
     andthen (status_text [''Preparing command:'', join '' '' (runArgs a)])
     (seq (getProgramSpecificArgs (program a)) (\<lambda>extraArgs.
     if runArgs a = [] then panic slice_bounds
     else (case path (mach a) (program a) of
       None \<Rightarrow> raise (ErrorString (''cannot find '' @ quoted (program a) @ '' in PATH''))
     | Some exe \<Rightarrow> run_process exe (extraArgs @ tl (runArgs a))))))"
  unfolding RunCommand_def run_process_def Let_def ..

text \<open>
  Running the command starts at most one process: the program found in the path, with
  the provider's arguments before the user's, and the environment extended by the prepared
  variables. Its exit code is the result; without a started process the result is neither
  success nor an exit code.
\<close>

theorem RunCommand_result:
  "case RunCommand a of (r, a') \<Rightarrow>
     runs (mach a') = runs (mach a) \<and> r \<noteq> Ok () \<and> \<not> (\<exists>n. r = Err (AppExecution n))
     \<or> (\<exists>exe extra. path (mach a) (program a) = Some exe \<and> runArgs a \<noteq> []
        \<and> runs (mach a') = runs (mach a) @ [\<lparr>runExe = exe, runArgv = extra @ tl (runArgs a),
              runEnviron = environ (mach a) @ map env_line (runEnv a)\<rparr>]
        \<and> r = (case exitCode (mach a) (Suc (length (runs (mach a)))) of
                 None \<Rightarrow> Ok () | Some n \<Rightarrow> if n \<noteq> 0 then Err (AppExecution n) else Ok ()))"
proof -
  let ?a1 = "a\<lparr>appStatus := Text [''Preparing command:'', join '' '' (runArgs a)] (appStatus a)\<rparr>"
  obtain x a2 where x: "getProgramSpecificArgs (program a) ?a1 = (x, a2)" by fastforce
  have g: "a2 = ?a1" "\<And>e. x \<noteq> Err e" using getProgramSpecificArgs_run [OF x] by blast+
  show ?thesis
  proof (cases "\<exists>extra exe. x = Ok extra \<and> runArgs a \<noteq> [] \<and> path (mach a) (program a) = Some exe")
    case True
    then obtain extra exe where e: "x = Ok extra" "runArgs a \<noteq> []" "path (mach a) (program a) = Some exe"
      by blast
    have run: "RunCommand a = run_process exe (extra @ tl (runArgs a)) ?a1"
      using x g e by (simp add: RunCommand_eq app_run)
    obtain r a' where p: "run_process exe (extra @ tl (runArgs a)) ?a1 = (r, a')" by fastforce
    from run_process_run [where exe = exe and args = "extra @ tl (runArgs a)" and a = ?a1] p e show ?thesis
      unfolding run by auto
  next
    case False
    then show ?thesis
      using x g by (cases x) (auto simp: RunCommand_eq app_run split: option.split)
  qed
qed

end
