(* ===== verification/Command.thy ===== *)
theory Command
  imports Running TlsOptions
begin

text \<open>
  The command line (main.go, conduit.go, plugin.go): the flags with their defaults, the check of
  the arguments, the run of the command with its deferred clean-up, and the plugin's exit code.
  The parsing of flags is cobra's and is a parameter.
\<close>

section \<open>Flags\<close>

text \<open>The package variables of main.go that the flags are bound to.\<close>

record flags =
  Verbose :: bool
  NonInteractive :: bool
  ConduitNoDelete :: bool
  ConduitExistingApp :: bool
  ConduitReuse :: bool
  ConduitAppName :: string
  ConduitOrg :: string
  ConduitSpace :: string
  ConduitLocalPort :: int64
  ApiEndpoint :: string
  ApiToken :: string
  ApiInsecure :: bool
  RawBindParameters :: string
  CipherSuites :: "string list"
  MinTLSVersion :: string

text \<open>
  What \<open>main\<close> leaves in them before the arguments are parsed: the defaults of the flags, then the
  two environment variables. An unset variable reads as the empty string.
\<close>

definition main_flags :: "bool \<Rightarrow> (string \<Rightarrow> string) \<Rightarrow> flags" where
  "main_flags terminal getenv =
     \<lparr>Verbose = False, NonInteractive = (\<not> terminal), ConduitNoDelete = False,
      ConduitExistingApp = False, ConduitReuse = False, ConduitAppName = [], ConduitOrg = [],
      ConduitSpace = [], ConduitLocalPort = 7080, ApiEndpoint = [], ApiToken = [],
      ApiInsecure = False, RawBindParameters = ''{}'',
      CipherSuites = (if getenv ''CF_CONDUIT_CIPHERSUITES'' \<noteq> []
        then split_on CHR '','' (getenv ''CF_CONDUIT_CIPHERSUITES'') else []),
      MinTLSVersion = (if getenv ''CF_CONDUIT_MIN_TLS_VERSION'' \<noteq> []
        then getenv ''CF_CONDUIT_MIN_TLS_VERSION'' else ''TLS12'')\<rparr>"

section \<open>Arguments\<close>

definition no_instance :: gerror where
  "no_instance = ErrorString ''requires at least one SERVICE_INSTANCE argument to be specified''"

text \<open>\<open>dash\<close> is \<open>ArgsLenAtDash\<close>: the number of arguments before \<open>--\<close>, or -1 without it.\<close>

definition check_args :: "int \<Rightarrow> string list \<Rightarrow> gerror option" where
  "check_args dash args =
     (if dash > -1 then (if dash < 1 then Some no_instance else None)
      else if length args < 1 then Some no_instance else None)"

definition split_args :: "int \<Rightarrow> string list \<Rightarrow> (string list \<times> string list) outcome" where
  "split_args dash args =
     (if dash > -1
      then (if dash > int (length args) then Panic slice_bounds
            else Ok (take (nat dash) args, drop (nat dash) args))
      else Ok (args, []))"

definition propagate_alias :: "flags \<Rightarrow> flags" where
  "propagate_alias f =
     (if ConduitNoDelete f \<or> ConduitReuse f \<or> ConduitExistingApp f
      then f\<lparr>ConduitNoDelete := True, ConduitReuse := True\<rparr> else f)"

text \<open>\<open>intn i\<close> is the i-th draw of the generator; a byte conversion keeps the low 8 bits.\<close>

definition random_byte :: "int \<Rightarrow> char" where
  "random_byte r = (if r \<le> 25 then char_of (97 + r) else char_of (22 + r))"

definition GenerateRandomString :: "nat \<Rightarrow> (nat \<Rightarrow> int) \<Rightarrow> string" where
  "GenerateRandomString n intn = map (\<lambda>i. random_byte (intn i)) [0..<n]"

definition choose_name :: "(nat \<Rightarrow> int) \<Rightarrow> flags \<Rightarrow> gerror + flags" where
  "choose_name intn f =
     (if ConduitAppName f = []
      then (if ConduitExistingApp f
            then Inl (ErrorString ''must specify --app-name of existing app to reuse'')
            else Inr (f\<lparr>ConduitAppName := ''__conduit_'' @ GenerateRandomString 8 intn @ ''__''\<rparr>))
      else Inr f)"

section \<open>Connecting\<close>

text \<open>
  The surroundings of the command: go-cfclient and the \<open>cf\<close> command, the cipher suites that
  \<open>crypto/tls\<close> lists, the random generator, the green \<open>OK\<close>, and what stands for the nil handle
  and info of a client that is not initialised. The shell is the state before the application
  exists.
\<close>

record 'w surroundings =
  suCf :: "'w cfapi"
  suSecure :: "(string \<times> uint16) list"
  suInsecure :: "(string \<times> uint16) list"
  suIntn :: "nat \<Rightarrow> int"
  suOk :: string
  suHandle :: cf_config
  suInfo :: cf_info

record 'w shell =
  shWorld :: 'w
  shMachine :: machine
  shStatus :: status

definition bind_params :: "'w cfapi \<Rightarrow> string \<Rightarrow> gerror + gval" where
  "bind_params api raw =
     (case unmarshal (dec_map dec_iface GNil) raw None of
        (m, ok) \<Rightarrow> if ok then Inr (case m of None \<Rightarrow> GNil | Some p \<Rightarrow> GMap p)
          else Inl (ErrorString (''Could not parse bind parameters as JSON: '' @ api_JsonError api raw)))"

definition connect ::
  "'w surroundings \<Rightarrow> flags \<Rightarrow> ('w shell, client \<times> uint16 list \<times> uint16 \<times> gval) act" where
  "connect su f =
     seq (of_sum (CipherSuiteNamesToIDs (suSecure su) (suInsecure su) (CipherSuites f))) (\<lambda>suites.
     seq (of_sum (TLSVersionToID (MinTLSVersion f))) (\<lambda>version.
     andthen (upd (\<lambda>sh. sh\<lparr>shStatus := Text [''Connecting client''] (shStatus sh)\<rparr>))
     (seq (\<lambda>sh. case NewClient (suCf su) (suHandle su) (suInfo su) (ApiEndpoint f) (ApiToken f)
                   (ApiInsecure f) suites version (shWorld sh) of
             (Inl e, w) \<Rightarrow> (Err e, sh\<lparr>shWorld := w\<rparr>) | (Inr c, w) \<Rightarrow> (Ok c, sh\<lparr>shWorld := w\<rparr>)) (\<lambda>c.
     seq (\<lambda>sh. case PortIsInUse (ConduitLocalPort f) (shMachine sh) of
             (b, m) \<Rightarrow> (Ok b, sh\<lparr>shMachine := m\<rparr>)) (\<lambda>used.
     if used then raise (ErrorString (''Port '' @ itoa64 (ConduitLocalPort f) @ '' is already in use''))
     else seq (of_sum (bind_params (suCf su) (RawBindParameters f))) (\<lambda>params.
     ret (c, suites, version, params)))))))"

definition fresh_providers :: "provider gomap" where
  "fresh_providers = [(''mysql'', MySQL \<lparr>workDir = [], myServiceCnt = 0\<rparr>),
     (''postgres'', Postgres \<lparr>pgServiceCnt = 0\<rparr>), (''redis'', Redis), (''influxdb'', InfluxDB)]"

definition make_app ::
  "flags \<Rightarrow> string list \<Rightarrow> string list \<Rightarrow> 'c \<Rightarrow> uint16 list \<Rightarrow> uint16 \<Rightarrow> gval \<Rightarrow> machine \<Rightarrow> status \<Rightarrow> 'c app" where
  "make_app f names args c suites version params m st =
     fold (\<lambda>(name, sp). RegisterServiceProvider name sp) fresh_providers
       (NewApp c st m (ConduitLocalPort f) (ConduitOrg f) (ConduitSpace f) (ConduitAppName f)
          (\<not> ConduitNoDelete f) names args params (ApiInsecure f) suites version)"

section \<open>The session\<close>

text \<open>
  The body of the command once the application exists. It ends with True where it waits for the
  shutdown channel.
\<close>

definition finish_status :: "('c app, unit) act" where
  "finish_status = upd (\<lambda>a. a\<lparr>appStatus := Done (appStatus a)\<rparr>)"

definition session_body :: "'c client_api \<Rightarrow> bool \<Rightarrow> bool \<Rightarrow> ('c app, bool) act" where
  "session_body api existing verb =
     andthen (app_Init api)
     (andthen (if existing then PrepareForExistingApp api else DeployApp api)
     (andthen (SetupTunnels api)
     (andthen finish_status
     (with_st (\<lambda>a.
       andthen (if verb \<or> runArgs a = [] then PrintConnectionInfo else ret ())
       (if runArgs a \<noteq> [] then andthen RunCommand (ret False)
        else andthen (print_err (nl @ ''Press Ctrl+C to shutdown.'' @ nl)) (ret True)))))))"

text \<open>
  The deferred calls, last registered first: the clean-up, whose error is logged, and the end of
  the status line. They run whatever the outcome is; a panic of the clean-up takes the place of
  the outcome.
\<close>

definition session_end :: "'c client_api \<Rightarrow> 'a outcome \<Rightarrow> ('c app, 'a) act" where
  "session_end api r = (\<lambda>a.
     case Teardown api a of
       (Ok _, a1) \<Rightarrow> (r, snd (finish_status a1))
     | (Err e, a1) \<Rightarrow> (r, snd (finish_status (snd (print_err (sprintln [error_text e]) a1))))
     | (Panic p, a1) \<Rightarrow> (Panic p, snd (finish_status a1)))"

text \<open>
  \<open>signals\<close> counts the signals the process gets. The first one closes the shutdown channel; a
  session that waits for it without one does not end, which is the result None.
\<close>

definition app_session ::
  "'c client_api \<Rightarrow> bool \<Rightarrow> bool \<Rightarrow> nat \<Rightarrow> 'c app \<Rightarrow> (unit outcome \<times> 'c app) option" where
  "app_session api existing verb signals a =
     (case session_body api existing verb a of
        (Ok True, a1) \<Rightarrow> if signals = 0 then None else Some (session_end api (Ok ()) a1)
      | (Ok False, a1) \<Rightarrow> Some (session_end api (Ok ()) a1)
      | (Err e, a1) \<Rightarrow> Some (session_end api (Err e) a1)
      | (Panic p, a1) \<Rightarrow> Some (session_end api (Panic p) a1))"

text \<open>How the command ends: without an application, or with one.\<close>

datatype 'w ended = Without_app "'w shell option" | With_app "'w cst app"

text \<open>\<open>RunE\<close> of the command, on a world and a machine.\<close>

definition RunE ::
  "'w surroundings \<Rightarrow> flags \<Rightarrow> int \<Rightarrow> string list \<Rightarrow> nat \<Rightarrow> 'w \<Rightarrow> machine \<Rightarrow> (unit outcome \<times> 'w ended) option" where
  "RunE su flags dash args signals w m =
     (case split_args dash args of
        Err e \<Rightarrow> Some (Err e, Without_app None)
      | Panic p \<Rightarrow> Some (Panic p, Without_app None)
      | Ok (names, runargs) \<Rightarrow>
          (case choose_name (suIntn su) (propagate_alias flags) of
             Inl e \<Rightarrow> Some (Err e, Without_app None)
           | Inr f \<Rightarrow>
               (let sh = \<lparr>shWorld = w, shMachine = m,
                          shStatus = NewStatus (NonInteractive f) (Verbose f) (suOk su)\<rparr>;
                    done = (\<lambda>sh. sh\<lparr>shStatus := Done (shStatus sh)\<rparr>)
                in case connect su f sh of
                     (Err e, sh1) \<Rightarrow> Some (Err e, Without_app (Some (done sh1)))
                   | (Panic p, sh1) \<Rightarrow> Some (Panic p, Without_app (Some (done sh1)))
                   | (Ok (c, suites, version, params), sh1) \<Rightarrow>
                       map_option (\<lambda>(r, a). (r, With_app a))
                         (app_session (client_impl (suCf su)) (ConduitExistingApp f) (Verbose f) signals
                            (make_app f names runargs (c, shWorld sh1) suites version params
                               (shMachine sh1) (shStatus sh1))))))"

section \<open>The plugin\<close>

text \<open>What the \<open>cf\<close> command line tells the plugin.\<close>

record cli_connection =
  GetCurrentOrg :: "gerror + string"
  GetCurrentSpace :: "gerror + string"
  CliApiEndpoint :: "gerror + string"
  CliAccessToken :: "gerror + string"
  IsSSLDisabled :: "gerror + bool"

definition plugin_defaults :: "cli_connection \<Rightarrow> flags \<Rightarrow> gerror + flags" where
  "plugin_defaults conn f =
     (case GetCurrentOrg conn of Inl e \<Rightarrow> Inl e | Inr o' \<Rightarrow>
      case GetCurrentSpace conn of Inl e \<Rightarrow> Inl e | Inr sp \<Rightarrow>
      case CliApiEndpoint conn of Inl e \<Rightarrow> Inl e | Inr api \<Rightarrow>
      case CliAccessToken conn of Inl e \<Rightarrow> Inl e | Inr tok \<Rightarrow>
      case IsSSLDisabled conn of Inl e \<Rightarrow> Inl e | Inr insecure \<Rightarrow>
        Inr ((f\<lparr>ConduitOrg := o', ConduitSpace := sp, ApiEndpoint := api, ApiToken := tok\<rparr>)
              \<lparr>ApiInsecure := ApiInsecure f \<or> insecure\<rparr>))"

text \<open>
  What cobra makes of the arguments: the command found, with its positional arguments, or the
  help text. The uninstall hook does nothing.
\<close>

datatype cobra_command = Cmd_conduit int "string list" | Cmd_uninstall | Cmd_help

text \<open>
  The exit code of a run. A panic ends a Go program with code 2; None is a run that does not end.
\<close>

definition exit_code :: "unit outcome \<Rightarrow> int" where
  "exit_code r = (case r of
     Ok _ \<Rightarrow> 0 | Err e \<Rightarrow> (case e of AppExecution n \<Rightarrow> n | _ \<Rightarrow> 1) | Panic p \<Rightarrow> 2)"

definition plugin_Run ::
  "'w surroundings \<Rightarrow> (flags \<Rightarrow> string list \<Rightarrow> gerror + (flags \<times> cobra_command))
     \<Rightarrow> flags \<Rightarrow> cli_connection \<Rightarrow> string list \<Rightarrow> nat \<Rightarrow> 'w \<Rightarrow> machine \<Rightarrow> (int \<times> 'w ended) option" where
  "plugin_Run su parse f conn args signals w m =
     (case plugin_defaults conn f of
        Inl e \<Rightarrow> Some (1, Without_app None)
      | Inr f1 \<Rightarrow>
          (case parse f1 args of
             Inl e \<Rightarrow> Some (exit_code (Err e), Without_app None)
           | Inr (f2, Cmd_help) \<Rightarrow> Some (0, Without_app None)
           | Inr (f2, Cmd_uninstall) \<Rightarrow> Some (0, Without_app None)
           | Inr (f2, Cmd_conduit dash rest) \<Rightarrow>
               (case check_args dash rest of
                  Some e \<Rightarrow> Some (exit_code (Err e), Without_app None)
                | None \<Rightarrow> map_option (\<lambda>(r, x). (exit_code r, x)) (RunE su f2 dash rest signals w m))))"

text \<open>The metadata lists the commands that are not hidden.\<close>

record cobra_info =
  cobraName :: string
  cobraLong :: string
  cobraUsage :: string
  cobraHidden :: bool

record plugin_command =
  pcName :: string
  pcHelpText :: string
  pcUsage :: string

record plugin_metadata =
  pmName :: string
  pmVersion :: "int \<times> int \<times> int"
  pmMinCliVersion :: "int \<times> int \<times> int"
  pmCommands :: "plugin_command list"

definition GetMetadata :: "cobra_info list \<Rightarrow> plugin_metadata" where
  "GetMetadata cmds =
     \<lparr>pmName = ''conduit'', pmVersion = (0, 1, 2), pmMinCliVersion = (6, 26, 0),
      pmCommands = map (\<lambda>c. \<lparr>pcName = cobraName c, pcHelpText = cobraLong c, pcUsage = cobraUsage c\<rparr>)
        (filter (\<lambda>c. \<not> cobraHidden c) cmds)\<rparr>"

end
