(* ===== verification/SessionFrame.thy ===== *)
theory SessionFrame
  imports Command Lifecycle
begin

text \<open>
  What a run of the command keeps, stated once: an invariant that the single steps of the set-up
  and of the command keep is kept by the body of the session, whatever its outcome.
\<close>

section \<open>Invariants of the set-up of the bindings\<close>

text \<open>
  The set-up of the bindings changes the fetched environment, the ports, the environment of the
  program and, through the provider of the program, the machine.
\<close>

locale binding_invariant =
  fixes I :: "'m app_core_scheme \<Rightarrow> bool"
  assumes fetched: "I a \<Longrightarrow> I (a\<lparr>appEnv := e\<rparr>)"
    and forwards: "I a \<Longrightarrow> I (a\<lparr>nextPort := p, forwardAddrs := fs\<rparr>)"
    and published: "I a \<Longrightarrow> I (a\<lparr>runEnv := AList.update ''VCAP_SERVICES'' v (runEnv a)\<rparr>)"
    and initialised: "I a \<Longrightarrow> map_of (serviceProviders a) k = Some sp \<Longrightarrow> I (snd (init_program_env k sp c a))"
begin

lemma kept_put_services: "preserves I (put_services m)"
  unfolding put_services_def by (intro preserves_upd fetched)

lemma kept_scan_wanted:
  assumes "I a" and "vsInstanceName si \<in> set u" and sp: "map_of (serviceProviders a) k = Some sp"
  shows "I (snd (scan_instance k i (Some si) (u, b, kept) a))"
proof -
  have a1: "I (after_forward a k sp si)" unfolding after_forward_def using assms(1) by (rule forwards)
  show ?thesis
  proof (cases "SetAddress (vsCredentials si) ''127.0.0.1'' (ConnectPort (planned_forward a k sp si))")
    case (Ok c')
    let ?si = "si\<lparr>vsCredentials := Some c'\<rparr>"
    have p: "put_instance k i ?si (after_forward a k sp si)
        = (Ok (), (after_forward a k sp si)\<lparr>appEnv := Some \<lparr>systemEnv = Some (Some
            (AList.update k ((instances_of (services_of a) k)[i := Some ?si]) (services_of a)))\<rparr>\<rparr>)"
      (is "_ = (_, ?a2)")
      by (simp add: put_instance_def with_st_def put_services_run Let_def)
    have a2: "I ?a2" using a1 by (rule fetched)
    have "I (snd (init_program_env k sp c' ?a2))" by (rule initialised [OF a2]) (simp add: sp)
    with a2 show ?thesis
      unfolding scan_instance_wanted [OF assms(2,3)] Ok outcome.case Let_def
      by (subst seq_def) (auto simp: p seq_def ret_def split: prod.split outcome.split)
  qed (simp_all add: scan_instance_wanted [OF assms(2,3)] a1)
qed

lemma kept_scan_instance: "preserves I (scan_instance k i msi loc)"
proof (rule preservesI)
  fix a assume a: "I a"
  obtain u b kept where loc: "loc = (u, b, kept)" by (cases loc)
  show "I (snd (scan_instance k i msi loc a))"
  proof (cases msi)
    case None
    with a show ?thesis by (simp add: loc scan_instance_nil)
  next
    case si: (Some si)
    show ?thesis
    proof (cases "vsInstanceName si \<in> set u")
      case True
      show ?thesis
      proof (cases "map_of (serviceProviders a) k")
        case None
        from scan_instance_unknown [OF True None, of i b kept] a show ?thesis by (auto simp: loc si)
      qed (use a True kept_scan_wanted in \<open>simp add: loc si\<close>)
    qed (use a in \<open>simp add: loc si scan_instance_other\<close>)
  qed
qed

lemma kept_scan_instances: "preserves I (scan_instances k i msis loc)"
  by (induction msis arbitrary: i loc) (auto intro: keeps kept_scan_instance)

lemma kept_scan_service: "preserves I (scan_service k u b)"
  unfolding scan_service_def
  by (auto intro!: keeps kept_scan_instances kept_put_services split: prod.split)

lemma kept_scan_services: "preserves I (scan_services ks u b)"
  by (induction ks arbitrary: u b) (auto intro!: keeps kept_scan_service split: prod.split)

lemma kept_publish: "preserves I publish_services"
  unfolding publish_services_def get_services_def by (intro keeps preserves_upd published)

theorem kept_bind_environment: "preserves I bind_environment"
  unfolding bind_environment_def get_services_def check_satisfied_def
  by (auto intro!: keeps kept_publish kept_scan_services simp: Let_def split: prod.split)

end

interpretation rest: binding_invariant "\<lambda>a :: 'm app_core_scheme. app_core.more a = M" for M :: 'm
  by unfold_locales (simp_all add: init_program_env_def split: prod.split)

lemma rest_selectors:
  assumes "app_core.more a = app_core.more (b :: 'c app)"
  shows "cfClient a = cfClient b" "deleteApp a = deleteApp b" "runArgs a = runArgs b"
    "tlsTunnels a = tlsTunnels b" "appGUID a = appGUID b" "tunnel a = tunnel b"
    "appStatus a = appStatus b"
  using assms by (cases a; cases b; simp)+

section \<open>Processes\<close>

text \<open>What a machine step other than starting a process leaves alone.\<close>

definition processes :: "machine \<Rightarrow> run list \<times> (nat \<Rightarrow> int option) \<times> (string \<Rightarrow> string option) \<times> string list" where
  "processes m = (runs m, exitCode m, path m, environ m)"

abbreviation same_processes :: "(machine, 'a) act \<Rightarrow> bool" where
  "same_processes f \<equiv> \<forall>m. processes (snd (f m)) = processes m"

lemma processes_upd [simp]:
  "processes (m\<lparr>calls := c\<rparr>) = processes m" "processes (m\<lparr>listening := l\<rparr>) = processes m"
  "processes (m\<lparr>dirs := d\<rparr>) = processes m" "processes (m\<lparr>files := fs\<rparr>) = processes m"
  "processes (m\<lparr>dirs := d, files := fs\<rparr>) = processes m" "processes (m\<lparr>clockMs := t\<rparr>) = processes m"
  by (simp_all add: processes_def)

lemma same_processes_faulty: "same_processes f \<Longrightarrow> same_processes (faulty f)"
  by (simp add: faulty_def Let_def split: option.split)

lemma same_processes_Listen: "same_processes (Listen addr)"
proof -
  have l: "same_processes (listen_on h p)" for h p by (simp add: listen_on_def Let_def)
  have r: "same_processes (raise e)" for e by (simp add: raise_def)
  have "same_processes (case n of None \<Rightarrow> raise e | Some p \<Rightarrow> listen_on h p)" for n e h
    using l r by (cases n) simp_all
  then show ?thesis unfolding Listen_def by (rule same_processes_faulty)
qed

lemma same_processes_Close: "same_processes (Close addr)"
  by (simp add: Close_def)

lemma same_processes_files:
  "same_processes (TempDir pat)" "same_processes (WriteFile p t)" "same_processes (RemoveAll d)"
  unfolding TempDir_def WriteFile_def RemoveAll_def
  by (rule same_processes_faulty, simp add: Let_def)+

lemma processes_run: "same_processes f \<Longrightarrow> f m = (r, m') \<Longrightarrow> processes m' = processes m"
  by (metis snd_conv)

lemma processes_files:
  "TempDir pat m = (r, m') \<Longrightarrow> processes m' = processes m"
  "WriteFile p t m = (r', m') \<Longrightarrow> processes m' = processes m"
  using same_processes_files(1,2) processes_run by blast+

lemma processes_dial: "dial_result addr m = (r, m') \<Longrightarrow> processes m' = processes m"
proof -
  have "same_processes (dial_local addr)"
    unfolding dial_local_def by (rule same_processes_faulty) (simp add: Let_def)
  then show "dial_result addr m = (r, m') \<Longrightarrow> processes m' = processes m"
    by (auto simp: dial_result_def dest: processes_run split: prod.splits outcome.splits)
qed

lemma processes_wait_loop:
  "processes (snd (wait_loop dial_result sleep_ms addr n m)) = processes m"
proof (induction "15 - n" arbitrary: n m rule: less_induct)
  case less
  let ?s = "sleep_ms (if n > 5 then 2000 else 1000) m"
  obtain r m1 where d: "dial_result addr ?s = (r, m1)" by fastforce
  have m1: "processes m1 = processes m" using processes_dial [OF d] by (simp add: sleep_ms_def)
  show ?case
  proof (cases "r \<noteq> None \<and> Suc n < 15")
    case True
    then have "15 - Suc n < 15 - n" by arith
    from less [OF this, of m1] True d m1 show ?thesis
      by (subst wait_loop.simps) (auto simp: Let_def)
  next
    case False
    with d m1 show ?thesis
      by (subst wait_loop.simps) (auto simp: Let_def split: option.split)
  qed
qed

lemma processes_wait: "WaitForConnection dial_result sleep_ms addr m = (r, m') \<Longrightarrow> processes m' = processes m"
  using processes_wait_loop [of addr 0 m]
  by (auto simp: WaitForConnection_def split: prod.splits option.splits)

lemma processes_ssh_forward: "ssh_forward fwd (t, m) = (r, (t', m')) \<Longrightarrow> processes m' = processes m"
  using same_processes_Listen
  by (auto simp: ssh_forward_def dest: processes_run split: prod.splits outcome.splits)

lemma processes_ssh_forwards:
  "for_each ssh_forward fwds (t, m) = (r, (t', m')) \<Longrightarrow> processes m' = processes m"
proof (induction fwds arbitrary: t m)
  case (Cons f fwds)
  obtain r1 t1 m1 where 1: "ssh_forward f (t, m) = (r1, (t1, m1))" by (metis prod.exhaust)
  with Cons processes_ssh_forward [OF 1] show ?case
    by (cases r1) (auto simp: seq_def)
qed (simp add: ret_def)

lemma processes_ssh_Start: "ssh_Start (t, m) = (r, (t', m')) \<Longrightarrow> processes m' = processes m"
  using processes_ssh_forwards [of "tunForwards t" t m]
  by (auto simp: ssh_Start_def act_defs split: if_splits prod.splits outcome.splits)

lemma processes_close_listeners: "processes (close_listeners ls m) = processes m"
  using same_processes_Close by (induction ls arbitrary: m) (simp_all add: close_listeners_def)

lemma processes_ssh_Stop: "ssh_Stop (t, m) = (r, (t', m')) \<Longrightarrow> processes m' = processes m"
  by (auto simp: ssh_Stop_def upd_def processes_close_listeners split: if_splits)

lemma processes_tls_Start: "tls_Start (t, m) = (r, (t', m')) \<Longrightarrow> processes m' = processes m"
  using same_processes_Listen
  by (auto simp: tls_Start_def dest: processes_run split: prod.splits outcome.splits)

lemma processes_InitEnv:
  assumes "sp_InitEnv c (sp, e, m) = (r, (sp', e', m'))"
  shows "processes m' = processes m"
  using assms
proof (cases rule: sp_InitEnv_cases)
  case (my p p')
  then show ?thesis
    by (auto simp: mysql_InitEnv_run dest!: processes_files split: if_splits prod.splits outcome.splits)
next
  case (pg p p')
  then show ?thesis by (auto simp: postgres_InitEnv_run split: if_splits)
next
  case re
  then show ?thesis by (simp add: redis_InitEnv_def ret_def)
next
  case inf
  then show ?thesis by (simp add: influx_InitEnv_run)
qed

section \<open>Invariants of the session\<close>

text \<open>The part before the connection info, and the rest.\<close>

definition session_ready :: "'c client_api \<Rightarrow> bool \<Rightarrow> ('c app, unit) act" where
  "session_ready api existing = andthen (app_Init api)
    (andthen (if existing then PrepareForExistingApp api else DeployApp api)
    (andthen (SetupTunnels api) finish_status))"

definition session_rest :: "bool \<Rightarrow> string \<Rightarrow> ('c app, bool) act" where
  "session_rest verb msg = with_st (\<lambda>a.
     andthen (if verb \<or> runArgs a = [] then PrintConnectionInfo else ret ())
       (if runArgs a \<noteq> [] then andthen RunCommand (ret False)
        else andthen (print_err msg) (ret True)))"

lemma session_body_ready:
  "\<exists>msg. session_body api existing verb = andthen (session_ready api existing) (session_rest verb msg)"
  unfolding session_body_def session_ready_def session_rest_def seq_assoc by (rule exI) (rule refl)

text \<open>
  Up to the command, the machine steps are network and file operations; only the command starts a
  process. So an invariant about the processes is kept up to the command
  (\<open>session_setup\<close>), and one that does not look at the machine to the end (\<open>session_invariant\<close>).
\<close>

locale session_setup =
  fixes api :: "'c client_api" and existing :: bool and I :: "'c app \<Rightarrow> bool"
  assumes status: "I a \<Longrightarrow> I (a\<lparr>appStatus := Text args (appStatus a)\<rparr>)"
    and status_done: "I a \<Longrightarrow> I (a\<lparr>appStatus := Done (appStatus a)\<rparr>)"
    and status_print: "I a \<Longrightarrow> I (a\<lparr>appStatus := (appStatus a)\<lparr>printed := printed (appStatus a) @ [line]\<rparr>\<rparr>)"
    and quiet_machine: "processes m = processes (mach a) \<Longrightarrow> I (a\<lparr>mach := m\<rparr>) = I a"
    and fetched_env: "I (a\<lparr>appEnv := e\<rparr>) = I a"
    and targets: "I (a\<lparr>org := o'\<rparr>) = I a" "I (a\<lparr>space := sp\<rparr>) = I a"
    and guid: "I (a\<lparr>appGUID := g\<rparr>) = I a"
    and ssh: "I (a\<lparr>tunnel := tn\<rparr>) = I a"
    and tls: "I a \<Longrightarrow> listener t \<noteq> None \<Longrightarrow> I (a\<lparr>tlsTunnels := tlsTunnels a @ [t]\<rparr>)"
    and bindings: "preserves I bind_environment"
    and queries: "preserves I (on_cf (GetOrgByName api n))" "preserves I (on_cf (GetSpaceByName api g n))"
      "preserves I (on_cf (GetServiceInstances api fs))" "preserves I (on_cf (GetAppEnv api g))"
    and existing_queries: "existing \<Longrightarrow> preserves I (on_cf (GetAppByName api g h n))"
      "existing \<Longrightarrow> preserves I (on_cf (GetServiceBindings api fs))"
    and deployment: "\<not> existing \<Longrightarrow> preserves I (on_cf (CreateApp api n g))"
      "\<not> existing \<Longrightarrow> preserves I (on_cf (UploadStaticAppBits api g))"
      "\<not> existing \<Longrightarrow> preserves I (on_cf (StartApp api g))"
      "\<not> existing \<Longrightarrow> preserves I (on_cf (PollForAppState api g st k))"
      "\<not> existing \<Longrightarrow> preserves I (on_cf (BindService api g h ps))"
begin

lemma kept_status_text: "preserves I (status_text args)"
  unfolding status_text_def by (rule preserves_upd) (rule status)

lemma kept_finish_status: "preserves I finish_status"
  unfolding finish_status_def by (rule preserves_upd) (rule status_done)

lemma kept_print_err: "preserves I (print_err t)"
  unfolding print_err_def by (rule preserves_upd) (rule status_print)

lemma kept_wait_for: "preserves I (wait_for addr)"
  by (auto simp: preserves_def wait_for_def quiet_machine dest!: processes_wait split: prod.split option.split)

lemma kept_tunnel_Start: "preserves I (on_tunnel ssh_Start)"
proof (rule preservesI)
  fix a assume a: "I a"
  have "I (a\<lparr>tunnel := tn, mach := m\<rparr>)" if "processes m = processes (mach a)" for tn m
    using a ssh that by (simp add: quiet_machine)
  with a show "I (snd (on_tunnel ssh_Start a))"
    by (auto simp: on_tunnel_def with_st_def seq_def deref_def panic_def ret_def
        dest: processes_ssh_Start split: option.split prod.split)
qed

lemmas kept_steps = kept_status_text kept_finish_status kept_print_err kept_wait_for kept_tunnel_Start

lemma kept_upd: "(\<And>a. I (g a) = I a) \<Longrightarrow> preserves I (upd g)"
  by (rule preserves_upd) simp

lemma kept_on_err: "preserves I m \<Longrightarrow> (\<And>e. preserves I (h e)) \<Longrightarrow> preserves I (on_err m h)"
  unfolding preserves_def on_err_def by (auto split: prod.split outcome.split)

lemma kept_app_Init: "preserves I (app_Init api)"
  unfolding app_Init_def
  by (intro keeps kept_steps kept_on_err queries kept_upd) (simp_all add: targets)

lemma kept_check_bound: "preserves I (check_bound sp is bs name)"
  unfolding check_bound_def Let_def by (intro keeps)

lemma kept_PrepareForExistingApp: "existing \<Longrightarrow> preserves I (PrepareForExistingApp api)"
  unfolding PrepareForExistingApp_def
  by (intro keeps kept_steps queries existing_queries kept_upd kept_check_bound) (simp_all add: guid)

lemma kept_deployApp: "\<not> existing \<Longrightarrow> preserves I (deployApp api)"
  unfolding deployApp_def
  by (auto intro!: keeps kept_steps deployment kept_upd simp: guid split: prod.split option.split)

lemma kept_bind_instances: "\<not> existing \<Longrightarrow> preserves I (bind_instances api name is bound)"
proof (induction "is" arbitrary: bound)
  case (Cons e rest)
  obtain g i where e: "e = (g, i)" by fastforce
  have IH: "preserves I (bind_instances api name rest b)" for b using Cons by blast
  show ?case
    unfolding e bind_instances.simps using Cons.prems
    by (intro keeps kept_steps deployment IH)
qed (auto intro: keeps)

lemma kept_bindServices: "\<not> existing \<Longrightarrow> preserves I (bindServices api)"
  unfolding bindServices_def bind_name_def
  by (intro keeps kept_steps queries kept_bind_instances)

lemma kept_DeployApp: "\<not> existing \<Longrightarrow> preserves I (DeployApp api)"
  unfolding DeployApp_def by (intro keeps kept_deployApp kept_bindServices)

lemma kept_initServiceBindings: "preserves I (initServiceBindings api)"
  unfolding initServiceBindings_def
  by (intro keeps kept_steps queries kept_upd bindings) (simp add: fetched_env)

lemma kept_startSSHTunnels: "preserves I (startSSHTunnels api)"
  unfolding startSSHTunnels_def
  by (intro keeps kept_steps kept_upd) (simp add: ssh)

lemma kept_start_tls_tunnel: "preserves I (start_tls_tunnel f)"
proof (rule preservesI)
  fix a assume a: "I a"
  show "I (snd (start_tls_tunnel f a))"
  proof (cases "TLSTunnelPort f = 0")
    case True
    with a show ?thesis by (simp add: start_tls_tunnel_def ret_def)
  next
    case False
    let ?t = "tls_NewTunnel (TLSTunnelAddress f) (LocalAddress f) (RemoteAddr f)
                  (appTlsInsecure a) (appTlsCipherSuites a) (appTlsMinVersion a)"
    obtain r t' m where s: "tls_Start (?t, mach a) = (r, (t', m))" by (metis prod.exhaust)
    have "localAddr ?t = addr_text ''localhost'' (TLSTunnelPort f)"
      by (simp add: tls_NewTunnel_def TLSTunnelAddress_def)
    note T = tls_Start_run [OF s this]
    have m: "I (a\<lparr>mach := m\<rparr>)" using a processes_tls_Start [OF s] by (simp add: quiet_machine)
    show ?thesis
    proof (cases r)
      case (Ok u)
      let ?a1 = "a\<lparr>mach := m, tlsTunnels := tlsTunnels a @ [t']\<rparr>"
      have run: "start_tls_tunnel f a = wait_for (TLSTunnelAddress f) ?a1"
        using False s Ok by (simp add: start_tls_tunnel_def app_run Let_def)
      from m have "I ((a\<lparr>mach := m\<rparr>)\<lparr>tlsTunnels := tlsTunnels (a\<lparr>mach := m\<rparr>) @ [t']\<rparr>)"
        using T Ok by (intro tls) auto
      then show ?thesis unfolding run using kept_wait_for by (simp add: preserves_def)
    next
      case (Err e)
      with False s m show ?thesis by (simp add: start_tls_tunnel_def app_run Let_def)
    next
      case (Panic p)
      with T show ?thesis by simp
    qed
  qed
qed

lemma kept_SetupTunnels: "preserves I (SetupTunnels api)"
  unfolding SetupTunnels_def startTLSTunnels_def
  by (intro keeps kept_initServiceBindings kept_startSSHTunnels kept_start_tls_tunnel)

lemma kept_get_services: "preserves I get_services"
  unfolding get_services_def by (intro keeps)

lemma kept_PrintConnectionInfo: "preserves I PrintConnectionInfo"
  unfolding PrintConnectionInfo_def print_instance_def
  by (auto intro!: keeps kept_steps kept_get_services split: prod.split)

lemma kept_ready: "preserves I (session_ready api existing)"
  unfolding session_ready_def
  by (cases existing)
    (auto intro!: keeps kept_steps kept_app_Init kept_PrepareForExistingApp kept_DeployApp kept_SetupTunnels)

lemma kept_info: "preserves I (if b then PrintConnectionInfo else ret ())"
  by (auto intro: keeps kept_PrintConnectionInfo)

lemma kept_rest:
  assumes "I a1" and "session_rest verb msg a1 = (r, a')"
  shows "I a' \<and> r \<noteq> Ok False \<and> (r = Ok True \<longrightarrow> runArgs a1 = [])
     \<or> runArgs a1 \<noteq> [] \<and> (\<exists>a2. I a2 \<and> andthen RunCommand (ret False) a2 = (r, a'))"
proof -
  obtain r2 a2 where 2: "(if verb \<or> runArgs a1 = [] then PrintConnectionInfo else ret ()) a1 = (r2, a2)"
    by fastforce
  then have I2: "I a2" using preservesD [OF kept_info assms(1)] by (metis snd_conv)
  then have I3: "I (snd (print_err msg a2))" by (rule preservesD [OF kept_print_err])
  have run: "(r, a') = (case r2 of
      Ok u \<Rightarrow> (if runArgs a1 \<noteq> [] then andthen RunCommand (ret False)
               else andthen (print_err msg) (ret True)) a2
    | Err e \<Rightarrow> (Err e, a2) | Panic p \<Rightarrow> (Panic p, a2))"
    using assms(2) unfolding session_rest_def with_st_def
    by (subst (asm) seq_def) (simp only: 2 prod.case)
  show ?thesis
  proof (cases "runArgs a1 = []")
    case True
    have "andthen (print_err msg) (ret True) a2 = (Ok True, snd (print_err msg a2))"
      by (simp only: print_err_def seq_def upd_def ret_def prod.case outcome.case snd_conv)
    with run True I2 I3 show ?thesis by (cases r2) simp_all
  next
    case False
    with run I2 show ?thesis by (cases r2) auto
  qed
qed

text \<open>A session stays in the invariant, at least up to the start of the command.\<close>

theorem kept_up_to_command:
  assumes "I a" and "session_body api existing verb a = (r, a')"
  shows "\<exists>a1. I a1 \<and>
    (I a' \<and> r \<noteq> Ok False \<and> (r = Ok True \<longrightarrow> runArgs a1 = [])
     \<or> runArgs a1 \<noteq> [] \<and> (\<exists>a2. I a2 \<and> andthen RunCommand (ret False) a2 = (r, a')))"
proof -
  obtain msg where body: "session_body api existing verb = andthen (session_ready api existing) (session_rest verb msg)"
    using session_body_ready by blast
  obtain r1 a1 where 1: "session_ready api existing a = (r1, a1)" by fastforce
  then have I1: "I a1" using preservesD [OF kept_ready assms(1)] by (metis snd_conv)
  have run: "(r, a') = (case r1 of Ok u \<Rightarrow> session_rest verb msg a1
    | Err e \<Rightarrow> (Err e, a1) | Panic p \<Rightarrow> (Panic p, a1))"
    using assms(2) unfolding body seq_def 1 by simp
  show ?thesis
  proof (cases r1)
    case (Ok u)
    then have "session_rest verb msg a1 = (r, a')" using run by simp
    from kept_rest [OF I1 this] I1 show ?thesis by blast
  qed (use run I1 in auto)
qed

end

locale session_invariant = session_setup +
  assumes machine: "I (a\<lparr>mach := m\<rparr>) = I a"
begin

lemma kept_on_machine: "preserves I (on_machine f)"
  by (auto simp: preserves_def on_machine_def machine split: prod.split)

lemma kept_of_outcome: "preserves I (of_outcome r)"
  by (simp add: preserves_def of_outcome_def)

lemma kept_getProgramSpecificArgs: "preserves I (getProgramSpecificArgs prog)"
  unfolding getProgramSpecificArgs_def
  by (auto intro!: keeps kept_get_services kept_of_outcome split: option.split)

lemma kept_done: "preserves I (upd (\<lambda>a. a\<lparr>appStatus := Done (appStatus a)\<rparr>))"
  by (rule preserves_upd) (rule status_done)

lemma kept_RunCommand: "preserves I RunCommand"
  unfolding RunCommand_def Let_def
  by (auto intro!: keeps kept_steps kept_on_machine kept_getProgramSpecificArgs kept_done kept_on_err split: option.split)

theorem kept_session_body: "preserves I (session_body api existing verb)"
proof (rule preservesI)
  fix a assume "I a"
  obtain r a' where run: "session_body api existing verb a = (r, a')" by fastforce
  have "preserves I (andthen RunCommand (ret False))" by (intro keeps kept_RunCommand)
  with kept_up_to_command [OF \<open>I a\<close> run] run show "I (snd (session_body api existing verb a))"
    using preservesD by fastforce
qed

end

end
