(* ===== verification/Session.thy ===== *)
theory Session
  imports SessionFrame
begin

text \<open>
  Properties of a whole run of the command: what its clean-up destroys, what it leaves alone, the
  processes it starts, when it ends and with which exit code.
\<close>

section \<open>What a session keeps\<close>

lemma rest_invariant:
  assumes "\<And>a b :: 'c app. app_core.more a = app_core.more b \<Longrightarrow> I a = I b"
  shows "preserves I bind_environment"
proof (rule preservesI)
  fix a :: "'c app" assume "I a"
  moreover have "app_core.more (snd (bind_environment a)) = app_core.more a"
    using preservesD [OF rest.kept_bind_environment [of "app_core.more a"], where s = a] by simp
  ultimately show "I (snd (bind_environment a))" using assms by blast
qed

lemma preserves_on_cf: "(\<And>a c. I a \<Longrightarrow> I (a\<lparr>cfClient := c\<rparr>)) \<Longrightarrow> preserves I (on_cf f)"
  by (auto simp: preserves_def on_cf_def split: prod.split)

text \<open>The settings, and that the TLS tunnels on record listen.\<close>

definition settings :: "bool \<Rightarrow> string list \<Rightarrow> 'c app \<Rightarrow> bool" where
  "settings d ra a = (deleteApp a = d \<and> runArgs a = ra \<and> (\<forall>t \<in> set (tlsTunnels a). listener t \<noteq> None))"

lemma settings_bindings: "preserves (settings d ra) bind_environment"
proof (rule rest_invariant)
  fix a b :: "'c app" assume "app_core.more a = app_core.more b"
  from rest_selectors [OF this] show "settings d ra a = settings d ra b" by (simp add: settings_def)
qed

interpretation settings: session_invariant api existing "settings d ra" for api existing d ra
  by unfold_locales (auto intro!: settings_bindings preserves_on_cf simp: settings_def)

text \<open>The calls made so far.\<close>

definition is_query :: "cf_call \<Rightarrow> bool" where
  "is_query x = (case x of C_Env g \<Rightarrow> True | C_Space og n \<Rightarrow> True | C_Org n \<Rightarrow> True
     | C_App og sg n \<Rightarrow> True | C_Bindings fs \<Rightarrow> True | C_Instances fs \<Rightarrow> True | _ \<Rightarrow> False)"

definition only_calls :: "(cf_call \<Rightarrow> bool) \<Rightarrow> ('c \<times> cf_call list) app \<Rightarrow> bool" where
  "only_calls P a = list_all P (call_log a)"

lemma only_calls_log: "P x \<Longrightarrow> preserves (only_calls P) (on_cf (log_call x f))"
  by (auto simp: preserves_def only_calls_def on_cf_log split: prod.split)

lemma only_calls_bindings: "preserves (only_calls P) bind_environment"
proof (rule rest_invariant)
  fix a b :: "('c \<times> cf_call list) app"
  assume "app_core.more a = app_core.more b"
  from rest_selectors(1) [OF this] show "only_calls P a = only_calls P b" by (simp add: only_calls_def)
qed

lemmas logged_calls = logged_def client_api.select_convs

lemma only_calls_frame:
  "only_calls P (a\<lparr>appStatus := s\<rparr>) = only_calls P a" "only_calls P (a\<lparr>mach := m\<rparr>) = only_calls P a"
  "only_calls P (a\<lparr>appEnv := e\<rparr>) = only_calls P a" "only_calls P (a\<lparr>org := og\<rparr>) = only_calls P a"
  "only_calls P (a\<lparr>space := sp\<rparr>) = only_calls P a" "only_calls P (a\<lparr>appGUID := g\<rparr>) = only_calls P a"
  "only_calls P (a\<lparr>tunnel := tn\<rparr>) = only_calls P a" "only_calls P (a\<lparr>tlsTunnels := ts\<rparr>) = only_calls P a"
  by (simp_all add: only_calls_def)

interpretation queries: session_invariant "logged api" True "only_calls is_query" for api
  by unfold_locales
    (simp_all only: only_calls_frame not_True_eq_False logged_calls,
     (rule only_calls_bindings | (rule only_calls_log, simp add: is_query_def))+)

interpretation no_deletion: session_invariant "logged api" existing "only_calls (\<lambda>x. x \<noteq> C_Destroy g)"
  for api existing g
  by unfold_locales
    (simp_all only: only_calls_frame logged_calls, (rule only_calls_bindings | (rule only_calls_log, simp))+)

text \<open>Up to the command: the processes, the command line, the program.\<close>

definition ready_to_run ::
  "run list \<times> (nat \<Rightarrow> int option) \<times> (string \<Rightarrow> string option) \<times> string list \<Rightarrow> string list \<Rightarrow> 'c app \<Rightarrow> bool" where
  "ready_to_run P ra a = (processes (mach a) = P \<and> runArgs a = ra \<and> program a = (if ra = [] then [] else hd ra))"

interpretation bound_ready: binding_invariant "ready_to_run P ra :: 'c app \<Rightarrow> bool" for P ra
  by unfold_locales
    (auto simp: ready_to_run_def init_program_env_def dest!: processes_InitEnv split: prod.split)

interpretation ready: session_setup api existing "ready_to_run P ra" for api existing P ra
  by unfold_locales
    (auto intro!: preserves_on_cf bound_ready.kept_bind_environment simp: ready_to_run_def)

text \<open>The types of the state: maps without duplicate keys, providers of their kind, and a spinner in order.\<close>

definition typed :: "(string \<Rightarrow> provider option) \<Rightarrow> 'c app \<Rightarrow> bool" where
  "typed ks a = (wf_map (runEnv a) \<and> wf_map (serviceProviders a) \<and> kinds (serviceProviders a) = ks
     \<and> status_inv (appStatus a))"

interpretation bound_typed: binding_invariant "typed ks :: 'c app \<Rightarrow> bool" for ks
proof unfold_locales
  fix a :: "'c app" and k sp c
  assume a: "typed ks a" and sp: "map_of (serviceProviders a) k = Some sp"
  obtain r sp' e m where run: "sp_InitEnv c (sp, runEnv a, mach a) = (r, (sp', e, m))" by (metis prod.exhaust)
  have "kinds (AList.update k sp' (serviceProviders a)) = kinds (serviceProviders a)"
    using sp_InitEnv_blank [OF run] sp by (auto simp: kinds_def update_conv' fun_eq_iff)
  with a provider.init_wf [OF run] run show "typed ks (snd (init_program_env k sp c a))"
    by (simp add: typed_def init_program_env_def wf_map_update)
qed (simp_all add: typed_def wf_map_update)

interpretation types: session_invariant api existing "typed ks" for api existing ks
  by unfold_locales
    (auto intro!: preserves_on_cf bound_typed.kept_bind_environment simp: typed_def, simp add: status_inv_def)

section \<open>The clean-up\<close>

lemma keeps_collect: "preserves I f \<Longrightarrow> preserves I (collect f)"
  by (auto simp: preserves_def collect_def split: prod.split outcome.split)

lemma keeps_collect_all: "(\<And>f. f \<in> set fs \<Longrightarrow> preserves I f) \<Longrightarrow> preserves I (collect_all fs)"
  by (induction fs) (auto intro!: keeps keeps_collect)

lemma keeps_on_err: "preserves I m \<Longrightarrow> (\<And>e. preserves I (h e)) \<Longrightarrow> preserves I (on_err m h)"
  unfolding preserves_def on_err_def by (auto split: prod.split outcome.split)

lemma kept_Teardown:
  assumes mc: "\<And>m a. processes m = processes (mach a) \<Longrightarrow> I (a\<lparr>mach := m\<rparr>) = I a"
    and tn: "\<And>t a. I (a\<lparr>tunnel := t\<rparr>) = I a" and cf: "\<And>c a. I (a\<lparr>cfClient := c\<rparr>) = I a"
  shows "preserves I (Teardown api)"
proof -
  have quiet: "preserves I (on_machine f)" if "\<And>m r m'. f m = (r, m') \<Longrightarrow> processes m' = processes m" for f :: "(machine, unit) act"
    using that by (auto simp: preserves_def on_machine_def mc split: prod.split)
  have "preserves I (on_machine (tls_Stop t))" for t
    by (rule quiet) (auto simp: tls_Stop_def Close_def act_defs split: option.splits if_splits)
  moreover have "preserves I (on_tunnel ssh_Stop)"
  proof (rule preservesI)
    fix a assume a: "I a"
    have "I (a\<lparr>tunnel := tn', mach := m\<rparr>)" if "processes m = processes (mach a)" for tn' m
      using a tn that by (simp add: mc)
    with a show "I (snd (on_tunnel ssh_Stop a))"
      by (auto simp: on_tunnel_def with_st_def seq_def deref_def panic_def ret_def
          dest: processes_ssh_Stop split: option.split prod.split)
  qed
  moreover have "preserves I (on_machine (sp_Teardown sp))" for sp
    using same_processes_files(3)
    by (intro quiet) (auto simp: sp_Teardown_def mysql_Teardown_def ret_def
        dest: processes_run split: provider.splits if_splits)
  moreover have "preserves I (on_cf f)" for f :: "(_, unit) act"
    by (rule preserves_on_cf) (simp add: cf)
  then have "preserves I (destroyApp api)"
    unfolding destroyApp_def Let_def by (intro keeps keeps_on_err)
  ultimately show ?thesis
    unfolding Teardown_def teardown_steps_def by (auto intro!: keeps keeps_collect_all)
qed

lemma Teardown_ends:
  assumes "\<forall>t \<in> set (tlsTunnels a). listener t \<noteq> None" and "no_panic (destroyApp api)"
  shows "fst (Teardown api a) \<noteq> Panic p"
proof -
  from local_steps_owner [OF assms(1)] obtain es ax where 1: "collect_all (local_steps a) a = (Ok es, ax)" by blast
  obtain es' where "collect (destroyApp api) ax = (Ok es', snd (destroyApp api ax))"
    using collect_run [OF assms(2)] by blast
  with 1 show ?thesis by (simp add: Teardown_steps)
qed

lemma calm_logged_destroy: "no_panic (destroyApp (logged (client_impl capi)))"
proof -
  have "fst (destroyApp (logged (client_impl capi)) a) \<noteq> Panic p" for a p
    using destroyApp_run [where capi = capi and a = a] by (cases "destroyApp (logged (client_impl capi)) a") auto
  then show ?thesis by (simp add: no_panic_def)
qed

section \<open>A finished session\<close>

text \<open>The body, the clean-up, and the end of the status line.\<close>

lemma session_end_run:
  assumes "\<forall>t \<in> set (tlsTunnels a). listener t \<noteq> None" and "no_panic (destroyApp api)"
    and "session_end api x a = (r, a')"
  shows "r = x \<and> (\<exists>rt at ps. Teardown api a = (rt, at)
    \<and> a' = at\<lparr>appStatus := Done ((appStatus at)\<lparr>printed := printed (appStatus at) @ ps\<rparr>)\<rparr>)"
proof -
  obtain rt at where t: "Teardown api a = (rt, at)" by fastforce
  have none: "(s::status)\<lparr>printed := printed s @ []\<rparr> = s" for s by simp
  show ?thesis
  proof (cases rt)
    case (Ok u)
    with t assms(3) have "r = x" "a' = at\<lparr>appStatus := Done (appStatus at)\<rparr>"
      by (simp_all add: session_end_def finish_status_def upd_def)
    with t none [of "appStatus at"] show ?thesis by metis
  next
    case (Err e)
    with t assms(3) show ?thesis by (auto simp: session_end_def finish_status_def print_err_def upd_def)
  next
    case (Panic p)
    with t Teardown_ends [OF assms(1,2), of p] show ?thesis by simp
  qed
qed

lemma app_session_end:
  assumes "app_session api existing verb signals a = Some (r, a')"
    and "tlsTunnels a = []" and "no_panic (destroyApp api)"
  shows "\<exists>x a1 rt at ps. session_body api existing verb a = (x, a1) \<and> r = map_outcome (\<lambda>_. ()) x
    \<and> settings (deleteApp a) (runArgs a) a1 \<and> Teardown api a1 = (rt, at)
    \<and> a' = at\<lparr>appStatus := Done ((appStatus at)\<lparr>printed := printed (appStatus at) @ ps\<rparr>)\<rparr>"
proof -
  obtain x a1 where b: "session_body api existing verb a = (x, a1)" by fastforce
  have "settings (deleteApp a) (runArgs a) a" using assms(2) by (simp add: settings_def)
  from preservesD [OF settings.kept_session_body this] b
  have s: "settings (deleteApp a) (runArgs a) a1" by (metis snd_conv)
  then have l: "\<forall>t \<in> set (tlsTunnels a1). listener t \<noteq> None" by (simp add: settings_def)
  have "session_end api (map_outcome (\<lambda>_. ()) x) a1 = (r, a')"
    using assms(1) b by (cases x) (auto simp: app_session_def split: if_splits bool.splits)
  from session_end_run [OF l assms(3) this] b s show ?thesis by blast
qed

text \<open>
  Property C3: the helper app is removed at the end of every session, whichever step it failed at
  and even if it panicked: once it has an app to remove and may do so, the clean-up asks for
  exactly that app's deletion. Nothing else is ever deleted.
\<close>

theorem session_destroys:
  assumes "app_session (logged (client_impl capi)) existing verb signals a = Some (r, a')"
    and "tlsTunnels a = []" and "call_log a = []"
  shows "(C_Destroy g \<in> set (call_log a') \<longleftrightarrow> deleteApp a \<and> appGUID a' \<noteq> [] \<and> g = appGUID a')
    \<and> deleteApp a' = deleteApp a"
proof -
  let ?api = "logged (client_impl capi)"
  from app_session_end [OF assms(1,2) calm_logged_destroy] obtain x a1 rt at ps where
    b: "session_body ?api existing verb a = (x, a1)" and s: "settings (deleteApp a) (runArgs a) a1"
    and t: "Teardown ?api a1 = (rt, at)"
    and a': "a' = at\<lparr>appStatus := Done ((appStatus at)\<lparr>printed := printed (appStatus at) @ ps\<rparr>)\<rparr>"
    by blast
  have none: "C_Destroy h \<notin> set (call_log a1)" for h
  proof -
    have "only_calls (\<lambda>x. x \<noteq> C_Destroy h) a" using assms(3) by (simp add: only_calls_def)
    from preservesD [OF no_deletion.kept_session_body this] b
    have "only_calls (\<lambda>x. x \<noteq> C_Destroy h) a1" by (metis snd_conv)
    then show ?thesis by (auto simp: only_calls_def list_all_iff)
  qed
  have "preserves (\<lambda>a. deleteApp a = deleteApp a1 \<and> appGUID a = appGUID a1) (Teardown ?api)"
    by (rule kept_Teardown) simp_all
  from preservesD [OF this, where s = a1] t have k: "deleteApp at = deleteApp a1" "appGUID at = appGUID a1"
    by simp_all
  have l: "\<forall>t \<in> set (tlsTunnels a1). listener t \<noteq> None" using s by (simp add: settings_def)
  have d: "deleteApp a1 = deleteApp a" using s by (simp add: settings_def)
  from Teardown_calls [OF l t] k a' none d show ?thesis by (auto split: if_splits)
qed

lemma query_session:
  assumes "app_session (logged (client_impl capi)) True verb signals a = Some (r, a')"
    and "tlsTunnels a = []" and "call_log a = []" and "\<not> deleteApp a"
  shows "list_all is_query (call_log a')"
proof -
  let ?api = "logged (client_impl capi)"
  from app_session_end [OF assms(1,2) calm_logged_destroy] obtain x a1 rt at ps where
    b: "session_body ?api True verb a = (x, a1)" and s: "settings (deleteApp a) (runArgs a) a1"
    and t: "Teardown ?api a1 = (rt, at)"
    and a': "a' = at\<lparr>appStatus := Done ((appStatus at)\<lparr>printed := printed (appStatus at) @ ps\<rparr>)\<rparr>"
    by blast
  have "only_calls is_query a" using assms(3) by (simp add: only_calls_def)
  from preservesD [OF queries.kept_session_body this] b
  have q: "list_all is_query (call_log a1)" unfolding only_calls_def by (metis snd_conv)
  have l: "\<forall>t \<in> set (tlsTunnels a1). listener t \<noteq> None" using s by (simp add: settings_def)
  have "\<not> deleteApp a1" using s assms(4) by (simp add: settings_def)
  with Teardown_calls [OF l t] q a' show ?thesis by simp
qed


section \<open>When a session ends\<close>

lemma command_not_waiting: "andthen RunCommand (ret False) a = (r, a') \<Longrightarrow> r \<noteq> Ok True"
  by (cases "RunCommand a"; cases "fst (RunCommand a)") (auto simp: seq_def ret_def)


end
