(* ===== verification/CommandProps.thy ===== *)
theory CommandProps
  imports Session
begin

text \<open>
  Properties of the command line: the arguments, the generated name, and what a run of the
  command leaves behind, from the flags to the exit code.
\<close>

section \<open>Arguments\<close>

text \<open>
  Arguments that pass the check are split without loss: at least one service instance
  before \<open>--\<close> and the command after it.
\<close>

theorem arguments_split:
  assumes "check_args dash args = None" and "dash \<le> int (length args)"
  shows "\<exists>names runargs. split_args dash args = Ok (names, runargs)
    \<and> names \<noteq> [] \<and> names @ runargs = args
    \<and> (runargs \<noteq> [] \<longrightarrow> 0 < dash \<and> length names = nat dash)"
  using assms by (cases "dash > -1") (auto simp: check_args_def split_args_def split: if_splits)

theorem arguments_split_witness:
  "\<exists>names runargs. split_args 1 [''db'', ''psql''] = Ok (names, runargs) \<and> names @ runargs = [''db'', ''psql'']
     \<and> names \<noteq> []"
  using arguments_split [of 1 "[''db'', ''psql'']"] by (auto simp: check_args_def)

section \<open>The generated name\<close>

text \<open>The letters a draw can give.\<close>

definition name_letters :: string where
  "name_letters = ''abcdefghijklmnopqrstuvwxyz0123456789''"

lemma random_bytes: "map (\<lambda>n. random_byte (int n)) [0..<36] = name_letters"
  by code_simp

lemma name_letters_distinct: "distinct name_letters" "length name_letters = 36"
  by code_simp+

lemma random_byte_nth: "n < 36 \<Longrightarrow> random_byte (int n) = name_letters ! n"
  using arg_cong [OF random_bytes, of "\<lambda>xs. xs ! n"] by simp

text \<open>
  Property C16: a generated app name has 20 characters, the 8 random ones each a lower-case letter
  or a digit, and every one of the 36 letters stands for exactly one draw, so a uniform draw
  gives a uniform name.
\<close>

theorem generated_name:
  assumes "ConduitAppName flags = []" and "\<not> ConduitExistingApp flags"
    and "\<forall>i. 0 \<le> intn i \<and> intn i < 36"
  shows "\<exists>rs. choose_name intn flags = Inr (flags\<lparr>ConduitAppName := ''__conduit_'' @ rs @ ''__''\<rparr>)
    \<and> length rs = 8 \<and> set rs \<subseteq> set name_letters
    \<and> (\<forall>intn'. (\<forall>i. 0 \<le> intn' i \<and> intn' i < 36) \<longrightarrow> GenerateRandomString 8 intn' = rs
         \<longrightarrow> (\<forall>i < 8. intn' i = intn i))"
proof -
  have letter: "random_byte r = name_letters ! nat r" if "0 \<le> r \<and> r < 36" for r
  proof -
    from that have "nat r < 36" "int (nat r) = r" by linarith+
    then show ?thesis using random_byte_nth [of "nat r"] by simp
  qed
  have mem: "random_byte (intn i) \<in> set name_letters" for i
  proof -
    have "nat (intn i) < length name_letters" using assms(3) name_letters_distinct(2) by (simp add: nat_less_iff)
    then show ?thesis using letter [of "intn i"] assms(3) nth_mem by simp
  qed
  have inj: "intn' i = intn i"
    if "\<forall>i. 0 \<le> intn' i \<and> intn' i < 36" "GenerateRandomString 8 intn' = GenerateRandomString 8 intn" "i < 8"
    for intn' i
  proof -
    have "random_byte (intn' i) = random_byte (intn i)"
      using arg_cong [OF that(2), of "\<lambda>xs. xs ! i"] that(3) by (simp add: GenerateRandomString_def)
    then have "name_letters ! nat (intn' i) = name_letters ! nat (intn i)"
      using letter assms(3) that(1) by simp
    moreover have b: "0 \<le> intn' i" "intn' i < 36" "0 \<le> intn i" "intn i < 36"
      using assms(3) that(1) by blast+
    then have "nat (intn' i) < length name_letters" "nat (intn i) < length name_letters"
      using name_letters_distinct(2) by linarith+
    ultimately have "nat (intn' i) = nat (intn i)"
      using nth_eq_iff_index_eq [OF name_letters_distinct(1)] by blast
    then show ?thesis using b by linarith
  qed
  have "set (GenerateRandomString 8 intn) \<subseteq> set name_letters"
    using mem by (auto simp: GenerateRandomString_def)
  moreover have "length (GenerateRandomString 8 intn) = 8" by (simp add: GenerateRandomString_def)
  moreover have "choose_name intn flags = Inr (flags\<lparr>ConduitAppName := ''__conduit_'' @ GenerateRandomString 8 intn @ ''__''\<rparr>)"
    using assms(1,2) unfolding choose_name_def by (simp only: if_True if_False simp_thms)
  ultimately show ?thesis using inj by blast
qed

theorem generated_name_witness:
  "\<exists>rs. choose_name (\<lambda>i. 30) (main_flags True (\<lambda>_. [])) = Inr ((main_flags True (\<lambda>_. []))
       \<lparr>ConduitAppName := ''__conduit_'' @ rs @ ''__''\<rparr>) \<and> length rs = 8"
  using generated_name [of "main_flags True (\<lambda>_. [])" "\<lambda>i. 30"] by (auto simp: main_flags_def)

section \<open>Up to the application\<close>

text \<open>What the steps before the application leave alone.\<close>

abbreviation quiet_shell :: "machine \<Rightarrow> 'w shell \<Rightarrow> bool" where
  "quiet_shell m \<equiv> \<lambda>sh. listening (shMachine sh) = listening m \<and> processes (shMachine sh) = processes m
     \<and> status_inv (shStatus sh)"

lemma processes_PortIsInUse: "processes (snd (PortIsInUse port m)) = processes m"
proof -
  obtain r m1 where l: "Listen (addr_text ''127.0.0.1'' port) m = (r, m1)" by fastforce
  then have "processes m1 = processes m" using same_processes_Listen processes_run by blast
  then show ?thesis using l same_processes_Close by (auto simp: PortIsInUse_def split: outcome.split)
qed

lemma Done_not_spinning [simp]: "\<not> spinning (Done s)"
  by (simp add: Done_def spin_stop_def Let_def)

lemma keeps_of_sum: "preserves I (of_sum s)"
  by (cases s) (auto simp: of_sum_def intro: keeps)

lemma quiet_connect: "preserves (quiet_shell m) (connect su f)"
proof -
  have "preserves (quiet_shell m) (\<lambda>sh. case PortIsInUse p (shMachine sh) of (b, m) \<Rightarrow> (Ok b, sh\<lparr>shMachine := m\<rparr>))" for p
    using PortIsInUse_spec [of p] processes_PortIsInUse [of p]
    by (auto simp: preserves_def split: prod.split) (metis snd_conv)+
  moreover have "preserves (quiet_shell m) (\<lambda>sh. case g (shWorld sh) of
      (Inl e, w) \<Rightarrow> (Err e, sh\<lparr>shWorld := w\<rparr>) | (Inr c, w) \<Rightarrow> (Ok c, sh\<lparr>shWorld := w\<rparr>))" for g
    by (auto simp: preserves_def split: prod.split sum.split)
  moreover have "preserves (quiet_shell m) (upd (\<lambda>sh. sh\<lparr>shStatus := Text t (shStatus sh)\<rparr>))" for t
    by (rule preserves_upd) simp
  ultimately show ?thesis
    unfolding connect_def by (intro keeps keeps_of_sum)
qed

lemma calm_connect: "no_panic (connect su f)"
proof -
  have "no_panic (\<lambda>sh. case PortIsInUse p (shMachine sh) of (b, m) \<Rightarrow> (Ok b, sh\<lparr>shMachine := m\<rparr>))" for p
    by (simp add: no_panic_def split: prod.split)
  moreover have "no_panic (\<lambda>sh. case g (shWorld sh) of
      (Inl e, w) \<Rightarrow> (Err e, sh\<lparr>shWorld := w\<rparr>) | (Inr c, w) \<Rightarrow> (Ok c, sh\<lparr>shWorld := w\<rparr>))" for g
    by (simp add: no_panic_def split: prod.split sum.split)
  ultimately show ?thesis unfolding connect_def by (intro calm)
qed

text \<open>How a run of the command unfolds.\<close>

lemma RunE_cases:
  assumes "RunE su flags dash args signals w m = Some (r, x)" and "dash \<le> int (length args)"
  obtains (early) sh where "x = Without_app sh" "r \<noteq> Ok ()" "\<forall>p. r \<noteq> Panic p"
      "\<forall>s. sh = Some s \<longrightarrow> quiet_shell m s \<and> \<not> spinning (shStatus s)"
    | (app) f names runargs c suites version params sh a' where "x = With_app a'"
      "split_args dash args = Ok (names, runargs)"
      "choose_name (suIntn su) (propagate_alias flags) = Inr f" "quiet_shell m sh"
      "app_session (client_impl (suCf su)) (ConduitExistingApp f) (Verbose f) signals
         (make_app f names runargs (c, shWorld sh) suites version params (shMachine sh) (shStatus sh)) = Some (r, a')"
proof -
  have sp: "\<exists>names runargs. split_args dash args = Ok (names, runargs)"
    using assms(2) by (auto simp: split_args_def)
  then obtain names runargs where sp: "split_args dash args = Ok (names, runargs)" by blast
  show thesis
  proof (cases "choose_name (suIntn su) (propagate_alias flags)")
    case (Inl e)
    with assms(1) sp show thesis by (intro early [of None]) (auto simp: RunE_def)
  next
    case f: (Inr f)
    let ?sh = "\<lparr>shWorld = w, shMachine = m, shStatus = NewStatus (NonInteractive f) (Verbose f) (suOk su)\<rparr>"
    obtain y sh1 where c: "connect su f ?sh = (y, sh1)" by fastforce
    have "quiet_shell m ?sh" by simp
    from preservesD [OF quiet_connect this] c have q: "quiet_shell m sh1" by (metis snd_conv)
    then have d: "quiet_shell m (sh1\<lparr>shStatus := Done (shStatus sh1)\<rparr>)" by simp
    show thesis
    proof (cases y)
      case (Ok z)
      obtain cl suites version params where z: "z = (cl, suites, version, params)" by (cases z)
      with assms(1) sp f c Ok show thesis
        by (auto simp: RunE_def Let_def intro!: app [OF _ sp f q])
    next
      case (Err e)
      with assms(1) sp f c d show thesis
        by (intro early [of "Some (sh1\<lparr>shStatus := Done (shStatus sh1)\<rparr>)"]) (auto simp: RunE_def Let_def)
    next
      case (Panic p)
      with c calm_connect [of su f] show thesis by (auto dest: no_panicD)
    qed
  qed
qed

lemma make_app_simps:
  "tlsTunnels (make_app f names args c suites version params m st) = []"
  "mach (make_app f names args c suites version params m st) = m"
  "runArgs (make_app f names args c suites version params m st) = args"
  "program (make_app f names args c suites version params m st) = (if args = [] then [] else hd args)"
  "serviceProviders (make_app f names args c suites version params m st) = fresh_providers"
  "runEnv (make_app f names args c suites version params m st) = []"
  "appStatus (make_app f names args c suites version params m st) = st"
  by (simp_all add: make_app_def fresh_providers_def RegisterServiceProvider_def NewApp_def hd_conv_nth)

section \<open>A run of the command\<close>

text \<open>
  Property C14: an error before the application exists (flags, cipher suites, the TLS version, the
  account, the local port, the bind parameters) ends the run with that error; nothing was
  started, every socket is closed again and the spinner is off.
\<close>

theorem RunE_early_error:
  assumes "RunE su flags dash args signals w m = Some (r, Without_app x)" and "dash \<le> int (length args)"
  shows "(\<exists>e. r = Err e) \<and> (\<forall>sh. x = Some sh \<longrightarrow> listening (shMachine sh) = listening m
    \<and> runs (shMachine sh) = runs m \<and> \<not> spinning (shStatus sh))"
  using assms
proof (cases rule: RunE_cases)
  case (early sh)
  then show ?thesis by (cases r) (auto simp: processes_def)
qed simp



section \<open>Witnesses\<close>

definition demo_surroundings :: "nat surroundings" where
  "demo_surroundings = \<lparr>suCf = demo_api demo_env [\<lparr>siGuid = ''g1'', siName = ''cache''\<rparr>] [],
     suSecure = go_CipherSuites, suInsecure = go_InsecureCipherSuites, suIntn = (\<lambda>i. 30), suOk = ''OK'',
     suHandle = demo_config, suInfo = demo_info\<rparr>"

definition demo_flags :: flags where
  "demo_flags = (main_flags True (\<lambda>_. []))\<lparr>ApiToken := ''bearer abc'', CipherSuites := [],
     ConduitOrg := ''org'', ConduitSpace := ''space'', ConduitAppName := ''app''\<rparr>"

abbreviation demo_args :: "string list" where
  "demo_args \<equiv> [''cache'', ''redis-cli'', ''ping'']"

definition demo_shell :: "nat shell" where
  "demo_shell = \<lparr>shWorld = 0, shMachine = demo_machine\<lparr>calls := 1\<rparr>,
     shStatus = Text [''Connecting client''] (NewStatus False False ''OK'')\<rparr>"

definition demo_connected :: client where
  "demo_connected = \<lparr>goCFClient = demo_config\<lparr>cfgApiAddress := ''http://api.bosh-lite.com'',
       cfgTls := \<lparr>tlsInsecureSkipVerify = False, tlsMinVersion = 771, tlsCipherSuites = [53, 157, 49196, 49200]\<rparr>\<rparr>,
     apiEndpoint = [], insecureSkipVerify = False, cipherSuites = [53, 157, 49196, 49200],
     minTLSVersion = 771, token = ''bearer abc'', info = demo_info\<rparr>"

lemma demo_connect_steps:
  "CipherSuiteNamesToIDs (suSecure demo_surroundings) (suInsecure demo_surroundings) (CipherSuites demo_flags)
     = Inr [53, 157, 49196, 49200]"
  "TLSVersionToID (MinTLSVersion demo_flags) = Inr 771"
  "bind_params (suCf demo_surroundings) (RawBindParameters demo_flags) = Inr (GMap [])"
  "case NewClient (suCf demo_surroundings) (suHandle demo_surroundings) (suInfo demo_surroundings) (ApiEndpoint demo_flags)
     (ApiToken demo_flags) (ApiInsecure demo_flags) [53, 157, 49196, 49200] 771 0 of
     (Inr c, w) \<Rightarrow> c = demo_connected \<and> w = 0 | _ \<Rightarrow> False"
  "\<not> fst (PortIsInUse 7080 demo_machine)"
  by code_simp+

lemma demo_port: "PortIsInUse 7080 demo_machine = (False, demo_machine\<lparr>calls := 1\<rparr>)"
proof -
  obtain r m where l: "Listen (addr_text ''127.0.0.1'' 7080) demo_machine = (r, m)" by fastforce
  with demo_connect_steps(5) obtain a where r: "r = Ok a" by (cases r) (auto simp: PortIsInUse_def)
  from Listen_local [OF l] l r show ?thesis by (simp add: PortIsInUse_def Close_def demo_machine_def)
qed

lemma demo_connect:
  "connect demo_surroundings demo_flags \<lparr>shWorld = 0, shMachine = demo_machine, shStatus = NewStatus False False ''OK''\<rparr>
     = (Ok (demo_connected, [53, 157, 49196, 49200], 771, GMap []), demo_shell)"
proof -
  have p: "ConduitLocalPort demo_flags = 7080" by (simp add: demo_flags_def main_flags_def)
  have c: "NewClient (suCf demo_surroundings) (suHandle demo_surroundings) (suInfo demo_surroundings) (ApiEndpoint demo_flags)
     (ApiToken demo_flags) (ApiInsecure demo_flags) [53, 157, 49196, 49200] 771 0 = (Inr demo_connected, 0)"
    using demo_connect_steps(4) by (auto split: prod.splits sum.splits)
  show ?thesis
    by (simp add: connect_def demo_connect_steps(1-3) c p demo_port of_sum_def seq_def ret_def upd_def demo_shell_def)
qed

lemma demo_RunE:
  "RunE demo_surroundings demo_flags 1 demo_args 0 0 demo_machine
     = map_option (\<lambda>(r, a). (r, With_app a)) (app_session (client_impl (suCf demo_surroundings)) False False 0
         (make_app demo_flags [''cache''] [''redis-cli'', ''ping''] (demo_connected, 0)
            [53, 157, 49196, 49200] 771 (GMap []) (shMachine demo_shell) (shStatus demo_shell)))"
proof -
  have f: "choose_name intn (propagate_alias demo_flags) = Inr demo_flags" for intn
    by (simp add: choose_name_def propagate_alias_def demo_flags_def main_flags_def)
  have g: "NonInteractive demo_flags = False" "Verbose demo_flags = False" "ConduitExistingApp demo_flags = False"
    "suOk demo_surroundings = ''OK''" "shWorld demo_shell = 0"
    by (simp_all add: demo_flags_def main_flags_def demo_surroundings_def demo_shell_def)
  show ?thesis
    unfolding RunE_def split_args_def by (simp add: f g demo_connect Let_def)
qed

lemma demo_command:
  "case app_session (client_impl (suCf demo_surroundings)) False False 0
     (make_app demo_flags [''cache''] [''redis-cli'', ''ping''] (demo_connected, 0)
            [53, 157, 49196, 49200] 771 (GMap []) (shMachine demo_shell) (shStatus demo_shell)) of
     Some (r, a) \<Rightarrow> is_ok r \<and> length (runs (mach a)) = 1 | None \<Rightarrow> False"
  by code_simp

lemma demo_command_run:
  "\<exists>a. RunE demo_surroundings demo_flags 1 demo_args 0 0 demo_machine = Some (Ok (), With_app a)
     \<and> length (runs (mach a)) = 1"
  using demo_command unfolding demo_RunE by (auto elim!: is_okE split: option.splits)



definition early_flags :: flags where
  "early_flags = demo_flags\<lparr>MinTLSVersion := ''TLS9''\<rparr>"

lemma demo_early:
  "case RunE demo_surroundings early_flags 1 demo_args 0 0 demo_machine of
     Some (r, Without_app (Some sh)) \<Rightarrow> True | _ \<Rightarrow> False"
  by code_simp

theorem RunE_early_error_witness:
  "\<exists>e sh. RunE demo_surroundings early_flags 1 demo_args 0 0 demo_machine
       = Some (Err e, Without_app (Some sh)) \<and> listening (shMachine sh) = []"
proof -
  obtain r sh where run: "RunE demo_surroundings early_flags 1 demo_args 0 0 demo_machine
      = Some (r, Without_app (Some sh))"
    using demo_early
    by (cases "RunE demo_surroundings early_flags 1 demo_args 0 0 demo_machine")
      (auto split: ended.splits option.splits)
  from RunE_early_error [OF run] run show ?thesis by (auto simp: demo_machine_def)
qed

text \<open>The sessions, with their calls recorded.\<close>

abbreviation demo_session_api :: "(nat cst \<times> cf_call list) client_api" where
  "demo_session_api \<equiv> logged (client_impl (suCf demo_surroundings))"

definition demo_session_app :: "flags \<Rightarrow> string list \<Rightarrow> (nat cst \<times> cf_call list) app" where
  "demo_session_app f args =
     make_app f [''cache''] args ((demo_client, 0), []) [] 0x0303 (GMap []) demo_machine (NewStatus True False ''OK'')"

lemma demo_session:
  "case app_session demo_session_api False False 0 (demo_session_app demo_flags [''redis-cli'']) of
     Some (r, a) \<Rightarrow> is_ok r \<and> appGUID a = ''app-guid'' | None \<Rightarrow> False"
  by code_simp

theorem session_destroys_witness:
  "\<exists>a. app_session demo_session_api False False 0 (demo_session_app demo_flags [''redis-cli'']) = Some (Ok (), a)
     \<and> C_Destroy ''app-guid'' \<in> set (call_log a)"
proof -
  let ?a = "demo_session_app demo_flags [''redis-cli'']"
  obtain a where a: "app_session demo_session_api False False 0 ?a = Some (Ok (), a)" "appGUID a = ''app-guid''"
    using demo_session by (auto elim!: is_okE split: option.splits prod.splits)
  have i: "tlsTunnels ?a = []" "call_log ?a = []" "deleteApp ?a"
    by (simp_all add: demo_session_app_def make_app_def fresh_providers_def RegisterServiceProvider_def
        NewApp_def demo_flags_def main_flags_def)
  from session_destroys [OF a(1) i(1,2)] a i(3) show ?thesis by simp
qed

definition existing_flags :: flags where
  "existing_flags = demo_flags\<lparr>ConduitExistingApp := True, ConduitAppName := ''app''\<rparr>"

lemma demo_existing:
  "case app_session demo_session_api True False 0
     (demo_session_app (propagate_alias existing_flags) [''redis-cli'']) of
     Some (r, a) \<Rightarrow> is_ok r \<and> length (call_log a) = 6 | None \<Rightarrow> False"
  by code_simp



end
