(* ===== verification/FakeClient.thy ===== *)
theory FakeClient
  imports Client
begin

text \<open>
  The test double of the client interface (client/clientfakes/fake_client.go, generated by
  counterfeiter): per method a stub, the arguments of the calls made, a value to return, and
  values to return on single calls; and the invocations of all methods by name.
\<close>

section \<open>One method\<close>

text \<open>
  A stub is a closure: it acts on a state \<open>'x\<close> outside of the fake. \<open>ReturnsOnCall\<close> is a nil map until it is
  first used. The methods lock a mutex of their own around each access, so each is one step.
\<close>

record ('a, 'r, 'x) fake_method =
  fmStub :: "('a \<Rightarrow> 'x \<Rightarrow> 'r \<times> 'x) option"
  fmArgsForCall :: "'a list"
  fmReturns :: 'r
  fmReturnsOnCall :: "(int \<times> 'r) list option"

definition new_method :: "'r \<Rightarrow> ('a, 'r, 'x) fake_method" where
  "new_method zero = \<lparr>fmStub = None, fmArgsForCall = [], fmReturns = zero, fmReturnsOnCall = None\<rparr>"

text \<open>A call: the stub answers if there is one, else the value for this call, else the common value.\<close>

definition method_call :: "'a \<Rightarrow> ('a, 'r, 'x) fake_method \<Rightarrow> 'x \<Rightarrow> 'r \<times> ('a, 'r, 'x) fake_method \<times> 'x" where
  "method_call args m x =
     (let ret = (case fmReturnsOnCall m of None \<Rightarrow> None
                 | Some t \<Rightarrow> map_of t (int (length (fmArgsForCall m))));
          m' = m\<lparr>fmArgsForCall := fmArgsForCall m @ [args]\<rparr>
      in case fmStub m of
           Some stub \<Rightarrow> (case stub args x of (r, x') \<Rightarrow> (r, m', x'))
         | None \<Rightarrow> (case ret of Some r \<Rightarrow> (r, m', x) | None \<Rightarrow> (fmReturns m, m', x)))"

definition method_CallCount :: "('a, 'r, 'x) fake_method \<Rightarrow> int" where
  "method_CallCount m = int (length (fmArgsForCall m))"

definition method_Calls :: "('a \<Rightarrow> 'x \<Rightarrow> 'r \<times> 'x) option \<Rightarrow> ('a, 'r, 'x) fake_method \<Rightarrow> ('a, 'r, 'x) fake_method" where
  "method_Calls stub m = m\<lparr>fmStub := stub\<rparr>"

definition index_range :: string where
  "index_range = ''runtime error: index out of range''"

definition method_ArgsForCall :: "int \<Rightarrow> ('a, 'r, 'x) fake_method \<Rightarrow> 'a outcome" where
  "method_ArgsForCall i m =
     (if 0 \<le> i \<and> i < int (length (fmArgsForCall m)) then Ok (fmArgsForCall m ! nat i) else Panic index_range)"

definition method_Returns :: "'r \<Rightarrow> ('a, 'r, 'x) fake_method \<Rightarrow> ('a, 'r, 'x) fake_method" where
  "method_Returns r m = m\<lparr>fmStub := None, fmReturns := r\<rparr>"

definition method_ReturnsOnCall :: "int \<Rightarrow> 'r \<Rightarrow> ('a, 'r, 'x) fake_method \<Rightarrow> ('a, 'r, 'x) fake_method" where
  "method_ReturnsOnCall i r m =
     m\<lparr>fmStub := None,
       fmReturnsOnCall := Some (AList.update i r (case fmReturnsOnCall m of None \<Rightarrow> [] | Some t \<Rightarrow> t))\<rparr>"

section \<open>The fake\<close>

text \<open>An argument as \<open>interface{}\<close>.\<close>

datatype inv_arg = I_string string | I_strings "string list" | I_int int | I_params gval

record 'x fake_client =
  fmAppSSHEndpoint :: "(unit, string, 'x) fake_method"
  fmAppSSHHostKeyFingerprint :: "(unit, string, 'x) fake_method"
  fmBindService :: "(string \<times> string \<times> gval, creds option option \<times> gerror option, 'x) fake_method"
  fmCreateApp :: "(string \<times> string, string \<times> gerror option, 'x) fake_method"
  fmDestroyApp :: "(string, gerror option, 'x) fake_method"
  fmGetAppByName :: "(string \<times> string \<times> string, cf_app option \<times> gerror option, 'x) fake_method"
  fmGetAppEnv :: "(string, env option \<times> gerror option, 'x) fake_method"
  fmGetOrgByName :: "(string, cf_org option \<times> gerror option, 'x) fake_method"
  fmGetServiceBindings :: "(string list, service_binding gomap option \<times> gerror option, 'x) fake_method"
  fmGetServiceInstances :: "(string list, service_instance gomap option \<times> gerror option, 'x) fake_method"
  fmGetSpaceByName :: "(string \<times> string, cf_space option \<times> gerror option, 'x) fake_method"
  fmPollForAppState :: "(string \<times> string \<times> int, gerror option, 'x) fake_method"
  fmRefreshAccessToken :: "(unit, gerror option, 'x) fake_method"
  fmSSHCode :: "(unit, string \<times> gerror option, 'x) fake_method"
  fmStartApp :: "(string, gerror option, 'x) fake_method"
  fmUploadStaticAppBits :: "(string, gerror option, 'x) fake_method"
  invocations :: "(string \<times> inv_arg list list) list option"
  outside :: 'x

text \<open>\<open>new(FakeClient)\<close>: every method returns the zero values.\<close>

definition new_fake :: "'x \<Rightarrow> 'x fake_client" where
  "new_fake x = \<lparr>fmAppSSHEndpoint = new_method [],
     fmAppSSHHostKeyFingerprint = new_method [],
     fmBindService = new_method (None, None),
     fmCreateApp = new_method ([], None),
     fmDestroyApp = new_method None,
     fmGetAppByName = new_method (None, None),
     fmGetAppEnv = new_method (None, None),
     fmGetOrgByName = new_method (None, None),
     fmGetServiceBindings = new_method (None, None),
     fmGetServiceInstances = new_method (None, None),
     fmGetSpaceByName = new_method (None, None),
     fmPollForAppState = new_method None,
     fmRefreshAccessToken = new_method None,
     fmSSHCode = new_method ([], None),
     fmStartApp = new_method None,
     fmUploadStaticAppBits = new_method None,
     invocations = None, outside = x\<rparr>"

definition recordInvocation :: "string \<Rightarrow> inv_arg list \<Rightarrow> 'x fake_client \<Rightarrow> 'x fake_client" where
  "recordInvocation key args f =
     (let t = (case invocations f of None \<Rightarrow> [] | Some t \<Rightarrow> t);
          calls = (case map_of t key of None \<Rightarrow> [] | Some cs \<Rightarrow> cs)
      in f\<lparr>invocations := Some (AList.update key (calls @ [args]) t)\<rparr>)"

text \<open>The copy of the map is shallow, which no one can see here.\<close>

definition fake_Invocations :: "'x fake_client \<Rightarrow> (string \<times> inv_arg list list) list" where
  "fake_Invocations f = (case invocations f of None \<Rightarrow> [] | Some t \<Rightarrow> t)"

section \<open>AppSSHEndpoint\<close>

definition fake_AppSSHEndpoint :: "'x fake_client \<Rightarrow> string \<times> 'x fake_client" where
  "fake_AppSSHEndpoint f =
     (case method_call () (fmAppSSHEndpoint f) (outside f) of (r, m, x) \<Rightarrow>
        (r, (recordInvocation ''AppSSHEndpoint'' [] f)\<lparr>fmAppSSHEndpoint := m, outside := x\<rparr>))"

definition fake_AppSSHEndpointCallCount :: "'x fake_client \<Rightarrow> int" where
  "fake_AppSSHEndpointCallCount f = method_CallCount (fmAppSSHEndpoint f)"

definition fake_AppSSHEndpointCalls ::
  "(unit \<Rightarrow> 'x \<Rightarrow> string \<times> 'x) option \<Rightarrow> 'x fake_client \<Rightarrow> 'x fake_client" where
  "fake_AppSSHEndpointCalls stub f = f\<lparr>fmAppSSHEndpoint := method_Calls stub (fmAppSSHEndpoint f)\<rparr>"

definition fake_AppSSHEndpointReturns :: "string \<Rightarrow> 'x fake_client \<Rightarrow> 'x fake_client" where
  "fake_AppSSHEndpointReturns r f = f\<lparr>fmAppSSHEndpoint := method_Returns r (fmAppSSHEndpoint f)\<rparr>"

definition fake_AppSSHEndpointReturnsOnCall :: "int \<Rightarrow> string \<Rightarrow> 'x fake_client \<Rightarrow> 'x fake_client" where
  "fake_AppSSHEndpointReturnsOnCall i r f = f\<lparr>fmAppSSHEndpoint := method_ReturnsOnCall i r (fmAppSSHEndpoint f)\<rparr>"

section \<open>AppSSHHostKeyFingerprint\<close>

definition fake_AppSSHHostKeyFingerprint :: "'x fake_client \<Rightarrow> string \<times> 'x fake_client" where
  "fake_AppSSHHostKeyFingerprint f =
     (case method_call () (fmAppSSHHostKeyFingerprint f) (outside f) of (r, m, x) \<Rightarrow>
        (r, (recordInvocation ''AppSSHHostKeyFingerprint'' [] f)\<lparr>fmAppSSHHostKeyFingerprint := m, outside := x\<rparr>))"

definition fake_AppSSHHostKeyFingerprintCallCount :: "'x fake_client \<Rightarrow> int" where
  "fake_AppSSHHostKeyFingerprintCallCount f = method_CallCount (fmAppSSHHostKeyFingerprint f)"

definition fake_AppSSHHostKeyFingerprintCalls ::
  "(unit \<Rightarrow> 'x \<Rightarrow> string \<times> 'x) option \<Rightarrow> 'x fake_client \<Rightarrow> 'x fake_client" where
  "fake_AppSSHHostKeyFingerprintCalls stub f = f\<lparr>fmAppSSHHostKeyFingerprint := method_Calls stub (fmAppSSHHostKeyFingerprint f)\<rparr>"

definition fake_AppSSHHostKeyFingerprintReturns :: "string \<Rightarrow> 'x fake_client \<Rightarrow> 'x fake_client" where
  "fake_AppSSHHostKeyFingerprintReturns r f = f\<lparr>fmAppSSHHostKeyFingerprint := method_Returns r (fmAppSSHHostKeyFingerprint f)\<rparr>"

definition fake_AppSSHHostKeyFingerprintReturnsOnCall :: "int \<Rightarrow> string \<Rightarrow> 'x fake_client \<Rightarrow> 'x fake_client" where
  "fake_AppSSHHostKeyFingerprintReturnsOnCall i r f = f\<lparr>fmAppSSHHostKeyFingerprint := method_ReturnsOnCall i r (fmAppSSHHostKeyFingerprint f)\<rparr>"

section \<open>BindService\<close>

definition fake_BindService :: "string \<Rightarrow> string \<Rightarrow> gval \<Rightarrow> 'x fake_client \<Rightarrow> (creds option option \<times> gerror option) \<times> 'x fake_client" where
  "fake_BindService a1 a2 a3 f =
     (case method_call (a1, a2, a3) (fmBindService f) (outside f) of (r, m, x) \<Rightarrow>
        (r, (recordInvocation ''BindService'' [I_string a1, I_string a2, I_params a3] f)\<lparr>fmBindService := m, outside := x\<rparr>))"

definition fake_BindServiceCallCount :: "'x fake_client \<Rightarrow> int" where
  "fake_BindServiceCallCount f = method_CallCount (fmBindService f)"

definition fake_BindServiceCalls ::
  "((string \<times> string \<times> gval) \<Rightarrow> 'x \<Rightarrow> (creds option option \<times> gerror option) \<times> 'x) option \<Rightarrow> 'x fake_client \<Rightarrow> 'x fake_client" where
  "fake_BindServiceCalls stub f = f\<lparr>fmBindService := method_Calls stub (fmBindService f)\<rparr>"

definition fake_BindServiceArgsForCall :: "int \<Rightarrow> 'x fake_client \<Rightarrow> (string \<times> string \<times> gval) outcome" where
  "fake_BindServiceArgsForCall i f = method_ArgsForCall i (fmBindService f)"

definition fake_BindServiceReturns :: "(creds option option \<times> gerror option) \<Rightarrow> 'x fake_client \<Rightarrow> 'x fake_client" where
  "fake_BindServiceReturns r f = f\<lparr>fmBindService := method_Returns r (fmBindService f)\<rparr>"

definition fake_BindServiceReturnsOnCall :: "int \<Rightarrow> (creds option option \<times> gerror option) \<Rightarrow> 'x fake_client \<Rightarrow> 'x fake_client" where
  "fake_BindServiceReturnsOnCall i r f = f\<lparr>fmBindService := method_ReturnsOnCall i r (fmBindService f)\<rparr>"

section \<open>CreateApp\<close>

definition fake_CreateApp :: "string \<Rightarrow> string \<Rightarrow> 'x fake_client \<Rightarrow> (string \<times> gerror option) \<times> 'x fake_client" where
  "fake_CreateApp a1 a2 f =
     (case method_call (a1, a2) (fmCreateApp f) (outside f) of (r, m, x) \<Rightarrow>
        (r, (recordInvocation ''CreateApp'' [I_string a1, I_string a2] f)\<lparr>fmCreateApp := m, outside := x\<rparr>))"

definition fake_CreateAppCallCount :: "'x fake_client \<Rightarrow> int" where
  "fake_CreateAppCallCount f = method_CallCount (fmCreateApp f)"

definition fake_CreateAppCalls ::
  "((string \<times> string) \<Rightarrow> 'x \<Rightarrow> (string \<times> gerror option) \<times> 'x) option \<Rightarrow> 'x fake_client \<Rightarrow> 'x fake_client" where
  "fake_CreateAppCalls stub f = f\<lparr>fmCreateApp := method_Calls stub (fmCreateApp f)\<rparr>"

definition fake_CreateAppArgsForCall :: "int \<Rightarrow> 'x fake_client \<Rightarrow> (string \<times> string) outcome" where
  "fake_CreateAppArgsForCall i f = method_ArgsForCall i (fmCreateApp f)"

definition fake_CreateAppReturns :: "(string \<times> gerror option) \<Rightarrow> 'x fake_client \<Rightarrow> 'x fake_client" where
  "fake_CreateAppReturns r f = f\<lparr>fmCreateApp := method_Returns r (fmCreateApp f)\<rparr>"

definition fake_CreateAppReturnsOnCall :: "int \<Rightarrow> (string \<times> gerror option) \<Rightarrow> 'x fake_client \<Rightarrow> 'x fake_client" where
  "fake_CreateAppReturnsOnCall i r f = f\<lparr>fmCreateApp := method_ReturnsOnCall i r (fmCreateApp f)\<rparr>"

section \<open>DestroyApp\<close>

definition fake_DestroyApp :: "string \<Rightarrow> 'x fake_client \<Rightarrow> (gerror option) \<times> 'x fake_client" where
  "fake_DestroyApp a1 f =
     (case method_call a1 (fmDestroyApp f) (outside f) of (r, m, x) \<Rightarrow>
        (r, (recordInvocation ''DestroyApp'' [I_string a1] f)\<lparr>fmDestroyApp := m, outside := x\<rparr>))"

definition fake_DestroyAppCallCount :: "'x fake_client \<Rightarrow> int" where
  "fake_DestroyAppCallCount f = method_CallCount (fmDestroyApp f)"

definition fake_DestroyAppCalls ::
  "(string \<Rightarrow> 'x \<Rightarrow> (gerror option) \<times> 'x) option \<Rightarrow> 'x fake_client \<Rightarrow> 'x fake_client" where
  "fake_DestroyAppCalls stub f = f\<lparr>fmDestroyApp := method_Calls stub (fmDestroyApp f)\<rparr>"

definition fake_DestroyAppArgsForCall :: "int \<Rightarrow> 'x fake_client \<Rightarrow> string outcome" where
  "fake_DestroyAppArgsForCall i f = method_ArgsForCall i (fmDestroyApp f)"

definition fake_DestroyAppReturns :: "(gerror option) \<Rightarrow> 'x fake_client \<Rightarrow> 'x fake_client" where
  "fake_DestroyAppReturns r f = f\<lparr>fmDestroyApp := method_Returns r (fmDestroyApp f)\<rparr>"

definition fake_DestroyAppReturnsOnCall :: "int \<Rightarrow> (gerror option) \<Rightarrow> 'x fake_client \<Rightarrow> 'x fake_client" where
  "fake_DestroyAppReturnsOnCall i r f = f\<lparr>fmDestroyApp := method_ReturnsOnCall i r (fmDestroyApp f)\<rparr>"

section \<open>GetAppByName\<close>

definition fake_GetAppByName :: "string \<Rightarrow> string \<Rightarrow> string \<Rightarrow> 'x fake_client \<Rightarrow> (cf_app option \<times> gerror option) \<times> 'x fake_client" where
  "fake_GetAppByName a1 a2 a3 f =
     (case method_call (a1, a2, a3) (fmGetAppByName f) (outside f) of (r, m, x) \<Rightarrow>
        (r, (recordInvocation ''GetAppByName'' [I_string a1, I_string a2, I_string a3] f)\<lparr>fmGetAppByName := m, outside := x\<rparr>))"

definition fake_GetAppByNameCallCount :: "'x fake_client \<Rightarrow> int" where
  "fake_GetAppByNameCallCount f = method_CallCount (fmGetAppByName f)"

definition fake_GetAppByNameCalls ::
  "((string \<times> string \<times> string) \<Rightarrow> 'x \<Rightarrow> (cf_app option \<times> gerror option) \<times> 'x) option \<Rightarrow> 'x fake_client \<Rightarrow> 'x fake_client" where
  "fake_GetAppByNameCalls stub f = f\<lparr>fmGetAppByName := method_Calls stub (fmGetAppByName f)\<rparr>"

definition fake_GetAppByNameArgsForCall :: "int \<Rightarrow> 'x fake_client \<Rightarrow> (string \<times> string \<times> string) outcome" where
  "fake_GetAppByNameArgsForCall i f = method_ArgsForCall i (fmGetAppByName f)"

definition fake_GetAppByNameReturns :: "(cf_app option \<times> gerror option) \<Rightarrow> 'x fake_client \<Rightarrow> 'x fake_client" where
  "fake_GetAppByNameReturns r f = f\<lparr>fmGetAppByName := method_Returns r (fmGetAppByName f)\<rparr>"

definition fake_GetAppByNameReturnsOnCall :: "int \<Rightarrow> (cf_app option \<times> gerror option) \<Rightarrow> 'x fake_client \<Rightarrow> 'x fake_client" where
  "fake_GetAppByNameReturnsOnCall i r f = f\<lparr>fmGetAppByName := method_ReturnsOnCall i r (fmGetAppByName f)\<rparr>"

section \<open>GetAppEnv\<close>

definition fake_GetAppEnv :: "string \<Rightarrow> 'x fake_client \<Rightarrow> (env option \<times> gerror option) \<times> 'x fake_client" where
  "fake_GetAppEnv a1 f =
     (case method_call a1 (fmGetAppEnv f) (outside f) of (r, m, x) \<Rightarrow>
        (r, (recordInvocation ''GetAppEnv'' [I_string a1] f)\<lparr>fmGetAppEnv := m, outside := x\<rparr>))"

definition fake_GetAppEnvCallCount :: "'x fake_client \<Rightarrow> int" where
  "fake_GetAppEnvCallCount f = method_CallCount (fmGetAppEnv f)"

definition fake_GetAppEnvCalls ::
  "(string \<Rightarrow> 'x \<Rightarrow> (env option \<times> gerror option) \<times> 'x) option \<Rightarrow> 'x fake_client \<Rightarrow> 'x fake_client" where
  "fake_GetAppEnvCalls stub f = f\<lparr>fmGetAppEnv := method_Calls stub (fmGetAppEnv f)\<rparr>"

definition fake_GetAppEnvArgsForCall :: "int \<Rightarrow> 'x fake_client \<Rightarrow> string outcome" where
  "fake_GetAppEnvArgsForCall i f = method_ArgsForCall i (fmGetAppEnv f)"

definition fake_GetAppEnvReturns :: "(env option \<times> gerror option) \<Rightarrow> 'x fake_client \<Rightarrow> 'x fake_client" where
  "fake_GetAppEnvReturns r f = f\<lparr>fmGetAppEnv := method_Returns r (fmGetAppEnv f)\<rparr>"

definition fake_GetAppEnvReturnsOnCall :: "int \<Rightarrow> (env option \<times> gerror option) \<Rightarrow> 'x fake_client \<Rightarrow> 'x fake_client" where
  "fake_GetAppEnvReturnsOnCall i r f = f\<lparr>fmGetAppEnv := method_ReturnsOnCall i r (fmGetAppEnv f)\<rparr>"

section \<open>GetOrgByName\<close>

definition fake_GetOrgByName :: "string \<Rightarrow> 'x fake_client \<Rightarrow> (cf_org option \<times> gerror option) \<times> 'x fake_client" where
  "fake_GetOrgByName a1 f =
     (case method_call a1 (fmGetOrgByName f) (outside f) of (r, m, x) \<Rightarrow>
        (r, (recordInvocation ''GetOrgByName'' [I_string a1] f)\<lparr>fmGetOrgByName := m, outside := x\<rparr>))"

definition fake_GetOrgByNameCallCount :: "'x fake_client \<Rightarrow> int" where
  "fake_GetOrgByNameCallCount f = method_CallCount (fmGetOrgByName f)"

definition fake_GetOrgByNameCalls ::
  "(string \<Rightarrow> 'x \<Rightarrow> (cf_org option \<times> gerror option) \<times> 'x) option \<Rightarrow> 'x fake_client \<Rightarrow> 'x fake_client" where
  "fake_GetOrgByNameCalls stub f = f\<lparr>fmGetOrgByName := method_Calls stub (fmGetOrgByName f)\<rparr>"

definition fake_GetOrgByNameArgsForCall :: "int \<Rightarrow> 'x fake_client \<Rightarrow> string outcome" where
  "fake_GetOrgByNameArgsForCall i f = method_ArgsForCall i (fmGetOrgByName f)"

definition fake_GetOrgByNameReturns :: "(cf_org option \<times> gerror option) \<Rightarrow> 'x fake_client \<Rightarrow> 'x fake_client" where
  "fake_GetOrgByNameReturns r f = f\<lparr>fmGetOrgByName := method_Returns r (fmGetOrgByName f)\<rparr>"

definition fake_GetOrgByNameReturnsOnCall :: "int \<Rightarrow> (cf_org option \<times> gerror option) \<Rightarrow> 'x fake_client \<Rightarrow> 'x fake_client" where
  "fake_GetOrgByNameReturnsOnCall i r f = f\<lparr>fmGetOrgByName := method_ReturnsOnCall i r (fmGetOrgByName f)\<rparr>"

section \<open>GetServiceBindings\<close>

definition fake_GetServiceBindings :: "string list \<Rightarrow> 'x fake_client \<Rightarrow> (service_binding gomap option \<times> gerror option) \<times> 'x fake_client" where
  "fake_GetServiceBindings a1 f =
     (case method_call a1 (fmGetServiceBindings f) (outside f) of (r, m, x) \<Rightarrow>
        (r, (recordInvocation ''GetServiceBindings'' [I_strings a1] f)\<lparr>fmGetServiceBindings := m, outside := x\<rparr>))"

definition fake_GetServiceBindingsCallCount :: "'x fake_client \<Rightarrow> int" where
  "fake_GetServiceBindingsCallCount f = method_CallCount (fmGetServiceBindings f)"

definition fake_GetServiceBindingsCalls ::
  "((string list) \<Rightarrow> 'x \<Rightarrow> (service_binding gomap option \<times> gerror option) \<times> 'x) option \<Rightarrow> 'x fake_client \<Rightarrow> 'x fake_client" where
  "fake_GetServiceBindingsCalls stub f = f\<lparr>fmGetServiceBindings := method_Calls stub (fmGetServiceBindings f)\<rparr>"

definition fake_GetServiceBindingsArgsForCall :: "int \<Rightarrow> 'x fake_client \<Rightarrow> (string list) outcome" where
  "fake_GetServiceBindingsArgsForCall i f = method_ArgsForCall i (fmGetServiceBindings f)"

definition fake_GetServiceBindingsReturns :: "(service_binding gomap option \<times> gerror option) \<Rightarrow> 'x fake_client \<Rightarrow> 'x fake_client" where
  "fake_GetServiceBindingsReturns r f = f\<lparr>fmGetServiceBindings := method_Returns r (fmGetServiceBindings f)\<rparr>"

definition fake_GetServiceBindingsReturnsOnCall :: "int \<Rightarrow> (service_binding gomap option \<times> gerror option) \<Rightarrow> 'x fake_client \<Rightarrow> 'x fake_client" where
  "fake_GetServiceBindingsReturnsOnCall i r f = f\<lparr>fmGetServiceBindings := method_ReturnsOnCall i r (fmGetServiceBindings f)\<rparr>"

section \<open>GetServiceInstances\<close>

definition fake_GetServiceInstances :: "string list \<Rightarrow> 'x fake_client \<Rightarrow> (service_instance gomap option \<times> gerror option) \<times> 'x fake_client" where
  "fake_GetServiceInstances a1 f =
     (case method_call a1 (fmGetServiceInstances f) (outside f) of (r, m, x) \<Rightarrow>
        (r, (recordInvocation ''GetServiceInstances'' [I_strings a1] f)\<lparr>fmGetServiceInstances := m, outside := x\<rparr>))"

definition fake_GetServiceInstancesCallCount :: "'x fake_client \<Rightarrow> int" where
  "fake_GetServiceInstancesCallCount f = method_CallCount (fmGetServiceInstances f)"

definition fake_GetServiceInstancesCalls ::
  "((string list) \<Rightarrow> 'x \<Rightarrow> (service_instance gomap option \<times> gerror option) \<times> 'x) option \<Rightarrow> 'x fake_client \<Rightarrow> 'x fake_client" where
  "fake_GetServiceInstancesCalls stub f = f\<lparr>fmGetServiceInstances := method_Calls stub (fmGetServiceInstances f)\<rparr>"

definition fake_GetServiceInstancesArgsForCall :: "int \<Rightarrow> 'x fake_client \<Rightarrow> (string list) outcome" where
  "fake_GetServiceInstancesArgsForCall i f = method_ArgsForCall i (fmGetServiceInstances f)"

definition fake_GetServiceInstancesReturns :: "(service_instance gomap option \<times> gerror option) \<Rightarrow> 'x fake_client \<Rightarrow> 'x fake_client" where
  "fake_GetServiceInstancesReturns r f = f\<lparr>fmGetServiceInstances := method_Returns r (fmGetServiceInstances f)\<rparr>"

definition fake_GetServiceInstancesReturnsOnCall :: "int \<Rightarrow> (service_instance gomap option \<times> gerror option) \<Rightarrow> 'x fake_client \<Rightarrow> 'x fake_client" where
  "fake_GetServiceInstancesReturnsOnCall i r f = f\<lparr>fmGetServiceInstances := method_ReturnsOnCall i r (fmGetServiceInstances f)\<rparr>"

section \<open>GetSpaceByName\<close>

definition fake_GetSpaceByName :: "string \<Rightarrow> string \<Rightarrow> 'x fake_client \<Rightarrow> (cf_space option \<times> gerror option) \<times> 'x fake_client" where
  "fake_GetSpaceByName a1 a2 f =
     (case method_call (a1, a2) (fmGetSpaceByName f) (outside f) of (r, m, x) \<Rightarrow>
        (r, (recordInvocation ''GetSpaceByName'' [I_string a1, I_string a2] f)\<lparr>fmGetSpaceByName := m, outside := x\<rparr>))"

definition fake_GetSpaceByNameCallCount :: "'x fake_client \<Rightarrow> int" where
  "fake_GetSpaceByNameCallCount f = method_CallCount (fmGetSpaceByName f)"

definition fake_GetSpaceByNameCalls ::
  "((string \<times> string) \<Rightarrow> 'x \<Rightarrow> (cf_space option \<times> gerror option) \<times> 'x) option \<Rightarrow> 'x fake_client \<Rightarrow> 'x fake_client" where
  "fake_GetSpaceByNameCalls stub f = f\<lparr>fmGetSpaceByName := method_Calls stub (fmGetSpaceByName f)\<rparr>"

definition fake_GetSpaceByNameArgsForCall :: "int \<Rightarrow> 'x fake_client \<Rightarrow> (string \<times> string) outcome" where
  "fake_GetSpaceByNameArgsForCall i f = method_ArgsForCall i (fmGetSpaceByName f)"

definition fake_GetSpaceByNameReturns :: "(cf_space option \<times> gerror option) \<Rightarrow> 'x fake_client \<Rightarrow> 'x fake_client" where
  "fake_GetSpaceByNameReturns r f = f\<lparr>fmGetSpaceByName := method_Returns r (fmGetSpaceByName f)\<rparr>"

definition fake_GetSpaceByNameReturnsOnCall :: "int \<Rightarrow> (cf_space option \<times> gerror option) \<Rightarrow> 'x fake_client \<Rightarrow> 'x fake_client" where
  "fake_GetSpaceByNameReturnsOnCall i r f = f\<lparr>fmGetSpaceByName := method_ReturnsOnCall i r (fmGetSpaceByName f)\<rparr>"

section \<open>PollForAppState\<close>

definition fake_PollForAppState :: "string \<Rightarrow> string \<Rightarrow> int \<Rightarrow> 'x fake_client \<Rightarrow> (gerror option) \<times> 'x fake_client" where
  "fake_PollForAppState a1 a2 a3 f =
     (case method_call (a1, a2, a3) (fmPollForAppState f) (outside f) of (r, m, x) \<Rightarrow>
        (r, (recordInvocation ''PollForAppState'' [I_string a1, I_string a2, I_int a3] f)\<lparr>fmPollForAppState := m, outside := x\<rparr>))"

definition fake_PollForAppStateCallCount :: "'x fake_client \<Rightarrow> int" where
  "fake_PollForAppStateCallCount f = method_CallCount (fmPollForAppState f)"

definition fake_PollForAppStateCalls ::
  "((string \<times> string \<times> int) \<Rightarrow> 'x \<Rightarrow> (gerror option) \<times> 'x) option \<Rightarrow> 'x fake_client \<Rightarrow> 'x fake_client" where
  "fake_PollForAppStateCalls stub f = f\<lparr>fmPollForAppState := method_Calls stub (fmPollForAppState f)\<rparr>"

definition fake_PollForAppStateArgsForCall :: "int \<Rightarrow> 'x fake_client \<Rightarrow> (string \<times> string \<times> int) outcome" where
  "fake_PollForAppStateArgsForCall i f = method_ArgsForCall i (fmPollForAppState f)"

definition fake_PollForAppStateReturns :: "(gerror option) \<Rightarrow> 'x fake_client \<Rightarrow> 'x fake_client" where
  "fake_PollForAppStateReturns r f = f\<lparr>fmPollForAppState := method_Returns r (fmPollForAppState f)\<rparr>"

definition fake_PollForAppStateReturnsOnCall :: "int \<Rightarrow> (gerror option) \<Rightarrow> 'x fake_client \<Rightarrow> 'x fake_client" where
  "fake_PollForAppStateReturnsOnCall i r f = f\<lparr>fmPollForAppState := method_ReturnsOnCall i r (fmPollForAppState f)\<rparr>"

section \<open>RefreshAccessToken\<close>

definition fake_RefreshAccessToken :: "'x fake_client \<Rightarrow> (gerror option) \<times> 'x fake_client" where
  "fake_RefreshAccessToken f =
     (case method_call () (fmRefreshAccessToken f) (outside f) of (r, m, x) \<Rightarrow>
        (r, (recordInvocation ''RefreshAccessToken'' [] f)\<lparr>fmRefreshAccessToken := m, outside := x\<rparr>))"

definition fake_RefreshAccessTokenCallCount :: "'x fake_client \<Rightarrow> int" where
  "fake_RefreshAccessTokenCallCount f = method_CallCount (fmRefreshAccessToken f)"

definition fake_RefreshAccessTokenCalls ::
  "(unit \<Rightarrow> 'x \<Rightarrow> (gerror option) \<times> 'x) option \<Rightarrow> 'x fake_client \<Rightarrow> 'x fake_client" where
  "fake_RefreshAccessTokenCalls stub f = f\<lparr>fmRefreshAccessToken := method_Calls stub (fmRefreshAccessToken f)\<rparr>"

definition fake_RefreshAccessTokenReturns :: "(gerror option) \<Rightarrow> 'x fake_client \<Rightarrow> 'x fake_client" where
  "fake_RefreshAccessTokenReturns r f = f\<lparr>fmRefreshAccessToken := method_Returns r (fmRefreshAccessToken f)\<rparr>"

definition fake_RefreshAccessTokenReturnsOnCall :: "int \<Rightarrow> (gerror option) \<Rightarrow> 'x fake_client \<Rightarrow> 'x fake_client" where
  "fake_RefreshAccessTokenReturnsOnCall i r f = f\<lparr>fmRefreshAccessToken := method_ReturnsOnCall i r (fmRefreshAccessToken f)\<rparr>"

section \<open>SSHCode\<close>

definition fake_SSHCode :: "'x fake_client \<Rightarrow> (string \<times> gerror option) \<times> 'x fake_client" where
  "fake_SSHCode f =
     (case method_call () (fmSSHCode f) (outside f) of (r, m, x) \<Rightarrow>
        (r, (recordInvocation ''SSHCode'' [] f)\<lparr>fmSSHCode := m, outside := x\<rparr>))"

definition fake_SSHCodeCallCount :: "'x fake_client \<Rightarrow> int" where
  "fake_SSHCodeCallCount f = method_CallCount (fmSSHCode f)"

definition fake_SSHCodeCalls ::
  "(unit \<Rightarrow> 'x \<Rightarrow> (string \<times> gerror option) \<times> 'x) option \<Rightarrow> 'x fake_client \<Rightarrow> 'x fake_client" where
  "fake_SSHCodeCalls stub f = f\<lparr>fmSSHCode := method_Calls stub (fmSSHCode f)\<rparr>"

definition fake_SSHCodeReturns :: "(string \<times> gerror option) \<Rightarrow> 'x fake_client \<Rightarrow> 'x fake_client" where
  "fake_SSHCodeReturns r f = f\<lparr>fmSSHCode := method_Returns r (fmSSHCode f)\<rparr>"

definition fake_SSHCodeReturnsOnCall :: "int \<Rightarrow> (string \<times> gerror option) \<Rightarrow> 'x fake_client \<Rightarrow> 'x fake_client" where
  "fake_SSHCodeReturnsOnCall i r f = f\<lparr>fmSSHCode := method_ReturnsOnCall i r (fmSSHCode f)\<rparr>"

section \<open>StartApp\<close>

definition fake_StartApp :: "string \<Rightarrow> 'x fake_client \<Rightarrow> (gerror option) \<times> 'x fake_client" where
  "fake_StartApp a1 f =
     (case method_call a1 (fmStartApp f) (outside f) of (r, m, x) \<Rightarrow>
        (r, (recordInvocation ''StartApp'' [I_string a1] f)\<lparr>fmStartApp := m, outside := x\<rparr>))"

definition fake_StartAppCallCount :: "'x fake_client \<Rightarrow> int" where
  "fake_StartAppCallCount f = method_CallCount (fmStartApp f)"

definition fake_StartAppCalls ::
  "(string \<Rightarrow> 'x \<Rightarrow> (gerror option) \<times> 'x) option \<Rightarrow> 'x fake_client \<Rightarrow> 'x fake_client" where
  "fake_StartAppCalls stub f = f\<lparr>fmStartApp := method_Calls stub (fmStartApp f)\<rparr>"

definition fake_StartAppArgsForCall :: "int \<Rightarrow> 'x fake_client \<Rightarrow> string outcome" where
  "fake_StartAppArgsForCall i f = method_ArgsForCall i (fmStartApp f)"

definition fake_StartAppReturns :: "(gerror option) \<Rightarrow> 'x fake_client \<Rightarrow> 'x fake_client" where
  "fake_StartAppReturns r f = f\<lparr>fmStartApp := method_Returns r (fmStartApp f)\<rparr>"

definition fake_StartAppReturnsOnCall :: "int \<Rightarrow> (gerror option) \<Rightarrow> 'x fake_client \<Rightarrow> 'x fake_client" where
  "fake_StartAppReturnsOnCall i r f = f\<lparr>fmStartApp := method_ReturnsOnCall i r (fmStartApp f)\<rparr>"

section \<open>UploadStaticAppBits\<close>

definition fake_UploadStaticAppBits :: "string \<Rightarrow> 'x fake_client \<Rightarrow> (gerror option) \<times> 'x fake_client" where
  "fake_UploadStaticAppBits a1 f =
     (case method_call a1 (fmUploadStaticAppBits f) (outside f) of (r, m, x) \<Rightarrow>
        (r, (recordInvocation ''UploadStaticAppBits'' [I_string a1] f)\<lparr>fmUploadStaticAppBits := m, outside := x\<rparr>))"

definition fake_UploadStaticAppBitsCallCount :: "'x fake_client \<Rightarrow> int" where
  "fake_UploadStaticAppBitsCallCount f = method_CallCount (fmUploadStaticAppBits f)"

definition fake_UploadStaticAppBitsCalls ::
  "(string \<Rightarrow> 'x \<Rightarrow> (gerror option) \<times> 'x) option \<Rightarrow> 'x fake_client \<Rightarrow> 'x fake_client" where
  "fake_UploadStaticAppBitsCalls stub f = f\<lparr>fmUploadStaticAppBits := method_Calls stub (fmUploadStaticAppBits f)\<rparr>"

definition fake_UploadStaticAppBitsArgsForCall :: "int \<Rightarrow> 'x fake_client \<Rightarrow> string outcome" where
  "fake_UploadStaticAppBitsArgsForCall i f = method_ArgsForCall i (fmUploadStaticAppBits f)"

definition fake_UploadStaticAppBitsReturns :: "(gerror option) \<Rightarrow> 'x fake_client \<Rightarrow> 'x fake_client" where
  "fake_UploadStaticAppBitsReturns r f = f\<lparr>fmUploadStaticAppBits := method_Returns r (fmUploadStaticAppBits f)\<rparr>"

definition fake_UploadStaticAppBitsReturnsOnCall :: "int \<Rightarrow> (gerror option) \<Rightarrow> 'x fake_client \<Rightarrow> 'x fake_client" where
  "fake_UploadStaticAppBitsReturnsOnCall i r f = f\<lparr>fmUploadStaticAppBits := method_ReturnsOnCall i r (fmUploadStaticAppBits f)\<rparr>"

end
