(* ===== verification/FakeProps.thy ===== *)
theory FakeProps
  imports FakeClient Deployment
begin

text \<open>
  Properties of the test double: what it answers and records, and that with stubs that pass every
  call on to the real client it behaves like that client and records its calls.
\<close>

section \<open>Answers of one method\<close>

text \<open>Calls of a method one after the other, with their answers.\<close>

fun method_answers :: "'a list \<Rightarrow> ('a, 'r, 'x) fake_method \<Rightarrow> 'x \<Rightarrow> 'r list \<times> ('a, 'r, 'x) fake_method \<times> 'x" where
  "method_answers [] m x = ([], m, x)"
| "method_answers (a # as) m x =
     (case method_call a m x of (r, m1, x1) \<Rightarrow>
        (case method_answers as m1 x1 of (rs, m2, x2) \<Rightarrow> (r # rs, m2, x2)))"

lemma method_call_fixed:
  assumes "fmStub m = None"
  shows "method_call a m x =
    ((case fmReturnsOnCall m of None \<Rightarrow> fmReturns m
      | Some t \<Rightarrow> (case map_of t (method_CallCount m) of None \<Rightarrow> fmReturns m | Some r \<Rightarrow> r)),
     m\<lparr>fmArgsForCall := fmArgsForCall m @ [a]\<rparr>, x)"
  using assms by (simp add: method_call_def method_CallCount_def Let_def split: option.split)

text \<open>
  Without a stub, the n-th call gets the value set for it, or the common one; the arguments are
  all recorded, in order.
\<close>

lemma method_answers_fixed:
  assumes "fmStub m = None"
  shows "method_answers as m x =
    (map (\<lambda>i. case fmReturnsOnCall m of None \<Rightarrow> fmReturns m
            | Some t \<Rightarrow> (case map_of t (method_CallCount m + int i) of None \<Rightarrow> fmReturns m | Some r \<Rightarrow> r))
       [0..<length as],
     m\<lparr>fmArgsForCall := fmArgsForCall m @ as\<rparr>, x)"
  using assms
proof (induction as arbitrary: m)
  case (Cons a as)
  have shift: "map g [0..<Suc n] = g 0 # map (\<lambda>i. g (Suc i)) [0..<n]" for g :: "nat \<Rightarrow> 'r" and n
    by (simp add: map_upt_Suc del: upt_Suc)
  let ?m = "m\<lparr>fmArgsForCall := fmArgsForCall m @ [a]\<rparr>"
  have s: "fmStub ?m = None" using Cons.prems by simp
  show ?case
    unfolding method_answers.simps method_call_fixed [OF Cons.prems] prod.case Cons.IH [OF s]
      list.size(4) add_0_right add_Suc_right shift
    by (auto simp: method_CallCount_def algebra_simps split: option.split)
qed simp

text \<open>Counting and reading the calls back.\<close>

lemma method_answers_recorded:
  assumes "method_answers as (new_method z) x = (rs, m, x')" and "i < length as"
  shows "method_CallCount m = int (length as) \<and> method_ArgsForCall (int i) m = Ok (as ! i)"
  using assms method_answers_fixed [of "new_method z" as x]
  by (auto simp: new_method_def method_CallCount_def method_ArgsForCall_def)

section \<open>The fake as a client\<close>

text \<open>
  A Go pair of a pointer and an error as an outcome: the application dereferences a nil result
  without an error at once.
\<close>

definition ptr_outcome :: "'a option \<times> gerror option \<Rightarrow> 'a outcome" where
  "ptr_outcome r = (case r of (_, Some e) \<Rightarrow> Err e | (Some v, None) \<Rightarrow> Ok v | (None, None) \<Rightarrow> Panic nil_deref)"

definition map_outcome_of :: "'a list option \<times> gerror option \<Rightarrow> 'a list outcome" where
  "map_outcome_of r = (case r of (_, Some e) \<Rightarrow> Err e | (m, None) \<Rightarrow> Ok (case m of None \<Rightarrow> [] | Some v \<Rightarrow> v))"

definition val_outcome :: "'a \<times> gerror option \<Rightarrow> 'a outcome" where
  "val_outcome r = (case r of (_, Some e) \<Rightarrow> Err e | (v, None) \<Rightarrow> Ok v)"

definition err_outcome :: "gerror option \<Rightarrow> unit outcome" where
  "err_outcome r = (case r of None \<Rightarrow> Ok () | Some e \<Rightarrow> Err e)"

text \<open>\<open>var _ client.Client = new(FakeClient)\<close>: the fake is a client.\<close>

definition fake_impl :: "'x fake_client client_api" where
  "fake_impl =
     \<lparr>RefreshAccessToken = (\<lambda>f. apfst err_outcome (fake_RefreshAccessToken f)),
      GetAppEnv = (\<lambda>g f. apfst ptr_outcome (fake_GetAppEnv g f)),
      GetSpaceByName = (\<lambda>og n f. apfst ptr_outcome (fake_GetSpaceByName og n f)),
      GetOrgByName = (\<lambda>n f. apfst ptr_outcome (fake_GetOrgByName n f)),
      GetAppByName = (\<lambda>og sg n f. apfst ptr_outcome (fake_GetAppByName og sg n f)),
      GetServiceBindings = (\<lambda>fs f. apfst map_outcome_of (fake_GetServiceBindings fs f)),
      GetServiceInstances = (\<lambda>fs f. apfst map_outcome_of (fake_GetServiceInstances fs f)),
      BindService = (\<lambda>g ig ps f. apfst ptr_outcome (fake_BindService g ig ps f)),
      UploadStaticAppBits = (\<lambda>g f. apfst err_outcome (fake_UploadStaticAppBits g f)),
      DestroyApp = (\<lambda>g f. apfst err_outcome (fake_DestroyApp g f)),
      CreateApp = (\<lambda>n sg f. apfst Ok (fake_CreateApp n sg f)),
      StartApp = (\<lambda>g f. apfst err_outcome (fake_StartApp g f)),
      PollForAppState = (\<lambda>g st n f. apfst err_outcome (fake_PollForAppState g st n f)),
      AppSSHEndpoint = (\<lambda>f. fst (fake_AppSSHEndpoint f)),
      AppSSHHostKeyFingerprint = (\<lambda>f. fst (fake_AppSSHHostKeyFingerprint f)),
      SSHCode = (\<lambda>f. apfst val_outcome (fake_SSHCode f))\<rparr>"

section \<open>Passing every call on\<close>

text \<open>The results of a client that does not panic, as Go pairs.\<close>

definition as_ptr :: "'a outcome \<Rightarrow> 'a option \<times> gerror option" where
  "as_ptr r = (case r of Ok v \<Rightarrow> (Some v, None) | Err e \<Rightarrow> (None, Some e) | Panic p \<Rightarrow> (None, None))"

definition as_val :: "'a \<Rightarrow> 'a outcome \<Rightarrow> 'a \<times> gerror option" where
  "as_val z r = (case r of Ok v \<Rightarrow> (v, None) | Err e \<Rightarrow> (z, Some e) | Panic p \<Rightarrow> (z, None))"

definition as_err :: "unit outcome \<Rightarrow> gerror option" where
  "as_err r = (case r of Err e \<Rightarrow> Some e | _ \<Rightarrow> None)"

definition as_created :: "(string \<times> gerror option) outcome \<Rightarrow> string \<times> gerror option" where
  "as_created r = (case r of Ok p \<Rightarrow> p | Err e \<Rightarrow> ([], Some e) | Panic p \<Rightarrow> ([], None))"

definition delegate :: "'s client_api \<Rightarrow> 's fake_client \<Rightarrow> 's fake_client" where
  "delegate api f =
     (fake_RefreshAccessTokenCalls (Some (\<lambda>_ s. apfst as_err (RefreshAccessToken api s)))
     (fake_GetAppEnvCalls (Some (\<lambda>g s. apfst as_ptr (GetAppEnv api g s)))
     (fake_GetSpaceByNameCalls (Some (\<lambda>(og, n) s. apfst as_ptr (GetSpaceByName api og n s)))
     (fake_GetOrgByNameCalls (Some (\<lambda>n s. apfst as_ptr (GetOrgByName api n s)))
     (fake_GetAppByNameCalls (Some (\<lambda>(og, sg, n) s. apfst as_ptr (GetAppByName api og sg n s)))
     (fake_GetServiceBindingsCalls (Some (\<lambda>fs s. apfst as_ptr (GetServiceBindings api fs s)))
     (fake_GetServiceInstancesCalls (Some (\<lambda>fs s. apfst as_ptr (GetServiceInstances api fs s)))
     (fake_BindServiceCalls (Some (\<lambda>(g, ig, ps) s. apfst as_ptr (BindService api g ig ps s)))
     (fake_UploadStaticAppBitsCalls (Some (\<lambda>g s. apfst as_err (UploadStaticAppBits api g s)))
     (fake_DestroyAppCalls (Some (\<lambda>g s. apfst as_err (DestroyApp api g s)))
     (fake_CreateAppCalls (Some (\<lambda>(n, sg) s. apfst as_created (CreateApp api n sg s)))
     (fake_StartAppCalls (Some (\<lambda>g s. apfst as_err (StartApp api g s)))
     (fake_PollForAppStateCalls (Some (\<lambda>(g, st, n) s. apfst as_err (PollForAppState api g st n s)))
     (fake_AppSSHEndpointCalls (Some (\<lambda>_ s. (AppSSHEndpoint api s, s)))
     (fake_AppSSHHostKeyFingerprintCalls (Some (\<lambda>_ s. (AppSSHHostKeyFingerprint api s, s)))
     (fake_SSHCodeCalls (Some (\<lambda>_ s. apfst (as_val []) (SSHCode api s)))
       f))))))))))))))))"

text \<open>All stubs.\<close>

definition stubs where
  "stubs f = (fmStub (fmRefreshAccessToken f), fmStub (fmGetAppEnv f), fmStub (fmGetSpaceByName f), fmStub (fmGetOrgByName f), fmStub (fmGetAppByName f), fmStub (fmGetServiceBindings f), fmStub (fmGetServiceInstances f), fmStub (fmBindService f), fmStub (fmUploadStaticAppBits f), fmStub (fmDestroyApp f), fmStub (fmCreateApp f), fmStub (fmStartApp f), fmStub (fmPollForAppState f), fmStub (fmAppSSHEndpoint f), fmStub (fmAppSSHHostKeyFingerprint f), fmStub (fmSSHCode f))"

text \<open>What an entry of the recorded sequence is as an invocation.\<close>

fun invocation_of :: "cf_call \<Rightarrow> string \<times> inv_arg list" where
  "invocation_of C_Refresh = (''RefreshAccessToken'', [])"
| "invocation_of (C_Env g) = (''GetAppEnv'', [I_string g])"
| "invocation_of (C_Space og n) = (''GetSpaceByName'', [I_string og, I_string n])"
| "invocation_of (C_Org n) = (''GetOrgByName'', [I_string n])"
| "invocation_of (C_App og sg n) = (''GetAppByName'', [I_string og, I_string sg, I_string n])"
| "invocation_of (C_Bindings fs) = (''GetServiceBindings'', [I_strings fs])"
| "invocation_of (C_Instances fs) = (''GetServiceInstances'', [I_strings fs])"
| "invocation_of (C_Bind g ig ps) = (''BindService'', [I_string g, I_string ig, I_params ps])"
| "invocation_of (C_Upload g) = (''UploadStaticAppBits'', [I_string g])"
| "invocation_of (C_Destroy g) = (''DestroyApp'', [I_string g])"
| "invocation_of (C_Create n sg) = (''CreateApp'', [I_string n, I_string sg])"
| "invocation_of (C_Start g) = (''StartApp'', [I_string g])"
| "invocation_of (C_Poll g st n) = (''PollForAppState'', [I_string g, I_string st, I_int n])"
| "invocation_of C_SSHCode = (''SSHCode'', [])"

definition calls_named :: "string \<Rightarrow> cf_call list \<Rightarrow> inv_arg list list" where
  "calls_named k l = map snd (filter (\<lambda>(n, _). n = k) (map invocation_of l))"

text \<open>
  The fake and the recording client in step: the fake still passes its calls on, the state behind
  them is the same, and its invocations are the recorded calls, method by method.
\<close>

definition in_step :: "'s client_api \<Rightarrow> 's fake_client \<Rightarrow> 's \<times> cf_call list \<Rightarrow> bool" where
  "in_step api f c = (stubs f = stubs (delegate api f) \<and> outside f = fst c
     \<and> (\<forall>k. (case map_of (fake_Invocations f) k of None \<Rightarrow> [] | Some cs \<Rightarrow> cs) = calls_named k (snd c)))"

definition simulated :: "'s client_api \<Rightarrow> ('s fake_client, 'a) act \<Rightarrow> ('s \<times> cf_call list, 'a) act \<Rightarrow> bool" where
  "simulated api g h = (\<forall>f c. in_step api f c \<longrightarrow> fst (g f) = fst (h c) \<and> in_step api (snd (g f)) (snd (h c)))"

lemmas fake_calls = fake_RefreshAccessTokenCalls_def fake_GetAppEnvCalls_def fake_GetSpaceByNameCalls_def fake_GetOrgByNameCalls_def fake_GetAppByNameCalls_def fake_GetServiceBindingsCalls_def fake_GetServiceInstancesCalls_def fake_BindServiceCalls_def fake_UploadStaticAppBitsCalls_def fake_DestroyAppCalls_def fake_CreateAppCalls_def fake_StartAppCalls_def fake_PollForAppStateCalls_def fake_AppSSHEndpointCalls_def fake_AppSSHHostKeyFingerprintCalls_def fake_SSHCodeCalls_def

lemmas fake_methods = fake_RefreshAccessToken_def fake_GetAppEnv_def fake_GetSpaceByName_def fake_GetOrgByName_def fake_GetAppByName_def fake_GetServiceBindings_def fake_GetServiceInstances_def fake_BindService_def fake_UploadStaticAppBits_def fake_DestroyApp_def fake_CreateApp_def fake_StartApp_def fake_PollForAppState_def fake_AppSSHEndpoint_def fake_AppSSHHostKeyFingerprint_def fake_SSHCode_def

lemma stubs_frame [simp]:
  "stubs (f\<lparr>outside := x\<rparr>) = stubs f" "stubs (recordInvocation n args f) = stubs f"
  by (simp_all add: stubs_def recordInvocation_def Let_def)

lemma delegate_stubs: "stubs (delegate api f) = stubs (delegate api g)"
  by (simp add: stubs_def delegate_def fake_calls method_Calls_def)

lemma in_step_start: "in_step api (delegate api (new_fake s)) (s, [])"
  using delegate_stubs [of api "new_fake s" "delegate api (new_fake s)"]
  by (simp add: in_step_def calls_named_def) (simp add: delegate_def fake_calls new_fake_def fake_Invocations_def)

lemma calls_named_snoc:
  "calls_named k (l @ [x]) = calls_named k l @ (if fst (invocation_of x) = k then [snd (invocation_of x)] else [])"
  by (simp add: calls_named_def case_prod_beta)

lemma recorded_lookup:
  "(case map_of (fake_Invocations (recordInvocation n args f)) k of None \<Rightarrow> [] | Some cs \<Rightarrow> cs)
     = (case map_of (fake_Invocations f) k of None \<Rightarrow> [] | Some cs \<Rightarrow> cs) @ (if n = k then [args] else [])"
  by (simp add: fake_Invocations_def recordInvocation_def Let_def update_conv' split: option.split)

text \<open>One step of both.\<close>

lemma in_step_call:
  assumes "in_step api f (s, l)" and "invocation_of x = (n, args)"
    and "stubs f' = stubs f" and "outside f' = s'" and "invocations f' = invocations (recordInvocation n args f)"
  shows "in_step api f' (s', l @ [x])"
proof -
  have "fake_Invocations f' = fake_Invocations (recordInvocation n args f)"
    using assms(5) by (simp add: fake_Invocations_def)
  moreover have "stubs f' = stubs (delegate api f')"
    using assms(1,3) delegate_stubs [of api f f'] by (simp add: in_step_def)
  ultimately show ?thesis
    using assms(1,2,4) by (simp add: in_step_def recorded_lookup calls_named_snoc)
qed

lemma passes_on:
  assumes "in_step api f c"
  shows "outside f = fst c"
    "fmStub (fmRefreshAccessToken f) = Some (\<lambda>_ s. apfst as_err (RefreshAccessToken api s))"
    "fmStub (fmGetAppEnv f) = Some (\<lambda>g s. apfst as_ptr (GetAppEnv api g s))"
    "fmStub (fmGetSpaceByName f) = Some (\<lambda>(og, n) s. apfst as_ptr (GetSpaceByName api og n s))"
    "fmStub (fmGetOrgByName f) = Some (\<lambda>n s. apfst as_ptr (GetOrgByName api n s))"
    "fmStub (fmGetAppByName f) = Some (\<lambda>(og, sg, n) s. apfst as_ptr (GetAppByName api og sg n s))"
    "fmStub (fmGetServiceBindings f) = Some (\<lambda>fs s. apfst as_ptr (GetServiceBindings api fs s))"
    "fmStub (fmGetServiceInstances f) = Some (\<lambda>fs s. apfst as_ptr (GetServiceInstances api fs s))"
    "fmStub (fmBindService f) = Some (\<lambda>(g, ig, ps) s. apfst as_ptr (BindService api g ig ps s))"
    "fmStub (fmUploadStaticAppBits f) = Some (\<lambda>g s. apfst as_err (UploadStaticAppBits api g s))"
    "fmStub (fmDestroyApp f) = Some (\<lambda>g s. apfst as_err (DestroyApp api g s))"
    "fmStub (fmCreateApp f) = Some (\<lambda>(n, sg) s. apfst as_created (CreateApp api n sg s))"
    "fmStub (fmStartApp f) = Some (\<lambda>g s. apfst as_err (StartApp api g s))"
    "fmStub (fmPollForAppState f) = Some (\<lambda>(g, st, n) s. apfst as_err (PollForAppState api g st n s))"
    "fmStub (fmAppSSHEndpoint f) = Some (\<lambda>_ s. (AppSSHEndpoint api s, s))"
    "fmStub (fmAppSSHHostKeyFingerprint f) = Some (\<lambda>_ s. (AppSSHHostKeyFingerprint api s, s))"
    "fmStub (fmSSHCode f) = Some (\<lambda>_ s. apfst (as_val []) (SSHCode api s))"
  using assms by (simp_all add: in_step_def stubs_def delegate_def fake_calls method_Calls_def)

lemma apfst_cases: "apfst h (g s) = (case g s of (r, s') \<Rightarrow> (h r, s'))"
  by (simp add: apfst_def map_prod_def split: prod.split)

text \<open>The conversions lose nothing on the results of a client that does not panic.\<close>

lemma conversions:
  "no_panic g \<Longrightarrow> err_outcome (as_err (fst (g s))) = fst (g s)"
  "no_panic h \<Longrightarrow> ptr_outcome (as_ptr (fst (h t))) = fst (h t)"
  "no_panic h' \<Longrightarrow> map_outcome_of (as_ptr (fst (h' t'))) = fst (h' t')"
  "no_panic k \<Longrightarrow> val_outcome (as_val ([] :: string) (fst (k u))) = fst (k u)"
  unfolding err_outcome_def as_err_def ptr_outcome_def as_ptr_def map_outcome_of_def val_outcome_def as_val_def
  by (auto simp: no_panic_def split: outcome.split)

lemma simulated_call:
  assumes "invocation_of x = (n, args)" and "\<And>s. conv (enc (fst (real s))) = fst (real s)"
    and "\<And>f. stubs f = stubs (delegate api f) \<Longrightarrow> \<exists>f'. fop f = (enc (fst (real (outside f))), f')
      \<and> stubs f' = stubs f \<and> outside f' = snd (real (outside f))
      \<and> invocations f' = invocations (recordInvocation n args f)"
  shows "simulated api (\<lambda>f. apfst conv (fop f)) (log_call x real)"
  unfolding simulated_def
proof (intro allI impI)
  fix f and c :: "_ \<times> cf_call list"
  assume i: "in_step api f c"
  obtain s l where c: "c = (s, l)" by (cases c)
  obtain r s' where r: "real s = (r, s')" by fastforce
  from i assms(3) [of f] obtain f' where f': "fop f = (enc r, f')" "stubs f' = stubs f" "outside f' = s'"
    "invocations f' = invocations (recordInvocation n args f)"
    using r by (auto simp: in_step_def c)
  have "log_call x real c = (r, (s', l @ [x]))" by (simp add: log_call_def c r)
  moreover have "conv (enc r) = r" using assms(2) [of s] r by simp
  ultimately show "fst (apfst conv (fop f)) = fst (log_call x real c)
      \<and> in_step api (snd (apfst conv (fop f))) (snd (log_call x real c))"
    using in_step_call [OF i [unfolded c] assms(1) f'(2-4)] f'(1) by simp
qed

lemmas delegate_simps = stubs_def delegate_def fake_calls method_Calls_def fake_methods method_call_def Let_def
  recordInvocation_def apfst_def map_prod_def

text \<open>
  Property C40: a fake whose stubs pass every call on is as good as the real client: step by step its
  methods give the real client's results and leave the real state behind them the same, and its
  invocations are, for each method, the arguments of the calls made, in order.
\<close>

theorem fake_refines_recorder:
  "let api = client_impl capi in
       in_step api (delegate api (new_fake s)) (s, [])
     \<and> simulated api (RefreshAccessToken fake_impl) (RefreshAccessToken (logged api))
     \<and> simulated api (GetAppEnv fake_impl g) (GetAppEnv (logged api) g)
     \<and> simulated api (GetSpaceByName fake_impl og nm) (GetSpaceByName (logged api) og nm)
     \<and> simulated api (GetOrgByName fake_impl nm) (GetOrgByName (logged api) nm)
     \<and> simulated api (GetAppByName fake_impl og sg nm) (GetAppByName (logged api) og sg nm)
     \<and> simulated api (GetServiceBindings fake_impl fs) (GetServiceBindings (logged api) fs)
     \<and> simulated api (GetServiceInstances fake_impl fs) (GetServiceInstances (logged api) fs)
     \<and> simulated api (BindService fake_impl g ig ps) (BindService (logged api) g ig ps)
     \<and> simulated api (UploadStaticAppBits fake_impl g) (UploadStaticAppBits (logged api) g)
     \<and> simulated api (DestroyApp fake_impl g) (DestroyApp (logged api) g)
     \<and> simulated api (CreateApp fake_impl nm sg) (CreateApp (logged api) nm sg)
     \<and> simulated api (StartApp fake_impl g) (StartApp (logged api) g)
     \<and> simulated api (PollForAppState fake_impl g st k) (PollForAppState (logged api) g st k)
     \<and> simulated api (SSHCode fake_impl) (SSHCode (logged api))"
proof -
  let ?api = "client_impl capi"
  have created: "Ok (as_created (fst (CreateApp ?api nm sg s))) = fst (CreateApp ?api nm sg s)" for s
    using cf.create_outcome [of capi nm sg s] by (auto simp: as_created_def)
  show ?thesis
    unfolding Let_def fake_impl_def logged_def client_api.select_convs
    by (intro conjI in_step_start)
      (rule simulated_call, rule invocation_of.simps, (rule created | rule conversions, rule cf.calm_client),
        simp add: delegate_simps split: prod.split)+
qed

end
