(* ===== verification/Spec2Isabelle.thy ===== *)
theory Spec2Isabelle
  imports Status TlsOptions Loops SshConnections Shutdown Proxying TlsTunnel Deployment BindingProps
    Lifecycle CommandProps FakeProps
begin

text \<open>
  A model of the \<open>cf conduit\<close> plugin (paas-cf-conduit) and the properties that make it correct.

  \<^bold>\<open>The program.\<close> \<open>cf conduit NAME... [-- COMMAND ARGS]\<close> pushes a small helper app to a Cloud
  Foundry space, binds the named service instances to it, opens an SSH tunnel through it to each of
  them (with a TLS tunnel in front for Redis clients that cannot speak TLS), replaces the addresses in
  the app's \<open>VCAP_SERVICES\<close> by the local ends of the tunnels, and either runs the command with that
  environment or waits for a signal. At the end it closes the tunnels, removes temporary files and
  deletes the helper app.

  \<^bold>\<open>How code becomes definitions.\<close> A Go method that works on a receiver is an action
  \<open>('s, 'a) act = 's \<Rightarrow> 'a outcome \<times> 's\<close> on an explicit state (Prelude); an outcome is \<open>Ok\<close> with the
  value, \<open>Err\<close> with the returned error or \<open>Panic\<close>. Every \<open>if err != nil\<close>, early return and nil
  dereference is a branch. \<open>int64\<close> and \<open>uint16\<close> are words, Go strings are byte strings, maps are
  lists of entries without duplicate keys in the order a \<open>range\<close> visits them, so a statement about all
  such lists covers every order. Loops are structural recursions or \<open>function\<close>s with a measure; no
  fuel is used. Goroutines that share state are inductive step relations, with one step for each
  access under a lock or on a channel.

  \<^bold>\<open>Theories\<close>, in the order of the imports, with the code they model:

  \<^item> Prelude: errors, outcomes, actions, the preservation calculus \<open>keeps\<close> and the calculus \<open>calm\<close> for
    the absence of panics, Go maps. GoStrings: the functions of strings, strconv and fmt that are
    used. GoValue, Json, JsonRoundtrip: \<open>interface{}\<close> values, \<open>json.Marshal\<close> and \<open>json.Unmarshal\<close>
    (scanner, string literals, float64, struct fields matched by tag), and that one reads back what
    the other wrote.
  \<^item> Credentials: client/credentials.go. Client: client/client.go and client_interface.go; \<open>client_api\<close>
    is the Go interface \<open>Client\<close> as a record of actions, \<open>client_impl\<close> the implementation over \<open>cfapi\<close>,
    the calls that go to the vendored go-cfclient and the \<open>cf\<close> command. EnvRoundtrip: the
    services map as JSON and back.
  \<^item> Loops: util/retry.go and util/tcp.go with the locale \<open>bounded_attempts\<close> that also covers the
    polling loop of the client. Status: util/status.go, logging/logging.go. TlsOptions: util/tls.go.
    Machine: util/port.go and the listeners, files, processes and clock of the operating system; any
    call can fail for outside reasons (\<open>outage\<close>).
  \<^item> Services: service/*.go, the four providers and their common contract \<open>service_provider\<close>.
  \<^item> SshTunnel, SshConnections, Shutdown, Proxying: ssh/tunnel.go. TlsTunnel (and Proxying):
    tls/tunnel.go.
  \<^item> App, Bindings, Running: conduit/app.go. The record \<open>app\<close> extends \<open>app_core\<close>, the part that
    \<open>initServiceBindings\<close> works on. BindingPlan: the abstract specification of
    \<open>initServiceBindings\<close>, a pure function from the services, the names and the first port to the list
    of planned forwardings, and the proof that the loops carry it out. BindingProps: its consequences.
    Deployment: the calls to the platform, as recorded by \<open>logged\<close>, a client that passes every call
    on. Lifecycle: set-up, run and clean-up together.
  \<^item> Command: main.go, conduit.go, plugin.go, uninstall.go; \<open>RunE\<close> is the whole command from the flags
    to the end of the deferred calls, \<open>plugin_Run\<close> the entry point with the exit code.
    SessionFrame: the locales \<open>binding_invariant\<close>, \<open>session_setup\<close> and \<open>session_invariant\<close>, which lift an
    invariant of the single steps to the session. Session, CommandProps: the properties of whole runs.
  \<^item> FakeClient, FakeProps: client/clientfakes/fake_client.go, the test double, and that it refines the
    recording client when its stubs pass the calls on.

  \<^bold>\<open>What is shown.\<close> The set-up keeps exactly the requested instances, gives each its own
  consecutive ports, points the credentials at them and at nothing else, and publishes JSON that decodes
  to just that; it refines the plan. After a successful set-up exactly those ports are open on the
  loopback interface, and the clean-up closes whatever a set-up opened, whichever step failed. In every
  run that ends the deletion of the helper app is asked for exactly if it exists and is not to be kept; with
  \<open>--existing-app\<close> only queries are made. A run starts at most one process, and its exit code is
  the plugin's. A session goes on only while it waits for a signal. The retry loops end after the stated
  numbers of attempts. Data is proxied only to a server whose host key was checked, in order and
  unchanged. Where the code falls short the statement says so: the dropped error of
  \<open>json.Unmarshal\<close> that ends in a nil dereference, SSH connections that are never closed, listeners left
  open by a failed \<open>Start\<close>, the error channel of the TLS tunnel that nobody reads, \<open>--insecure\<close> without
  effect on the API client, the refreshed token with its line end.

  \<^bold>\<open>Parameters and bounds.\<close> go-cfclient and the platform (\<open>cfapi\<close>), x/crypto/ssh (\<open>ssh_lib\<close>),
  \<open>tls.Dial\<close>, PEM and X.509 parsing, cobra's flag parsing, the \<open>cf\<close> CLI's connection, the random
  generator and the number of signals are arguments of the definitions. Hypotheses about them
  state documented behaviour only: a successful SSH dial has shown the server's key to the callback, a
  write appends a prefix of its data.

  \<^bold>\<open>Not modelled.\<close> The frames of the spinner's animation, debug lines of \<open>--verbose\<close> outside the status
  line, help texts and flag descriptions, colour codes, tools.go (build-time imports), data races
  inside Go's runtime, and the vendored libraries themselves. A stub of the test double acts on a
  state outside the double and does not call it back.
\<close>

end
